theory Spec2Isabelle
  imports Complex_Main "HOL-Library.Word" "HOL-Library.AList" "HOL-Library.Log_Nat"
begin

section \<open>The cell-id position provider (src/plugin/yandexprovider.cpp)\<close>

text \<open>
  A shallow embedding of \<^verbatim>\<open>YandexProvider\<close>: the member variables are a record, every
  member function is a function from the state (and the inputs it reads from outside the
  class) to the new state, \<^verbatim>\<open>qFatal\<close> is an error value, emitted signals are appended to a
  trace kept in the state.
\<close>

subsection \<open>Machine numbers\<close>

type_synonym quint16 = "16 word"
type_synonym quint32 = "32 word"

text \<open>
  A C++ \<^verbatim>\<open>double\<close> is an IEEE 754 binary64 number: NaN, an infinity, or a finite number
  \<open>Fin x\<close>. An arithmetic operation on finite numbers takes the exact result and rounds it
  to the nearest binary64 number, a tie to the one with the even significand
  (\<open>round64\<close>), as the operations of the processor do when each one is rounded by itself
  (no fused multiply-add, no wider intermediate format). The special values follow
  IEEE 754: \<^verbatim>\<open>0.0 / 0.0\<close> is \<open>NaN\<close> and \<^verbatim>\<open>x / 0.0\<close> is an infinity, not HOL's \<open>x / 0 = 0\<close>;
  a result of magnitude \<open>2 ^ 1024\<close> or more after rounding is an infinity. The sign of
  zero is not modelled.
\<close>

datatype double = NaN | PInf | NInf | Fin real

definition dsign_inf :: "bool \<Rightarrow> double" where
  "dsign_inf positive = (if positive then PInf else NInf)"

text \<open>The integer nearest to \<open>z\<close>, the even one of the two when \<open>z\<close> lies halfway.\<close>

definition roundHalfEven :: "real \<Rightarrow> int" where
  "roundHalfEven z =
     (let f = \<lfloor>z\<rfloor>; d = z - of_int f
      in if d < 1 / 2 then f
         else if 1 / 2 < d then f + 1
         else if even f then f else f + 1)"

text \<open>For \<open>0 < x\<close>, the exponent \<open>e\<close> with \<open>2 ^ e \<le> x < 2 ^ (e + 1)\<close>.\<close>

definition floorlog2 :: "real \<Rightarrow> int" where
  "floorlog2 x = (if 1 \<le> x then bitlen \<lfloor>x\<rfloor> - 1 else - bitlen (\<lceil>1 / x\<rceil> - 1))"

text \<open>
  Rounding to binary64. A number with exponent \<open>e\<close> has a significand of 53 bits, so that
  the binary64 numbers around it are the multiples of \<open>2 ^ (e - 52)\<close>; below \<open>2 ^ - 1022\<close>
  (the subnormal numbers) they are the multiples of \<open>2 ^ - 1074\<close>.
\<close>

definition round64 :: "real \<Rightarrow> double" where
  "round64 x =
     (if x = 0 then Fin 0
      else
        let e = max (floorlog2 \<bar>x\<bar>) (- 1022);
            y = (if e \<le> 52
                 then of_int (roundHalfEven (\<bar>x\<bar> * 2 ^ nat (52 - e))) / 2 ^ nat (52 - e)
                 else of_int (roundHalfEven (\<bar>x\<bar> / 2 ^ nat (e - 52))) * 2 ^ nat (e - 52))
        in if 2 ^ 1024 \<le> y then dsign_inf (0 < x) else Fin (sgn x * y))"

fun dadd :: "double \<Rightarrow> double \<Rightarrow> double" where
  "dadd NaN _ = NaN"
| "dadd _ NaN = NaN"
| "dadd PInf NInf = NaN"
| "dadd NInf PInf = NaN"
| "dadd PInf _ = PInf"
| "dadd _ PInf = PInf"
| "dadd NInf _ = NInf"
| "dadd _ NInf = NInf"
| "dadd (Fin a) (Fin b) = round64 (a + b)"

fun dmul :: "double \<Rightarrow> double \<Rightarrow> double" where
  "dmul NaN _ = NaN"
| "dmul _ NaN = NaN"
| "dmul PInf PInf = PInf"
| "dmul PInf NInf = NInf"
| "dmul NInf PInf = NInf"
| "dmul NInf NInf = PInf"
| "dmul PInf (Fin b) = (if b = 0 then NaN else dsign_inf (0 < b))"
| "dmul NInf (Fin b) = (if b = 0 then NaN else dsign_inf (b < 0))"
| "dmul (Fin a) PInf = (if a = 0 then NaN else dsign_inf (0 < a))"
| "dmul (Fin a) NInf = (if a = 0 then NaN else dsign_inf (a < 0))"
| "dmul (Fin a) (Fin b) = round64 (a * b)"

fun ddiv :: "double \<Rightarrow> double \<Rightarrow> double" where
  "ddiv NaN _ = NaN"
| "ddiv _ NaN = NaN"
| "ddiv PInf (Fin b) = dsign_inf (0 \<le> b)"
| "ddiv NInf (Fin b) = dsign_inf (b < 0)"
| "ddiv (Fin a) (Fin b) =
     (if b \<noteq> 0 then round64 (a / b)
      else if a = 0 then NaN
      else dsign_inf (0 < a))"
| "ddiv (Fin a) _ = Fin 0"
| "ddiv _ _ = NaN"

fun dless :: "double \<Rightarrow> double \<Rightarrow> bool" where
  "dless NaN _ = False"
| "dless _ NaN = False"
| "dless (Fin a) (Fin b) = (a < b)"
| "dless NInf NInf = False"
| "dless NInf _ = True"
| "dless _ NInf = False"
| "dless PInf _ = False"
| "dless _ PInf = True"

definition qIsNaN :: "double \<Rightarrow> bool" where
  "qIsNaN d = (d = NaN)"

text \<open>
  Conversion of a \<^verbatim>\<open>quint32\<close> and of an \<^verbatim>\<open>int\<close> to \<^verbatim>\<open>double\<close>: an integer of 32 bits is a
  binary64 number, the conversion is exact.
\<close>

definition double_of_quint32 :: "quint32 \<Rightarrow> double" where
  "double_of_quint32 n = Fin (real (unat n))"

definition double_of_int :: "int \<Rightarrow> double" where
  "double_of_int i = Fin (real_of_int i)"

text \<open>C++ integer division truncates towards zero.\<close>

definition cdiv :: "int \<Rightarrow> int \<Rightarrow> int" where
  "cdiv a b = sgn a * sgn b * (\<bar>a\<bar> div \<bar>b\<bar>)"

text \<open>A \<^verbatim>\<open>qint64\<close> that is stored in an \<^verbatim>\<open>int\<close> keeps its low 32 bits.\<close>

definition int_of_qint64 :: "int \<Rightarrow> int" where
  "int_of_qint64 i = sint (word_of_int i :: 32 word)"

subsection \<open>Constants of the anonymous namespace\<close>

definition MinimumCalculatedAccuracy :: int where
  "MinimumCalculatedAccuracy = 2500"

definition QuitIdleTime :: int where
  "QuitIdleTime = 30000"

definition FixTimeout :: int where
  "FixTimeout = 30000"

definition MinimumInterval :: quint32 where
  "MinimumInterval = 10000"

definition ReuseInterval :: quint32 where
  "ReuseInterval = 30000"

definition FallbackInterval :: quint32 where
  "FallbackInterval = 120000"

definition UINT_MAX :: quint32 where
  "UINT_MAX = 4294967295"

subsection \<open>Subscribers and the update interval\<close>

text \<open>
  Modelled from the spec: \<^verbatim>\<open>ServiceData\<close> is declared in yandexprovider.h, which is not among
  the sources; the spec's Subscriber has an unsigned reference count and an unsigned 32-bit
  requested interval, both 0 in a fresh entry.
\<close>

record ServiceData =
  referenceCount :: nat
  updateInterval :: quint32

definition ServiceData_default :: ServiceData where
  "ServiceData_default = \<lparr>referenceCount = 0, updateInterval = 0\<rparr>"

text \<open>
  \<^verbatim>\<open>m_watchedServices\<close> is a \<^verbatim>\<open>QMap<QString, ServiceData>\<close>: an association list with distinct
  keys, changed only through \<open>AList.update\<close> and \<open>AList.delete\<close>.
\<close>

type_synonym WatchedServices = "(string \<times> ServiceData) list"

text \<open>The body of the \<^verbatim>\<open>foreach\<close> of \<^verbatim>\<open>minimumRequestedUpdateInterval\<close>, and the loop.\<close>

fun minimumRequestedUpdateInterval_loop :: "ServiceData list \<Rightarrow> quint32 \<Rightarrow> quint32" where
  "minimumRequestedUpdateInterval_loop [] updateInterval' = updateInterval'"
| "minimumRequestedUpdateInterval_loop (data # rest) updateInterval' =
     (if referenceCount data \<le> 0 then minimumRequestedUpdateInterval_loop rest updateInterval'
      else if updateInterval data = 0 then minimumRequestedUpdateInterval_loop rest updateInterval'
      else minimumRequestedUpdateInterval_loop rest (min updateInterval' (updateInterval data)))"

definition minimumRequestedUpdateInterval :: "WatchedServices \<Rightarrow> quint32" where
  "minimumRequestedUpdateInterval watched =
     (let updateInterval' = minimumRequestedUpdateInterval_loop (map snd watched) UINT_MAX
      in if updateInterval' = UINT_MAX then MinimumInterval
         else max updateInterval' MinimumInterval)"

text \<open>The intervals that the loop takes into account.\<close>

definition requestedIntervals :: "WatchedServices \<Rightarrow> quint32 set" where
  "requestedIntervals watched =
     updateInterval ` {d \<in> snd ` set watched. 0 < referenceCount d \<and> updateInterval d \<noteq> 0}"

text \<open>
  The effective interval in the words of the specification: the minimum of the non-zero
  requested intervals, floored at \<open>MinimumInterval\<close>; \<open>MinimumInterval\<close> when there is none.
\<close>

definition spec_effectiveInterval :: "WatchedServices \<Rightarrow> quint32" where
  "spec_effectiveInterval watched =
     (let requested = filter (\<lambda>i. i \<noteq> 0) (map (updateInterval \<circ> snd) watched)
      in if requested = [] then MinimumInterval
         else max (Min (set requested)) MinimumInterval)"

subsection \<open>Cells, coordinates and fixes\<close>

text \<open>
  Modelled from the spec: the value types \<^verbatim>\<open>MlsdbUniqueCellId\<close>, \<^verbatim>\<open>MlsdbCoords\<close>,
  \<^verbatim>\<open>CellPositioningData\<close>, \<^verbatim>\<open>Accuracy\<close> and \<^verbatim>\<open>Location\<close> are declared in headers that are
  not among the sources. Their fields are those of the spec's CellIdentity, Coordinates,
  CellObservation and Fix; the constructor of \<^verbatim>\<open>MlsdbUniqueCellId\<close> takes them in the order
  of the call in \<^verbatim>\<open>seenCellIds\<close>. A default-constructed \<^verbatim>\<open>Location\<close> has timestamp 0 (no fix)
  and every \<^verbatim>\<open>double\<close> absent (NaN).
\<close>

datatype MlsdbCellType = MLSDB_CELL_TYPE_LTE | MLSDB_CELL_TYPE_GSM | MLSDB_CELL_TYPE_UMTS

datatype MlsdbUniqueCellId =
  MlsdbUniqueCellId (cellType: MlsdbCellType) (cellId: quint32) (locationCode: quint32)
    (mcc: quint16) (mnc: quint16)

record MlsdbCoords =
  lat :: double
  lon :: double

record CellPositioningData =
  uniqueCellId :: MlsdbUniqueCellId
  signalStrength :: quint32

record Accuracy =
  horizontal :: double
  vertical :: double

record Location =
  timestamp :: int
  latitude :: double
  longitude :: double
  altitude :: double
  accuracy :: Accuracy

definition Accuracy_default :: Accuracy where
  "Accuracy_default = \<lparr>horizontal = NaN, vertical = NaN\<rparr>"

definition Location_default :: Location where
  "Location_default =
     \<lparr>timestamp = 0, latitude = NaN, longitude = NaN, altitude = NaN,
      accuracy = Accuracy_default\<rparr>"

text \<open>
  A cell as the radio source reports it (\<^verbatim>\<open>QOfonoExtCell\<close> of libqofonoext): the getters the
  code calls return \<^verbatim>\<open>int\<close>, and \<^verbatim>\<open>QOfonoExtCell::InvalidValue\<close> is \<^verbatim>\<open>INT_MAX\<close>.
\<close>

datatype QOfonoExtCell_Type = Unknown | GSM | WCDMA | LTE

record QOfonoExtCell =
  cell_type :: QOfonoExtCell_Type
  cell_mcc :: int
  cell_mnc :: int
  cell_lac :: int
  cell_cid :: int
  cell_ci :: int
  cell_tac :: int
  cell_signalStrength :: int

definition InvalidValue :: int where
  "InvalidValue = 2147483647"

subsection \<open>The offline data files\<close>

text \<open>
  What \<^verbatim>\<open>searchForCellIdLocation\<close> reads: the entries that the \<^verbatim>\<open>QDirIterator\<close> visits
  below /usr/share/geoclue-provider-mlsdb/, in its order, each with its path and with what
  the \<^verbatim>\<open>QDataStream\<close> yields from it (a file that cannot be read yields magic 0).
\<close>

record MlsdbFile =
  fname :: string
  magic :: quint32
  version :: int
  perLcCellIdToLocations :: "MlsdbUniqueCellId \<rightharpoonup> MlsdbCoords"

text \<open>\<^verbatim>\<open>QString::number(n).at(0)\<close>: the first decimal digit of \<open>n\<close>.\<close>

function firstDigit :: "nat \<Rightarrow> nat" where
  "firstDigit n = (if n < 10 then n else firstDigit (n div 10))"
  by pat_completeness auto
termination
  by (relation "measure id") auto

declare firstDigit.simps [simp del]

definition firstDigitAreaCode :: "MlsdbUniqueCellId \<Rightarrow> char" where
  "firstDigitAreaCode uniqueCellId' = ''0123456789'' ! firstDigit (unat (locationCode uniqueCellId'))"

text \<open>\<^verbatim>\<open>endsWith(suffix, Qt::CaseInsensitive)\<close>, for ASCII letters.\<close>

definition toLower :: "char \<Rightarrow> char" where
  "toLower c =
     (case map_of (zip ''ABCDEFGHIJKLMNOPQRSTUVWXYZ'' ''abcdefghijklmnopqrstuvwxyz'') c of
        None \<Rightarrow> c
      | Some l \<Rightarrow> l)"

definition endsWith_CaseInsensitive :: "string \<Rightarrow> string \<Rightarrow> bool" where
  "endsWith_CaseInsensitive s suffix' =
     (length suffix' \<le> length s \<and>
      map toLower (drop (length s - length suffix') s) = map toLower suffix')"

text \<open>
  The \<^verbatim>\<open>while (it.hasNext())\<close> loop. A file of another bucket, of a wrong magic number or
  version, or without the cell is skipped; the first file that has the cell gives the
  result (\<^verbatim>\<open>return true\<close> with \<^verbatim>\<open>*coords\<close> set); \<open>None\<close> is \<^verbatim>\<open>return false\<close>.
\<close>

fun searchForCellIdLocation :: "MlsdbFile list \<Rightarrow> MlsdbUniqueCellId \<Rightarrow> MlsdbCoords option" where
  "searchForCellIdLocation [] uniqueCellId' = None"
| "searchForCellIdLocation (file # rest) uniqueCellId' =
     (if endsWith_CaseInsensitive (fname file)
           (''/'' @ [firstDigitAreaCode uniqueCellId'] @ ''/mlsdb.data'')
      then
        if magic file \<noteq> 0xc710cdb then searchForCellIdLocation rest uniqueCellId'
        else if version file \<noteq> 3 then searchForCellIdLocation rest uniqueCellId'
        else (case perLcCellIdToLocations file uniqueCellId' of
                Some coords \<Rightarrow> Some coords
              | None \<Rightarrow> searchForCellIdLocation rest uniqueCellId')
      else searchForCellIdLocation rest uniqueCellId')"

subsection \<open>The provider's state\<close>

datatype Status = StatusUnavailable | StatusAcquiring | StatusAvailable

text \<open>
  A \<^verbatim>\<open>QBasicTimer\<close>: stopped, or started by \<^verbatim>\<open>start(msec, this)\<close>, of which \<open>Started\<close> keeps the
  argument as the \<^verbatim>\<open>int\<close> that the call received.
\<close>

datatype QBasicTimer = Stopped | Started int

fun isActive :: "QBasicTimer \<Rightarrow> bool" where
  "isActive Stopped = False"
| "isActive (Started msec) = True"

datatype PositionField = LatitudePresent | LongitudePresent | AltitudePresent

text \<open>What the provider sends out: its two D-Bus signals, and \<^verbatim>\<open>qApp->quit()\<close>.\<close>

datatype Signal =
  PositionChanged "PositionField set" int double double double Accuracy
| StatusChanged Status
| Quit

text \<open>The request that the online locator builds is opaque to the provider.\<close>

type_synonym Query = nat

text \<open>
  The member variables, under their names. \<open>m_cellWatcher\<close> and \<open>m_mlsdbOnlineLocator\<close> say
  whether the pointer is set. Two fields are traces: \<open>signals\<close> collects what was emitted,
  \<open>lookups\<close> the cell of every call of \<^verbatim>\<open>searchForCellIdLocation\<close>. The \<^verbatim>\<open>QDBusServiceWatcher\<close>
  and the file-system watcher are left to the transport.
\<close>

record YandexProvider =
  m_positioningEnabled :: bool
  m_cellDataAllowed :: bool
  m_positioningStarted :: bool
  m_status :: Status
  m_mlsdbOnlineLocator :: bool
  m_onlinePositioningEnabled :: bool
  m_onlineDataAllowed :: bool
  m_wlanDataAllowed :: bool
  m_cellWatcher :: bool
  m_signalUpdateCell :: bool
  m_signalUpdateWlan :: bool
  m_currentLocation :: Location
  m_lastLocation :: Location
  m_watchedServices :: WatchedServices
  m_previousQuery :: Query
  m_uniqueCellIdToLocation :: "MlsdbUniqueCellId \<rightharpoonup> MlsdbCoords"
  m_knownCellIdsWithUnknownLocations :: "MlsdbUniqueCellId set"
  m_idleTimer :: QBasicTimer
  m_fixLostTimer :: QBasicTimer
  m_recalculatePositionTimer :: QBasicTimer
  signals :: "Signal list"
  lookups :: "MlsdbUniqueCellId list"

text \<open>The values of /etc/location/location.conf; \<open>None\<close> is a key that is not set.\<close>

record Settings =
  location_enabled :: "bool option"
  location_mls_enabled :: "bool option"
  location_mls_online_enabled :: "bool option"
  location_cell_id_positioning_enabled :: "bool option"
  location_allowed_data_sources_online :: "bool option"
  location_allowed_data_sources_cell_data :: "bool option"
  location_allowed_data_sources_wlan_data :: "bool option"

text \<open>
  What a member function reads from outside the class while it runs: the clock (one field
  for each place that calls \<^verbatim>\<open>QDateTime::currentMSecsSinceEpoch()\<close>: in \<^verbatim>\<open>timerEvent\<close>, for the
  timestamp of a new fix, and in the comparison with \<^verbatim>\<open>FallbackInterval\<close>), the cells of the
  cell watcher, the data files, the settings, and the online locator.
\<close>

record World =
  clock_timerEvent :: int
  clock_timestamp :: int
  clock_arbitration :: int
  watcher_cells :: "QOfonoExtCell list"
  mlsdb_files :: "MlsdbFile list"
  location_conf :: Settings
  locator_buildLocationQuery :: "CellPositioningData list \<Rightarrow> Query \<Rightarrow> Query"
  locator_findLocation :: "Query \<Rightarrow> bool"

subsection \<open>Status and location\<close>

definition setStatus :: "Status \<Rightarrow> YandexProvider \<Rightarrow> YandexProvider" where
  "setStatus status s =
     (if m_status s = status then s
      else s\<lparr>m_status := status, signals := signals s @ [StatusChanged status]\<rparr>)"

definition positionFields :: "Location \<Rightarrow> PositionField set" where
  "positionFields location =
     (if \<not> qIsNaN (latitude location) then {LatitudePresent} else {}) \<union>
     (if \<not> qIsNaN (longitude location) then {LongitudePresent} else {}) \<union>
     (if \<not> qIsNaN (altitude location) then {AltitudePresent} else {})"

text \<open>
  Modelled from the spec: the signals are declared in yandexprovider.h, which is not among
  the sources. \<^verbatim>\<open>PositionChanged\<close> has the parameters of the spec's notification, in the
  types of the output parameters of \<^verbatim>\<open>GetPosition\<close>: the timestamp in seconds is an \<^verbatim>\<open>int\<close>, so
  that the quotient, a \<^verbatim>\<open>qint64\<close>, keeps its low 32 bits.
\<close>

definition emitLocationChanged :: "YandexProvider \<Rightarrow> YandexProvider" where
  "emitLocationChanged s =
     s\<lparr>signals := signals s @
        [PositionChanged (positionFields (m_currentLocation s))
           (int_of_qint64 (cdiv (timestamp (m_currentLocation s)) 1000))
           (latitude (m_currentLocation s)) (longitude (m_currentLocation s))
           (altitude (m_currentLocation s)) (accuracy (m_currentLocation s))]\<rparr>"

definition setLocation :: "Location \<Rightarrow> YandexProvider \<Rightarrow> YandexProvider" where
  "setLocation location s =
     (let s1 =
        (if timestamp location \<noteq> 0
         then (setStatus StatusAvailable s)
                \<lparr>m_fixLostTimer := Started FixTimeout, m_lastLocation := m_currentLocation s\<rparr>
         else s\<lparr>m_lastLocation := Location_default\<rparr>)
      in emitLocationChanged (s1\<lparr>m_currentLocation := location\<rparr>))"

subsection \<open>Gathering the cells\<close>

text \<open>
  The \<^verbatim>\<open>Q_FOREACH\<close> of \<^verbatim>\<open>seenCellIds\<close>, with its three local variables as accumulators.
  \<^verbatim>\<open>quint16 mcc = c->mcc()\<close> and the \<^verbatim>\<open>static_cast<quint32>\<close> keep the low bits. The function reads
  the cells through \<open>m_cellWatcher\<close> after it has tested \<open>m_cellDataAllowed\<close>; in a run of the
  provider the pointer is set whenever the flag is (lemma \<open>reachable_cellWatcher\<close>).
\<close>

definition cellTypeOf :: "QOfonoExtCell_Type \<Rightarrow> MlsdbCellType" where
  "cellTypeOf t =
     (if t = LTE then MLSDB_CELL_TYPE_LTE
      else if t = GSM then MLSDB_CELL_TYPE_GSM
      else if t = WCDMA then MLSDB_CELL_TYPE_UMTS
      else MLSDB_CELL_TYPE_UMTS)"

text \<open>The identity that the loop body builds for a cell; \<open>None\<close> is its \<^verbatim>\<open>continue\<close>.\<close>

definition cellIdentity :: "QOfonoExtCell \<Rightarrow> MlsdbUniqueCellId option" where
  "cellIdentity c =
     (let mcc' = (word_of_int (cell_mcc c) :: quint16);
          mnc' = (word_of_int (cell_mnc c) :: quint16);
          cellType' = cellTypeOf (cell_type c)
      in if cell_cid c \<noteq> InvalidValue \<and> cell_cid c \<noteq> 0 \<and> mcc' \<noteq> 0
         then Some (MlsdbUniqueCellId cellType' (word_of_int (cell_cid c))
                      (word_of_int (cell_lac c)) mcc' mnc')
         else if cell_ci c \<noteq> InvalidValue \<and> cell_ci c \<noteq> 0 \<and> mcc' \<noteq> 0
         then Some (MlsdbUniqueCellId cellType' (word_of_int (cell_ci c))
                      (word_of_int (cell_tac c)) mcc' mnc')
         else None)"

fun seenCellIds_loop ::
  "QOfonoExtCell list \<Rightarrow> CellPositioningData list \<Rightarrow> quint32 \<Rightarrow> MlsdbUniqueCellId set \<Rightarrow>
   CellPositioningData list" where
  "seenCellIds_loop [] cells maxNeighborSignalStrength seenCellIds' = cells"
| "seenCellIds_loop (c # rest) cells maxNeighborSignalStrength seenCellIds' =
     (case cellIdentity c of
        None \<Rightarrow> seenCellIds_loop rest cells maxNeighborSignalStrength seenCellIds'
      | Some uniqueCellId' \<Rightarrow>
          if uniqueCellId' \<notin> seenCellIds'
          then
            let cell = \<lparr>uniqueCellId = uniqueCellId',
                        signalStrength = word_of_int (cell_signalStrength c)\<rparr>
            in seenCellIds_loop rest (cells @ [cell])
                 (if signalStrength cell > maxNeighborSignalStrength then signalStrength cell
                  else maxNeighborSignalStrength)
                 (insert uniqueCellId' seenCellIds')
          else seenCellIds_loop rest cells maxNeighborSignalStrength seenCellIds')"

definition seenCellIds :: "World \<Rightarrow> YandexProvider \<Rightarrow> CellPositioningData list" where
  "seenCellIds w s =
     (if \<not> m_cellDataAllowed s then []
      else seenCellIds_loop (watcher_cells w) [] 1 {})"

subsection \<open>Offline triangulation\<close>

text \<open>
  Lines 430 to 447: the coordinates of one cell, from the positive cache, or not at all for
  a cell of the negative cache, or from the data files, which fills one of the caches.
  \<open>None\<close> is the \<^verbatim>\<open>continue\<close> of the loop.
\<close>

definition resolveCell ::
  "MlsdbFile list \<Rightarrow> MlsdbUniqueCellId \<Rightarrow> YandexProvider \<Rightarrow> MlsdbCoords option \<times> YandexProvider" where
  "resolveCell files uniqueCellId' s =
     (case m_uniqueCellIdToLocation s uniqueCellId' of
        None \<Rightarrow>
          if uniqueCellId' \<in> m_knownCellIdsWithUnknownLocations s then (None, s)
          else
            (case searchForCellIdLocation files uniqueCellId' of
               None \<Rightarrow>
                 (None,
                  s\<lparr>m_knownCellIdsWithUnknownLocations :=
                       insert uniqueCellId' (m_knownCellIdsWithUnknownLocations s),
                     lookups := lookups s @ [uniqueCellId']\<rparr>)
             | Some cellCoords \<Rightarrow>
                 (Some cellCoords,
                  s\<lparr>m_uniqueCellIdToLocation :=
                       (m_uniqueCellIdToLocation s)(uniqueCellId' \<mapsto> cellCoords),
                     lookups := lookups s @ [uniqueCellId']\<rparr>))
      | Some cellCoords \<Rightarrow> (Some cellCoords, s))"

text \<open>
  The first \<^verbatim>\<open>Q_FOREACH\<close> of \<^verbatim>\<open>updateLocationFromCells\<close>; \<open>cellLocations\<close> is a \<^verbatim>\<open>QMap\<close>, here an
  association list with distinct keys.
\<close>

type_synonym CellLocations = "(MlsdbUniqueCellId \<times> MlsdbCoords) list"

fun resolveCells ::
  "MlsdbFile list \<Rightarrow> CellPositioningData list \<Rightarrow> YandexProvider \<Rightarrow> CellLocations \<Rightarrow> double \<Rightarrow>
   YandexProvider \<times> CellLocations \<times> double" where
  "resolveCells files [] s cellLocations totalSignalStrength =
     (s, cellLocations, totalSignalStrength)"
| "resolveCells files (cell # rest) s cellLocations totalSignalStrength =
     (case resolveCell files (uniqueCellId cell) s of
        (None, s') \<Rightarrow> resolveCells files rest s' cellLocations totalSignalStrength
      | (Some cellCoords, s') \<Rightarrow>
          resolveCells files rest s'
            (AList.update (uniqueCellId cell) cellCoords cellLocations)
            (dadd totalSignalStrength (dmul (Fin 1) (double_of_quint32 (signalStrength cell)))))"

text \<open>The second \<^verbatim>\<open>Q_FOREACH\<close>: the weighted sum of the coordinates.\<close>

fun triangulate ::
  "CellPositioningData list \<Rightarrow> CellLocations \<Rightarrow> double \<Rightarrow> double \<times> double \<Rightarrow> double \<times> double" where
  "triangulate [] cellLocations totalSignalStrength (deviceLatitude, deviceLongitude) =
     (deviceLatitude, deviceLongitude)"
| "triangulate (cell # rest) cellLocations totalSignalStrength (deviceLatitude, deviceLongitude) =
     (case map_of cellLocations (uniqueCellId cell) of
        Some cellCoords \<Rightarrow>
          let weight = ddiv (double_of_quint32 (signalStrength cell)) totalSignalStrength
          in triangulate rest cellLocations totalSignalStrength
               (dadd deviceLatitude (dmul weight (lat cellCoords)),
                dadd deviceLongitude (dmul weight (lon cellCoords)))
      | None \<Rightarrow>
          triangulate rest cellLocations totalSignalStrength (deviceLatitude, deviceLongitude))"

text \<open>
  Lines 464 to 491: the fix computed from the cells. The product \<^verbatim>\<open>1000 * size()\<close> is an
  \<^verbatim>\<open>int\<close>; it stays in range for fewer than 2147484 cells, and is an unbounded integer here.
\<close>

definition deviceLocationOf ::
  "int \<Rightarrow> CellPositioningData list \<Rightarrow> CellLocations \<Rightarrow> double \<Rightarrow> Location" where
  "deviceLocationOf now cells cellLocations totalSignalStrength =
     (let (deviceLatitude, deviceLongitude) =
            triangulate cells cellLocations totalSignalStrength (Fin 0, Fin 0);
          deviceLocation = Location_default
      in if length cellLocations \<noteq> 0
         then
           let positionAccuracy = Accuracy_default
                 \<lparr>horizontal := double_of_int (max MinimumCalculatedAccuracy
                                   (10000 - 1000 * int (length cellLocations)))\<rparr>
           in deviceLocation\<lparr>timestamp := now, latitude := deviceLatitude,
                longitude := deviceLongitude, accuracy := positionAccuracy\<rparr>
         else deviceLocation)"

text \<open>
  Lines 493 to 508: the old fix is kept when it has a timestamp, is younger than
  \<open>FallbackInterval\<close> and has the smaller horizontal accuracy. The difference of the two
  \<^verbatim>\<open>qint64\<close> is compared with the \<^verbatim>\<open>quint32\<close> as a \<^verbatim>\<open>qint64\<close>.
\<close>

definition keepsCurrentLocation :: "int \<Rightarrow> Location \<Rightarrow> Location \<Rightarrow> bool" where
  "keepsCurrentLocation now currentLocation deviceLocation =
     (timestamp currentLocation \<noteq> 0
      \<and> now - timestamp currentLocation < uint FallbackInterval
      \<and> dless (horizontal (accuracy currentLocation)) (horizontal (accuracy deviceLocation)))"

definition updateLocationFromCells ::
  "World \<Rightarrow> CellPositioningData list \<Rightarrow> YandexProvider \<Rightarrow> YandexProvider" where
  "updateLocationFromCells w cells s =
     (let (s', cellLocations, totalSignalStrength) =
            resolveCells (mlsdb_files w) cells s [] (Fin 0)
      in if length cellLocations = 0 then s'
         else
           let deviceLocation =
                 deviceLocationOf (clock_timestamp w) cells cellLocations totalSignalStrength
           in if keepsCurrentLocation (clock_arbitration w) (m_currentLocation s') deviceLocation
              then setLocation (m_currentLocation s') s'
              else setLocation deviceLocation s')"

subsection \<open>Online lookup\<close>

definition calculatePositionAndEmitLocation :: "World \<Rightarrow> YandexProvider \<Rightarrow> YandexProvider" where
  "calculatePositionAndEmitLocation w s =
     (let cellIds = seenCellIds w s
      in if m_onlinePositioningEnabled s
         then
           let s1 = (if \<not> m_mlsdbOnlineLocator s then s\<lparr>m_mlsdbOnlineLocator := True\<rparr> else s);
               query = locator_buildLocationQuery w cellIds (m_previousQuery s1)
           in if locator_findLocation w query then s1\<lparr>m_previousQuery := query\<rparr>
              else updateLocationFromCells w cellIds s1
         else updateLocationFromCells w cellIds s)"

definition onlineWlanChanged :: "YandexProvider \<Rightarrow> YandexProvider" where
  "onlineWlanChanged s = s\<lparr>m_signalUpdateWlan := True\<rparr>"

definition onlineLocationFound ::
  "World \<Rightarrow> double \<Rightarrow> double \<Rightarrow> double \<Rightarrow> YandexProvider \<Rightarrow> YandexProvider" where
  "onlineLocationFound w latitude' longitude' accuracy' s =
     (let positionAccuracy = Accuracy_default\<lparr>horizontal := accuracy'\<rparr>;
          deviceLocation = Location_default
            \<lparr>timestamp := clock_timestamp w, latitude := latitude', longitude := longitude',
             accuracy := positionAccuracy\<rparr>
      in setLocation deviceLocation s)"

definition onlineLocationError :: "World \<Rightarrow> YandexProvider \<Rightarrow> YandexProvider" where
  "onlineLocationError w s = updateLocationFromCells w (seenCellIds w s) s"

subsection \<open>Starting and stopping\<close>

definition startPositioningIfNeeded :: "World \<Rightarrow> YandexProvider \<Rightarrow> YandexProvider" where
  "startPositioningIfNeeded w s =
     (if m_positioningStarted s then s
      else if m_watchedServices s = [] then s
      else if \<not> m_positioningEnabled s then s
      else
        let s1 = s\<lparr>m_idleTimer := Stopped, m_positioningStarted := True\<rparr>;
            s2 = calculatePositionAndEmitLocation w s1;
            updateInterval' = minimumRequestedUpdateInterval (m_watchedServices s2)
        in s2\<lparr>m_recalculatePositionTimer := Started (sint updateInterval')\<rparr>)"

definition stopPositioningIfNeeded :: "YandexProvider \<Rightarrow> YandexProvider" where
  "stopPositioningIfNeeded s =
     (if \<not> m_positioningStarted s then s
      else if m_positioningEnabled s \<and> m_watchedServices s \<noteq> [] then s
      else
        (setStatus StatusUnavailable (s\<lparr>m_positioningStarted := False\<rparr>))
          \<lparr>m_fixLostTimer := Stopped, m_recalculatePositionTimer := Stopped\<rparr>)"

subsection \<open>The D-Bus methods\<close>

text \<open>\<^verbatim>\<open>qFatal\<close> ends the process: the call has no state to return.\<close>

datatype error = Fatal

text \<open>\<^verbatim>\<open>m_watchedServices[service]\<close> inserts a default entry for a service it does not have.\<close>

definition serviceData :: "WatchedServices \<Rightarrow> string \<Rightarrow> ServiceData" where
  "serviceData watched service =
     (case map_of watched service of None \<Rightarrow> ServiceData_default | Some data \<Rightarrow> data)"

definition AddReference ::
  "World \<Rightarrow> bool \<Rightarrow> string \<Rightarrow> YandexProvider \<Rightarrow> error + YandexProvider" where
  "AddReference w calledFromDBus service s =
     (if \<not> calledFromDBus then Inl Fatal
      else
        let wasInactive = (m_watchedServices s = []);
            data = serviceData (m_watchedServices s) service;
            s1 = s\<lparr>m_watchedServices :=
                     AList.update service (data\<lparr>referenceCount := referenceCount data + 1\<rparr>)
                       (m_watchedServices s)\<rparr>;
            s2 = (if wasInactive then s1\<lparr>m_idleTimer := Stopped\<rparr> else s1)
        in Inr (startPositioningIfNeeded w s2))"

definition RemoveReference ::
  "bool \<Rightarrow> string \<Rightarrow> YandexProvider \<Rightarrow> error + YandexProvider" where
  "RemoveReference calledFromDBus service s =
     (if \<not> calledFromDBus then Inl Fatal
      else
        let data = serviceData (m_watchedServices s) service;
            data1 = (if referenceCount data > 0
                     then data\<lparr>referenceCount := referenceCount data - 1\<rparr> else data);
            watched1 = AList.update service data1 (m_watchedServices s);
            watched2 = (if referenceCount data1 = 0 then AList.delete service watched1
                        else watched1);
            s1 = s\<lparr>m_watchedServices := watched2\<rparr>;
            s2 = (if m_watchedServices s1 = [] then s1\<lparr>m_idleTimer := Started QuitIdleTime\<rparr>
                  else s1)
        in Inr (stopPositioningIfNeeded s2))"

text \<open>
  \<open>options\<close> gives, for a key of the \<^verbatim>\<open>QVariantMap\<close>, what \<^verbatim>\<open>toUInt()\<close> makes of its value. The
  function returns after \<^verbatim>\<open>qWarning\<close> for a service that is not watched: a \<^verbatim>\<open>void\<close> method that
  returns sends its caller an ordinary reply.
\<close>

definition SetOptions ::
  "bool \<Rightarrow> string \<Rightarrow> (string \<rightharpoonup> quint32) \<Rightarrow> YandexProvider \<Rightarrow> error + YandexProvider" where
  "SetOptions calledFromDBus service options s =
     (if \<not> calledFromDBus then Inl Fatal
      else if map_of (m_watchedServices s) service = None then Inr s
      else
        (case options ''UpdateInterval'' of
           Some interval \<Rightarrow>
             let data = serviceData (m_watchedServices s) service;
                 s1 = s\<lparr>m_watchedServices :=
                          AList.update service (data\<lparr>updateInterval := interval\<rparr>)
                            (m_watchedServices s)\<rparr>;
                 updateInterval' = minimumRequestedUpdateInterval (m_watchedServices s1)
             in Inr (s1\<lparr>m_recalculatePositionTimer := Started (sint updateInterval')\<rparr>)
         | None \<Rightarrow> Inr s))"

definition serviceUnregistered :: "string \<Rightarrow> YandexProvider \<Rightarrow> YandexProvider" where
  "serviceUnregistered service s =
     (let s1 = s\<lparr>m_watchedServices := AList.delete service (m_watchedServices s)\<rparr>;
          s2 = (if m_watchedServices s1 = [] then s1\<lparr>m_idleTimer := Started QuitIdleTime\<rparr>
                else s1)
      in stopPositioningIfNeeded s2)"

definition GetStatus :: "YandexProvider \<Rightarrow> Status" where
  "GetStatus s = m_status s"

text \<open>\<^verbatim>\<open>GetPosition\<close>: the return value and the five output parameters.\<close>

definition GetPosition ::
  "YandexProvider \<Rightarrow> PositionField set \<times> int \<times> double \<times> double \<times> double \<times> Accuracy" where
  "GetPosition s =
     (positionFields (m_currentLocation s),
      int_of_qint64 (cdiv (timestamp (m_currentLocation s)) 1000),
      latitude (m_currentLocation s), longitude (m_currentLocation s),
      altitude (m_currentLocation s), accuracy (m_currentLocation s))"

subsection \<open>Timers\<close>

text \<open>
  The timer whose id an event carries. The id of a stopped timer is 0, which no event
  carries: an event meets a branch only while that branch's timer is started.
\<close>

datatype TimerEvent = IdleTimer | FixLostTimer | RecalculatePositionTimer | OtherTimer

definition timerEvent :: "World \<Rightarrow> TimerEvent \<Rightarrow> YandexProvider \<Rightarrow> YandexProvider" where
  "timerEvent w event s =
     (if event = IdleTimer \<and> isActive (m_idleTimer s)
      then s\<lparr>m_idleTimer := Stopped, signals := signals s @ [Quit]\<rparr>
      else if event = FixLostTimer \<and> isActive (m_fixLostTimer s)
      then setStatus StatusAcquiring (s\<lparr>m_fixLostTimer := Stopped\<rparr>)
      else if event = RecalculatePositionTimer \<and> isActive (m_recalculatePositionTimer s)
      then
        let currTimestamp = clock_timerEvent w
        in if \<not> m_positioningEnabled s then s
           else if timestamp (m_currentLocation s) = 0
                   \<or> currTimestamp - timestamp (m_currentLocation s) > uint ReuseInterval
                   \<or> m_signalUpdateCell s \<or> m_signalUpdateWlan s
           then calculatePositionAndEmitLocation w
                  (s\<lparr>m_signalUpdateCell := False, m_signalUpdateWlan := False\<rparr>)
           else setLocation (m_currentLocation s) s
      else s)"

subsection \<open>Settings\<close>

definition settingsValue :: "bool option \<Rightarrow> bool \<Rightarrow> bool" where
  "settingsValue v defaultValue = (case v of None \<Rightarrow> defaultValue | Some b \<Rightarrow> b)"

text \<open>
  \<^verbatim>\<open>getEnabled\<close>; the result is (positioningEnabled, cellPositioningEnabled,
  onlinePositioningEnabled, onlineDataAllowed, cellDataAllowed, wlanDataAllowed).
\<close>

definition getEnabled :: "Settings \<Rightarrow> bool \<times> bool \<times> bool \<times> bool \<times> bool \<times> bool" where
  "getEnabled conf =
     (let positioningEnabled = settingsValue (location_enabled conf) False;
          cellPositioningEnabled = (positioningEnabled
            \<and> (settingsValue (location_mls_enabled conf) False
               \<or> settingsValue (location_cell_id_positioning_enabled conf) False));
          onlinePositioningEnabled = (cellPositioningEnabled
            \<and> settingsValue (location_mls_online_enabled conf) False)
      in (positioningEnabled, cellPositioningEnabled, onlinePositioningEnabled,
          settingsValue (location_allowed_data_sources_online conf) True,
          settingsValue (location_allowed_data_sources_cell_data conf) True,
          settingsValue (location_allowed_data_sources_wlan_data conf) True))"

text \<open>
  The three blocks of \<^verbatim>\<open>updatePositioningEnabled\<close> that take over the data source
  restrictions (lines 565 to 567, 574 to 586, 593 to 595); the second one creates or
  deletes the cell watcher.
\<close>

definition updateOnlineDataAllowed :: "bool \<Rightarrow> YandexProvider \<Rightarrow> YandexProvider" where
  "updateOnlineDataAllowed onlineDataAllowed s =
     (if m_onlineDataAllowed s \<noteq> onlineDataAllowed
      then s\<lparr>m_onlineDataAllowed := onlineDataAllowed\<rparr> else s)"

definition updateCellDataAllowed :: "bool \<Rightarrow> YandexProvider \<Rightarrow> YandexProvider" where
  "updateCellDataAllowed cellDataAllowed s =
     (if m_cellDataAllowed s \<noteq> cellDataAllowed
      then
        let s1 = s\<lparr>m_cellDataAllowed := cellDataAllowed\<rparr>
        in if \<not> m_cellWatcher s1 \<and> m_cellDataAllowed s1
           then s1\<lparr>m_cellWatcher := True\<rparr>
           else if m_cellWatcher s1 \<and> \<not> m_cellDataAllowed s1
           then s1\<lparr>m_cellWatcher := False\<rparr>
           else s1
      else s)"

definition updateWlanDataAllowed :: "bool \<Rightarrow> YandexProvider \<Rightarrow> YandexProvider" where
  "updateWlanDataAllowed wlanDataAllowed s =
     (if m_wlanDataAllowed s \<noteq> wlanDataAllowed
      then s\<lparr>m_wlanDataAllowed := wlanDataAllowed\<rparr> else s)"

definition updatePositioningEnabled :: "World \<Rightarrow> YandexProvider \<Rightarrow> YandexProvider" where
  "updatePositioningEnabled w s =
     (let (positioningEnabled, cellPositioningEnabled, onlinePositioningEnabled,
           onlineDataAllowed, cellDataAllowed, wlanDataAllowed) = getEnabled (location_conf w);
          s1 = s\<lparr>m_onlinePositioningEnabled := onlinePositioningEnabled\<rparr>;
          s2 = updateOnlineDataAllowed onlineDataAllowed s1;
          s3 = updateCellDataAllowed cellDataAllowed s2;
          s4 = updateWlanDataAllowed wlanDataAllowed s3;
          previous = m_positioningEnabled s4;
          enabled = (positioningEnabled \<and> cellPositioningEnabled)
      in if previous = enabled then s4
         else if enabled
         then startPositioningIfNeeded w (s4\<lparr>m_positioningEnabled := True\<rparr>)
         else stopPositioningIfNeeded
                (setLocation Location_default (s4\<lparr>m_positioningEnabled := False\<rparr>)))"

definition cellularNetworkRegistrationChanged :: "YandexProvider \<Rightarrow> YandexProvider" where
  "cellularNetworkRegistrationChanged s = s\<lparr>m_signalUpdateCell := True\<rparr>"

subsection \<open>The constructor and the events of a run\<close>

definition YandexProvider_members :: YandexProvider where
  "YandexProvider_members =
     \<lparr>m_positioningEnabled = False, m_cellDataAllowed = False, m_positioningStarted = False,
      m_status = StatusUnavailable, m_mlsdbOnlineLocator = False,
      m_onlinePositioningEnabled = False, m_onlineDataAllowed = False,
      m_wlanDataAllowed = False, m_cellWatcher = False, m_signalUpdateCell = False,
      m_signalUpdateWlan = False, m_currentLocation = Location_default,
      m_lastLocation = Location_default, m_watchedServices = [], m_previousQuery = 0,
      m_uniqueCellIdToLocation = Map.empty, m_knownCellIdsWithUnknownLocations = {},
      m_idleTimer = Stopped, m_fixLostTimer = Stopped, m_recalculatePositionTimer = Stopped,
      signals = [], lookups = []\<rparr>"

definition YandexProvider_new :: "World \<Rightarrow> YandexProvider" where
  "YandexProvider_new w =
     (let s1 = updatePositioningEnabled w YandexProvider_members;
          s2 = (if m_watchedServices s1 = [] then s1\<lparr>m_idleTimer := Started QuitIdleTime\<rparr>
                else s1)
      in if m_positioningEnabled s2 then cellularNetworkRegistrationChanged s2 else s2)"

text \<open>
  Everything that can call into the provider once it is constructed: a D-Bus method call
  (the flag is \<^verbatim>\<open>calledFromDBus()\<close>, the string the calling service), a timer event, a signal
  of the online locator, of the cell watcher, of the settings watcher or of the D-Bus
  service watcher.
\<close>

datatype Event =
  CallAddReference bool string
| CallRemoveReference bool string
| CallSetOptions bool string "string \<rightharpoonup> quint32"
| Timer TimerEvent
| LocationFound double double double
| LocationError
| WlanChanged
| CellsChanged
| SettingsChanged
| ServiceUnregistered string

fun handle :: "World \<Rightarrow> Event \<Rightarrow> YandexProvider \<Rightarrow> error + YandexProvider" where
  "handle w (CallAddReference calledFromDBus service) s = AddReference w calledFromDBus service s"
| "handle w (CallRemoveReference calledFromDBus service) s = RemoveReference calledFromDBus service s"
| "handle w (CallSetOptions calledFromDBus service options) s =
     SetOptions calledFromDBus service options s"
| "handle w (Timer event) s = Inr (timerEvent w event s)"
| "handle w (LocationFound latitude' longitude' accuracy') s =
     Inr (onlineLocationFound w latitude' longitude' accuracy' s)"
| "handle w LocationError s = Inr (onlineLocationError w s)"
| "handle w WlanChanged s = Inr (onlineWlanChanged s)"
| "handle w CellsChanged s = Inr (cellularNetworkRegistrationChanged s)"
| "handle w SettingsChanged s = Inr (updatePositioningEnabled w s)"
| "handle w (ServiceUnregistered service) s = Inr (serviceUnregistered service s)"

text \<open>The states of a run: the constructed provider, and what an event makes of a state.\<close>

inductive reachable :: "YandexProvider \<Rightarrow> bool" where
  reachable_new: "reachable (YandexProvider_new w)"
| reachable_handle: "reachable s \<Longrightarrow> handle w event s = Inr s' \<Longrightarrow> reachable s'"

subsection \<open>Auxiliary definitions for the theorems\<close>

text \<open>The intervals of a list of entries that the loop takes into account.\<close>

definition countedIntervals :: "ServiceData list \<Rightarrow> quint32 set" where
  "countedIntervals ds = updateInterval ` {d \<in> set ds. 0 < referenceCount d \<and> updateInterval d \<noteq> 0}"

text \<open>Three subscribers that request 0, 5000 and 50000 milliseconds.\<close>

definition threeSubscribers :: WatchedServices where
  "threeSubscribers =
     [(''org.a'', \<lparr>referenceCount = 1, updateInterval = 0\<rparr>),
      (''org.b'', \<lparr>referenceCount = 1, updateInterval = 5000\<rparr>),
      (''org.c'', \<lparr>referenceCount = 2, updateInterval = 50000\<rparr>)]"

text \<open>A GSM cell of network 1 and location area 7; a world that sees five of them, with
  positioning enabled in its settings.\<close>

definition exampleCell :: "int \<Rightarrow> int \<Rightarrow> int \<Rightarrow> QOfonoExtCell" where
  "exampleCell mcc' cid' strength =
     \<lparr>cell_type = GSM, cell_mcc = mcc', cell_mnc = 1, cell_lac = 7, cell_cid = cid',
      cell_ci = InvalidValue, cell_tac = InvalidValue, cell_signalStrength = strength\<rparr>"

definition exampleSettings :: Settings where
  "exampleSettings =
     \<lparr>location_enabled = Some True, location_mls_enabled = Some True,
      location_mls_online_enabled = None, location_cell_id_positioning_enabled = None,
      location_allowed_data_sources_online = None,
      location_allowed_data_sources_cell_data = None,
      location_allowed_data_sources_wlan_data = None\<rparr>"

definition cell11 :: MlsdbUniqueCellId where
  "cell11 = MlsdbUniqueCellId MLSDB_CELL_TYPE_GSM 11 7 250 1"

definition cell13 :: MlsdbUniqueCellId where
  "cell13 = MlsdbUniqueCellId MLSDB_CELL_TYPE_GSM 13 7 250 1"

text \<open>A data file of bucket 7 that knows cell 11, and no other cell.\<close>

definition exampleFile :: MlsdbFile where
  "exampleFile =
     \<lparr>fname = ''/usr/share/geoclue-provider-mlsdb/ru/7/mlsdb.data'', magic = 0xc710cdb,
      version = 3, perLcCellIdToLocations = [cell11 \<mapsto> \<lparr>lat = Fin 55, lon = Fin 37\<rparr>]\<rparr>"

definition exampleFiles :: "MlsdbFile list" where
  "exampleFiles = [exampleFile]"

definition exampleWorld :: World where
  "exampleWorld =
     \<lparr>clock_timerEvent = 1000000, clock_timestamp = 1000000, clock_arbitration = 1000000,
      watcher_cells = [exampleCell 250 11 20, exampleCell 250 11 30, exampleCell 0 12 5,
                       exampleCell 250 0 5, exampleCell 250 13 9],
      mlsdb_files = exampleFiles,
      location_conf = exampleSettings,
      locator_buildLocationQuery = (\<lambda>cells q. q), locator_findLocation = (\<lambda>q. False)\<rparr>"

text \<open>The three fields that the first loop of \<^verbatim>\<open>updateLocationFromCells\<close> reads and writes.\<close>

definition caches ::
  "YandexProvider \<Rightarrow> (MlsdbUniqueCellId \<rightharpoonup> MlsdbCoords) \<times> MlsdbUniqueCellId set \<times> MlsdbUniqueCellId list" where
  "caches s = (m_uniqueCellIdToLocation s, m_knownCellIdsWithUnknownLocations s, lookups s)"

text \<open>The caches of \<open>s'\<close> are those of \<open>s\<close> after a run of that loop.\<close>

definition cachesAfterLoop :: "YandexProvider \<Rightarrow> YandexProvider \<Rightarrow> bool" where
  "cachesAfterLoop s s' =
     (\<exists>files cells cellLocations total.
        caches s' = caches (fst (resolveCells files cells s cellLocations total)))"

text \<open>
  The caches are filled by lookups only, one for each cell: the looked-up cells are the
  cached ones, none was looked up twice, and no cell is in both caches.
\<close>

definition cacheInv ::
  "(MlsdbUniqueCellId \<rightharpoonup> MlsdbCoords) \<times> MlsdbUniqueCellId set \<times> MlsdbUniqueCellId list \<Rightarrow> bool" where
  "cacheInv c =
     (case c of (positive, negative, looked) \<Rightarrow>
        distinct looked \<and> set looked = dom positive \<union> negative \<and> dom positive \<inter> negative = {})"

text \<open>A cell that one of the caches knows.\<close>

definition cached :: "MlsdbUniqueCellId \<Rightarrow> YandexProvider \<Rightarrow> bool" where
  "cached k s =
     (m_uniqueCellIdToLocation s k \<noteq> None \<or> k \<in> m_knownCellIdsWithUnknownLocations s)"

text \<open>A provider that is allowed to use cell data.\<close>

definition cellDataState :: YandexProvider where
  "cellDataState = YandexProvider_members\<lparr>m_cellDataAllowed := True\<rparr>"

text \<open>No cell is in both caches.\<close>

definition cachesDisjoint :: "YandexProvider \<Rightarrow> bool" where
  "cachesDisjoint s =
     (dom (m_uniqueCellIdToLocation s) \<inter> m_knownCellIdsWithUnknownLocations s = {})"

text \<open>
  From \<open>s\<close> to \<open>s'\<close> a cached cell has kept its entry, and has not been looked up again.
\<close>

definition keepsCell :: "MlsdbUniqueCellId \<Rightarrow> YandexProvider \<Rightarrow> YandexProvider \<Rightarrow> bool" where
  "keepsCell k s s' =
     (cached k s' \<and> m_uniqueCellIdToLocation s' k = m_uniqueCellIdToLocation s k
      \<and> count_list (lookups s') k = count_list (lookups s) k)"

text \<open>The provider of \<open>exampleWorld\<close> after its first subscriber has called \<^verbatim>\<open>AddReference\<close>.\<close>

definition startedProvider :: YandexProvider where
  "startedProvider =
     (case AddReference exampleWorld True ''org.app'' (YandexProvider_new exampleWorld) of
        Inr s \<Rightarrow> s
      | Inl e \<Rightarrow> YandexProvider_new exampleWorld)"

text \<open>
  The observations of a list that the first loop has resolved, the signal strength of an
  observation as a number, and the coordinates that \<open>cellLocations\<close> holds for an
  observation.
\<close>

definition resolvedCells :: "CellLocations \<Rightarrow> CellPositioningData list \<Rightarrow> CellPositioningData list" where
  "resolvedCells cellLocations cells =
     filter (\<lambda>cell. map_of cellLocations (uniqueCellId cell) \<noteq> None) cells"

definition strength :: "CellPositioningData \<Rightarrow> real" where
  "strength cell = real (unat (signalStrength cell))"






text \<open>
  Three cells at (0, 0), (0, 10) and (10, 0) in a data file, seen with the same signal
  strength; the same three cells seen without signal strength.
\<close>

definition cellA :: MlsdbUniqueCellId where
  "cellA = MlsdbUniqueCellId MLSDB_CELL_TYPE_LTE 21 7 250 1"

definition cellB :: MlsdbUniqueCellId where
  "cellB = MlsdbUniqueCellId MLSDB_CELL_TYPE_LTE 22 7 250 1"

definition cellC :: MlsdbUniqueCellId where
  "cellC = MlsdbUniqueCellId MLSDB_CELL_TYPE_LTE 23 7 250 1"

definition triangleFiles :: "MlsdbFile list" where
  "triangleFiles =
     [\<lparr>fname = ''/usr/share/geoclue-provider-mlsdb/ru/7/mlsdb.data'', magic = 0xc710cdb,
       version = 3,
       perLcCellIdToLocations =
         [cellA \<mapsto> \<lparr>lat = Fin 0, lon = Fin 0\<rparr>, cellB \<mapsto> \<lparr>lat = Fin 0, lon = Fin 10\<rparr>,
          cellC \<mapsto> \<lparr>lat = Fin 10, lon = Fin 0\<rparr>]\<rparr>]"

definition triangleWorld :: World where
  "triangleWorld = exampleWorld\<lparr>mlsdb_files := triangleFiles\<rparr>"

definition triangleCells :: "quint32 \<Rightarrow> CellPositioningData list" where
  "triangleCells signalStrength' =
     [\<lparr>uniqueCellId = cellA, signalStrength = signalStrength'\<rparr>,
      \<lparr>uniqueCellId = cellB, signalStrength = signalStrength'\<rparr>,
      \<lparr>uniqueCellId = cellC, signalStrength = signalStrength'\<rparr>]"

text \<open>What the first loop makes of the three cells: the state and \<open>cellLocations\<close>.\<close>

definition triangleResolved :: YandexProvider where
  "triangleResolved =
     YandexProvider_members
       \<lparr>m_uniqueCellIdToLocation :=
          [cellA \<mapsto> \<lparr>lat = Fin 0, lon = Fin 0\<rparr>, cellB \<mapsto> \<lparr>lat = Fin 0, lon = Fin 10\<rparr>,
           cellC \<mapsto> \<lparr>lat = Fin 10, lon = Fin 0\<rparr>],
        lookups := [cellA, cellB, cellC]\<rparr>"

definition triangleLocations :: CellLocations where
  "triangleLocations =
     [(cellA, \<lparr>lat = Fin 0, lon = Fin 0\<rparr>), (cellB, \<lparr>lat = Fin 0, lon = Fin 10\<rparr>),
      (cellC, \<lparr>lat = Fin 10, lon = Fin 0\<rparr>)]"

text \<open>A provider that holds a fix of accuracy 2500 m, taken when the clock read 880000.\<close>

definition heldFix :: YandexProvider where
  "heldFix =
     YandexProvider_members
       \<lparr>m_status := StatusAvailable,
        m_currentLocation :=
          \<lparr>timestamp = 880000, latitude = Fin 1, longitude = Fin 2, altitude = NaN,
           accuracy = \<lparr>horizontal = Fin 2500, vertical = NaN\<rparr>\<rparr>\<rparr>"

text \<open>A provider that holds a fix of accuracy 100 m, taken when the clock read 990000.\<close>

definition freshFix :: YandexProvider where
  "freshFix =
     YandexProvider_members
       \<lparr>m_status := StatusAvailable,
        m_currentLocation :=
          \<lparr>timestamp = 990000, latitude = Fin 1, longitude = Fin 2, altitude = NaN,
           accuracy = \<lparr>horizontal = Fin 100, vertical = NaN\<rparr>\<rparr>,
        m_fixLostTimer := Started FixTimeout\<rparr>"

text \<open>The status and the fix-lost timer, and how they go together.\<close>

definition fixState :: "YandexProvider \<Rightarrow> Status \<times> QBasicTimer" where
  "fixState s = (m_status s, m_fixLostTimer s)"

definition statusInv :: "YandexProvider \<Rightarrow> bool" where
  "statusInv s =
     ((m_status s = StatusAvailable \<longrightarrow> m_fixLostTimer s = Started FixTimeout)
      \<and> (m_status s = StatusAcquiring \<longrightarrow> m_fixLostTimer s = Stopped))"

text \<open>A subscriber table with one subscriber, and a provider that has it.\<close>

definition oneSubscriber :: YandexProvider where
  "oneSubscriber =
     YandexProvider_members
       \<lparr>m_watchedServices :=
          [(''org.app'', \<lparr>referenceCount = 1, updateInterval = 0\<rparr>),
           (''org.map'', \<lparr>referenceCount = 1, updateInterval = 60000\<rparr>)]\<rparr>"

definition intervalOption :: "quint32 \<Rightarrow> (string \<rightharpoonup> quint32)" where
  "intervalOption interval = [''UpdateInterval'' \<mapsto> interval]"

text \<open>The pointer to the cell watcher is set exactly when cell data is allowed.\<close>

definition cellWatcherInv :: "YandexProvider \<Rightarrow> bool" where
  "cellWatcherInv s = (m_cellWatcher s = m_cellDataAllowed s)"

text \<open>
  A run in which the provider loses one fix twice. The radio source reports three LTE
  cells, which the data file has at (0, 0), (0, 10) and (10, 0), when the first subscriber
  arrives; the subscriber asks for an interval of 40 s. Forty seconds later the source
  reports only the first of the three cells.
\<close>

definition lteCell :: "int \<Rightarrow> int \<Rightarrow> QOfonoExtCell" where
  "lteCell ci' strength' =
     \<lparr>cell_type = LTE, cell_mcc = 250, cell_mnc = 1, cell_lac = InvalidValue,
      cell_cid = InvalidValue, cell_ci = ci', cell_tac = 7, cell_signalStrength = strength'\<rparr>"

definition threeCellWorld :: World where
  "threeCellWorld =
     exampleWorld\<lparr>watcher_cells := [lteCell 21 15, lteCell 22 15, lteCell 23 15],
                   mlsdb_files := triangleFiles\<rparr>"

definition oneCellWorld :: World where
  "oneCellWorld =
     threeCellWorld\<lparr>clock_timerEvent := 1040000, clock_timestamp := 1040000,
                     clock_arbitration := 1040000, watcher_cells := [lteCell 21 15]\<rparr>"

definition subscribedProvider :: YandexProvider where
  "subscribedProvider =
     (case AddReference threeCellWorld True ''org.app'' (YandexProvider_new threeCellWorld) of
        Inr s \<Rightarrow> s
      | Inl e \<Rightarrow> YandexProvider_new threeCellWorld)"

definition trackedProvider :: YandexProvider where
  "trackedProvider =
     (case SetOptions True ''org.app'' (intervalOption 40000) subscribedProvider of
        Inr s \<Rightarrow> s
      | Inl e \<Rightarrow> subscribedProvider)"

text \<open>
  The fix-lost timer fires, then the recalculation timer (in the world of forty seconds
  later), then the fix-lost timer again.
\<close>

definition fixLostOnce :: YandexProvider where
  "fixLostOnce = timerEvent oneCellWorld FixLostTimer trackedProvider"

definition fixReemitted :: YandexProvider where
  "fixReemitted = timerEvent oneCellWorld RecalculatePositionTimer fixLostOnce"

definition fixLostTwice :: YandexProvider where
  "fixLostTwice = timerEvent oneCellWorld FixLostTimer fixReemitted"

text \<open>The fix that the provider computes from the three cells.\<close>

definition triangleFix :: Location where
  "triangleFix =
     \<lparr>timestamp = 1000000, latitude = Fin (3752999689475413 / 2 ^ 50),
      longitude = Fin (3752999689475413 / 2 ^ 50), altitude = NaN,
      accuracy = \<lparr>horizontal = Fin 7000, vertical = NaN\<rparr>\<rparr>"

text \<open>
  A provider with a fresh fix whose recalculation timer runs and which has seen no change
  of the cells or of the wireless networks since the last recalculation.
\<close>

definition reuseState :: YandexProvider where
  "reuseState =
     freshFix\<lparr>m_positioningEnabled := True, m_recalculatePositionTimer := Started 10000\<rparr>"

text \<open>A provider with one subscriber, which has not asked for an interval.\<close>

definition soleSubscriber :: YandexProvider where
  "soleSubscriber =
     YandexProvider_members
       \<lparr>m_watchedServices := [(''org.app'', \<lparr>referenceCount = 1, updateInterval = 0\<rparr>)]\<rparr>"

text \<open>A world whose radio source reports one cell, without a country code.\<close>

definition invalidMccWorld :: World where
  "invalidMccWorld = exampleWorld\<lparr>watcher_cells := [exampleCell InvalidValue 11 20]\<rparr>"

text \<open>A world whose radio source reports no cell with a cell id and a country code.\<close>

definition noValidCellWorld :: World where
  "noValidCellWorld = exampleWorld\<lparr>watcher_cells := [exampleCell 0 12 5, exampleCell 250 0 5]\<rparr>"


section \<open>The update interval\<close>

lemma Min_insert_min:
  fixes a b :: "'a::linorder"
  assumes "finite S"
  shows "Min (insert (min a b) S) = Min (insert a (insert b S))"
proof (cases "S = {}")
  case True
  then show ?thesis by simp
next
  case False
  with assms show ?thesis by (simp add: min.assoc)
qed

lemma countedIntervals_Cons:
  "countedIntervals (d # ds) =
     (if 0 < referenceCount d \<and> updateInterval d \<noteq> 0 then insert (updateInterval d) (countedIntervals ds)
      else countedIntervals ds)"
  by (auto simp: countedIntervals_def)

lemma finite_countedIntervals: "finite (countedIntervals ds)"
  by (simp add: countedIntervals_def)

text \<open>The loop computes the minimum of its start value and the intervals it counts.\<close>

lemma minimumRequestedUpdateInterval_loop_Min:
  "minimumRequestedUpdateInterval_loop ds acc = Min (insert acc (countedIntervals ds))"
proof (induction ds arbitrary: acc)
  case Nil
  then show ?case by (simp add: countedIntervals_def)
next
  case (Cons d ds)
  show ?case
  proof (cases "0 < referenceCount d \<and> updateInterval d \<noteq> 0")
    case True
    then have "minimumRequestedUpdateInterval_loop (d # ds) acc
        = Min (insert (min acc (updateInterval d)) (countedIntervals ds))"
      using Cons.IH [of "min acc (updateInterval d)"] by simp
    also have "\<dots> = Min (insert acc (insert (updateInterval d) (countedIntervals ds)))"
      by (rule Min_insert_min) (rule finite_countedIntervals)
    finally show ?thesis using True by (simp add: countedIntervals_Cons)
  next
    case False
    then have "minimumRequestedUpdateInterval_loop (d # ds) acc = minimumRequestedUpdateInterval_loop ds acc"
      by auto
    moreover from False have "countedIntervals (d # ds) = countedIntervals ds"
      by (auto simp: countedIntervals_Cons)
    ultimately show ?thesis
      using Cons.IH [of acc] by simp
  qed
qed

lemma requestedIntervals_counted: "requestedIntervals watched = countedIntervals (map snd watched)"
  by (simp add: requestedIntervals_def countedIntervals_def)

lemma UINT_MAX_greatest: "x \<le> UINT_MAX"
proof -
  have eq: "UINT_MAX = - 1" by (simp add: UINT_MAX_def)
  show ?thesis unfolding eq by (rule word_n1_ge)
qed

text \<open>
  C7, as the code has it. \<^verbatim>\<open>minimumRequestedUpdateInterval\<close> is the minimum of the non-zero
  intervals requested by the subscribers with a positive reference count, raised to
  \<open>MinimumInterval\<close> (10000 ms); it is \<open>MinimumInterval\<close> when there is no such interval, and
  also when that minimum is \<^verbatim>\<open>UINT_MAX\<close>, the value with which the loop starts and which it
  takes for "no request". For the requests 0, 5000 and 50000 it is 10000.
\<close>

theorem minimumRequestedUpdateInterval_amended:
  "minimumRequestedUpdateInterval watched =
     (if requestedIntervals watched = {} \<or> Min (requestedIntervals watched) = UINT_MAX
      then MinimumInterval
      else max (Min (requestedIntervals watched)) MinimumInterval)
   \<and> minimumRequestedUpdateInterval threeSubscribers = 10000"
proof
  let ?S = "requestedIntervals watched"
  have loop: "minimumRequestedUpdateInterval_loop (map snd watched) UINT_MAX = Min (insert UINT_MAX ?S)"
    by (simp add: minimumRequestedUpdateInterval_loop_Min requestedIntervals_counted)
  have fin: "finite ?S"
    by (simp add: requestedIntervals_counted finite_countedIntervals)
  show "minimumRequestedUpdateInterval watched =
     (if ?S = {} \<or> Min ?S = UINT_MAX then MinimumInterval else max (Min ?S) MinimumInterval)"
  proof (cases "?S = {}")
    case True
    then show ?thesis
      by (simp add: minimumRequestedUpdateInterval_def loop)
  next
    case False
    with fin have "Min (insert UINT_MAX ?S) = min UINT_MAX (Min ?S)"
      by simp
    also have "\<dots> = Min ?S"
      by (simp add: min_def UINT_MAX_greatest antisym)
    finally show ?thesis using False
      by (simp add: minimumRequestedUpdateInterval_def loop)
  qed
  show "minimumRequestedUpdateInterval threeSubscribers = 10000"
    by (simp add: minimumRequestedUpdateInterval_def threeSubscribers_def UINT_MAX_def MinimumInterval_def)
qed

text \<open>
  C7 as the specification words it fails for a single subscriber that requests
  4294967295 ms: the minimum of the non-zero requests, floored at 10000, is 4294967295, and
  the code answers 10000.
\<close>

theorem minimumRequestedUpdateInterval_counterexample:
  "minimumRequestedUpdateInterval [(''org.a'', \<lparr>referenceCount = 1, updateInterval = 4294967295\<rparr>)] = 10000
   \<and> spec_effectiveInterval [(''org.a'', \<lparr>referenceCount = 1, updateInterval = 4294967295\<rparr>)] = 4294967295"
  by (simp add: minimumRequestedUpdateInterval_def spec_effectiveInterval_def UINT_MAX_def MinimumInterval_def)

section \<open>Rounding to binary64\<close>

text \<open>
  The exponent that \<open>floorlog2\<close> computes: \<open>2 ^ e \<le> x < 2 ^ (e + 1)\<close>, for a number from 1 on
  and for a positive number below 1, whose exponent is negative.
\<close>

lemma floorlog2_ge_1:
  assumes "1 \<le> x"
  shows "0 \<le> floorlog2 x" "2 ^ nat (floorlog2 x) \<le> x" "x < 2 ^ nat (floorlog2 x + 1)"
proof -
  from assms have p: "0 < \<lfloor>x\<rfloor>"
    by linarith
  from assms have e: "floorlog2 x = bitlen \<lfloor>x\<rfloor> - 1"
    by (simp add: floorlog2_def)
  from p have b1: "1 \<le> bitlen \<lfloor>x\<rfloor>"
    using bitlen_eq_zero_iff [of "\<lfloor>x\<rfloor>"] bitlen_nonneg [of "\<lfloor>x\<rfloor>"] by linarith
  then show "0 \<le> floorlog2 x"
    by (simp add: e)
  from bitlen_bounds [OF p]
  have lo: "2 ^ nat (bitlen \<lfloor>x\<rfloor> - 1) \<le> \<lfloor>x\<rfloor>" and hi: "\<lfloor>x\<rfloor> < 2 ^ nat (bitlen \<lfloor>x\<rfloor>)"
    by simp_all
  from lo have "real_of_int (2 ^ nat (bitlen \<lfloor>x\<rfloor> - 1)) \<le> real_of_int \<lfloor>x\<rfloor>"
    by (simp only: of_int_le_iff)
  also have "\<dots> \<le> x"
    by linarith
  finally show "2 ^ nat (floorlog2 x) \<le> x"
    by (simp add: e)
  from hi have "\<lfloor>x\<rfloor> + 1 \<le> 2 ^ nat (bitlen \<lfloor>x\<rfloor>)"
    by simp
  then have "real_of_int (\<lfloor>x\<rfloor> + 1) \<le> real_of_int (2 ^ nat (bitlen \<lfloor>x\<rfloor>))"
    by (simp only: of_int_le_iff)
  then have "real_of_int \<lfloor>x\<rfloor> + 1 \<le> 2 ^ nat (bitlen \<lfloor>x\<rfloor>)"
    by simp
  moreover have "x < real_of_int \<lfloor>x\<rfloor> + 1"
    by linarith
  ultimately have "x < 2 ^ nat (bitlen \<lfloor>x\<rfloor>)"
    by linarith
  then show "x < 2 ^ nat (floorlog2 x + 1)"
    by (simp add: e)
qed

lemma floorlog2_less_1:
  assumes "0 < x" "x < 1"
  shows "floorlog2 x < 0" "1 / 2 ^ nat (- floorlog2 x) \<le> x" "x < 1 / 2 ^ nat (- floorlog2 x - 1)"
proof -
  let ?m = "\<lceil>1 / x\<rceil> - 1"
  from assms have y: "1 < 1 / x"
    by simp
  then have p: "0 < ?m"
    by linarith
  from assms have e: "floorlog2 x = - bitlen ?m"
    by (simp add: floorlog2_def)
  from p have b1: "1 \<le> bitlen ?m"
    using bitlen_eq_zero_iff [of ?m] bitlen_nonneg [of ?m] by linarith
  then show "floorlog2 x < 0"
    by (simp add: e)
  from bitlen_bounds [OF p]
  have lo: "2 ^ nat (bitlen ?m - 1) \<le> ?m" and hi: "?m < 2 ^ nat (bitlen ?m)"
    by simp_all
  have my: "real_of_int ?m < 1 / x" "1 / x \<le> real_of_int (?m + 1)"
    by linarith+
  from hi have "?m + 1 \<le> 2 ^ nat (bitlen ?m)"
    by simp
  then have "real_of_int (?m + 1) \<le> real_of_int (2 ^ nat (bitlen ?m))"
    by (simp only: of_int_le_iff)
  then have "real_of_int (?m + 1) \<le> 2 ^ nat (bitlen ?m)"
    by simp
  with my(2) have "1 / x \<le> 2 ^ nat (bitlen ?m)"
    by linarith
  with assms(1) have "1 \<le> 2 ^ nat (bitlen ?m) * x"
    by (simp add: field_simps)
  then show "1 / 2 ^ nat (- floorlog2 x) \<le> x"
    by (simp add: e field_simps)
  from lo have "real_of_int (2 ^ nat (bitlen ?m - 1)) \<le> real_of_int ?m"
    by (simp only: of_int_le_iff)
  then have "2 ^ nat (bitlen ?m - 1) \<le> real_of_int ?m"
    by simp
  with my(1) have "2 ^ nat (bitlen ?m - 1) < 1 / x"
    by linarith
  with assms(1) have "2 ^ nat (bitlen ?m - 1) * x < 1"
    by (simp add: field_simps)
  then show "x < 1 / 2 ^ nat (- floorlog2 x - 1)"
    by (simp add: e field_simps)
qed

text \<open>An integer of magnitude below \<open>2 ^ 53\<close> is a binary64 number: rounding leaves it as it is.\<close>

lemma roundHalfEven_of_int [simp]: "roundHalfEven (of_int n) = n"
  by (simp add: roundHalfEven_def)

lemma floorlog2_of_int:
  assumes "0 < n" "n < 2 ^ 53"
  shows "0 \<le> floorlog2 (of_int n)" "floorlog2 (of_int n) \<le> 52"
proof -
  from assms have n1: "(1::real) \<le> of_int n" by simp
  have e: "floorlog2 (of_int n) = bitlen n - 1"
    using n1 by (simp add: floorlog2_def)
  have b: "2 ^ nat (bitlen n - 1) \<le> n" "0 < bitlen n"
    using bitlen_bounds [OF assms(1)] assms(1) by (auto simp: bitlen_eq_zero_iff  intro: le_neq_trans bitlen_nonneg)
  show "0 \<le> floorlog2 (of_int n)" using b e by simp
  have "(2::int) ^ nat (bitlen n - 1) < 2 ^ 53" using b(1) assms(2) by linarith
  hence "nat (bitlen n - 1) < 53" by (rule power_less_imp_less_exp [rotated]) simp
  thus "floorlog2 (of_int n) \<le> 52" using e by simp
qed

lemma round64_of_int:
  assumes "\<bar>n\<bar> < 2 ^ 53"
  shows "round64 (of_int n) = Fin (of_int n)"
proof (cases "n = 0")
  case True
  then show ?thesis by (simp add: round64_def)
next
  case False
  hence pos: "0 < \<bar>n\<bar>" by simp
  let ?e = "floorlog2 (of_int \<bar>n\<bar>)"
  have e: "0 \<le> ?e" "?e \<le> 52" using floorlog2_of_int [OF pos assms] by auto
  have m: "max ?e (- 1022) = ?e" using e by simp
  have abs: "\<bar>real_of_int n\<bar> = of_int \<bar>n\<bar>" by simp
  have r: "roundHalfEven (real_of_int \<bar>n\<bar> * 2 ^ nat (52 - ?e)) = \<bar>n\<bar> * 2 ^ nat (52 - ?e)"
    using roundHalfEven_of_int [of "\<bar>n\<bar> * 2 ^ nat (52 - ?e)"] by simp
  have y: "real_of_int (\<bar>n\<bar> * 2 ^ nat (52 - ?e)) / 2 ^ nat (52 - ?e) = of_int \<bar>n\<bar>"
    by simp
  have lt: "real_of_int \<bar>n\<bar> < 2 ^ 1024"
  proof -
    have "real_of_int \<bar>n\<bar> < 2 ^ 53" using assms by (metis of_int_less_numeral_power_cancel_iff)
    also have "(2::real) ^ 53 \<le> 2 ^ 1024" by (rule power_increasing) auto
    finally show ?thesis .
  qed
  have s: "sgn (real_of_int n) * real_of_int \<bar>n\<bar> = real_of_int n"
    by (simp add: sgn_if)
  show ?thesis
    unfolding round64_def abs Let_def m using False e lt s
    by (simp only: r y) (simp add: not_le)
qed


lemma round64_of_nat: "k < 2 ^ 53 \<Longrightarrow> round64 (real k) = Fin (real k)"
  using round64_of_int [of "int k"] by simp





lemma round64_0 [simp]: "round64 0 = Fin 0"
  by (simp add: round64_def)

lemma round64_1 [simp]: "round64 1 = Fin 1"
  using round64_of_int [of 1] by simp

lemma round64_numeral [simp]:
  "numeral k < (2::int) ^ 53 \<Longrightarrow> round64 (numeral k) = Fin (numeral k)"
  using round64_of_int [of "numeral k"] by simp

text \<open>The sum of the signal strengths is exact as long as it stays below \<open>2 ^ 53\<close>.\<close>

lemma dmul_one_quint32: "dmul (Fin 1) (double_of_quint32 n) = Fin (real (unat n))"
proof -
  have "unat n < 2 ^ 32"
    using unsigned_less [of n] by simp
  also have "(2::nat) ^ 32 < 2 ^ 53"
    by simp
  finally have "round64 (real (unat n)) = Fin (real (unat n))"
    by (rule round64_of_nat)
  then show ?thesis
    unfolding double_of_quint32_def dmul.simps by (simp only: mult_1)
qed

lemma dadd_nat: "a + b < 2 ^ 53 \<Longrightarrow> dadd (Fin (real a)) (Fin (real b)) = Fin (real (a + b))"
  using round64_of_nat [of "a + b"] by simp





section \<open>The caches of cell locations\<close>

text \<open>Only the first loop of \<^verbatim>\<open>updateLocationFromCells\<close> touches the caches.\<close>

lemma caches_update [simp]:
  "caches (s\<lparr>m_positioningEnabled := b\<rparr>) = caches s"
  "caches (s\<lparr>m_cellDataAllowed := b\<rparr>) = caches s"
  "caches (s\<lparr>m_positioningStarted := b\<rparr>) = caches s"
  "caches (s\<lparr>m_status := st\<rparr>) = caches s"
  "caches (s\<lparr>m_mlsdbOnlineLocator := b\<rparr>) = caches s"
  "caches (s\<lparr>m_onlinePositioningEnabled := b\<rparr>) = caches s"
  "caches (s\<lparr>m_onlineDataAllowed := b\<rparr>) = caches s"
  "caches (s\<lparr>m_wlanDataAllowed := b\<rparr>) = caches s"
  "caches (s\<lparr>m_cellWatcher := b\<rparr>) = caches s"
  "caches (s\<lparr>m_signalUpdateCell := b\<rparr>) = caches s"
  "caches (s\<lparr>m_signalUpdateWlan := b\<rparr>) = caches s"
  "caches (s\<lparr>m_currentLocation := l\<rparr>) = caches s"
  "caches (s\<lparr>m_lastLocation := l\<rparr>) = caches s"
  "caches (s\<lparr>m_watchedServices := ws\<rparr>) = caches s"
  "caches (s\<lparr>m_previousQuery := q\<rparr>) = caches s"
  "caches (s\<lparr>m_idleTimer := t\<rparr>) = caches s"
  "caches (s\<lparr>m_fixLostTimer := t\<rparr>) = caches s"
  "caches (s\<lparr>m_recalculatePositionTimer := t\<rparr>) = caches s"
  "caches (s\<lparr>signals := sg\<rparr>) = caches s"
  by (simp_all add: caches_def)

lemma caches_setStatus [simp]: "caches (setStatus st s) = caches s"
  by (simp add: setStatus_def)

lemma caches_emitLocationChanged [simp]: "caches (emitLocationChanged s) = caches s"
  by (simp add: emitLocationChanged_def)

lemma caches_setLocation [simp]: "caches (setLocation l s) = caches s"
  by (simp add: setLocation_def Let_def)

lemma caches_stopPositioningIfNeeded [simp]: "caches (stopPositioningIfNeeded s) = caches s"
  by (simp add: stopPositioningIfNeeded_def)

lemma caches_updateOnlineDataAllowed [simp]: "caches (updateOnlineDataAllowed v s) = caches s"
  by (simp add: updateOnlineDataAllowed_def)

lemma caches_updateCellDataAllowed [simp]: "caches (updateCellDataAllowed v s) = caches s"
  by (simp add: updateCellDataAllowed_def Let_def)

lemma caches_updateWlanDataAllowed [simp]: "caches (updateWlanDataAllowed v s) = caches s"
  by (simp add: updateWlanDataAllowed_def)

text \<open>The loop reads and writes the caches only.\<close>

lemma resolveCell_caches:
  assumes "caches s1 = caches s"
  shows "fst (resolveCell files k s1) = fst (resolveCell files k s)
     \<and> caches (snd (resolveCell files k s1)) = caches (snd (resolveCell files k s))"
  using assms
  by (auto simp: resolveCell_def caches_def split: option.splits)

lemma resolveCells_caches:
  "caches s1 = caches s \<Longrightarrow>
   caches (fst (resolveCells files cells s1 cl t)) = caches (fst (resolveCells files cells s cl t))"
proof (induction cells arbitrary: s1 s cl t)
  case Nil
  then show ?case by simp
next
  case (Cons cell cells)
  obtain r1 s1' where r1: "resolveCell files (uniqueCellId cell) s1 = (r1, s1')"
    by (cases "resolveCell files (uniqueCellId cell) s1")
  obtain r s' where r: "resolveCell files (uniqueCellId cell) s = (r, s')"
    by (cases "resolveCell files (uniqueCellId cell) s")
  from resolveCell_caches [OF Cons.prems, of files "uniqueCellId cell"] r1 r
  have eq: "r1 = r" "caches s1' = caches s'"
    by simp_all
  show ?case
  proof (cases r)
    case None
    with r1 r eq Cons.IH [OF eq(2)] show ?thesis by simp
  next
    case (Some cc)
    with r1 r eq Cons.IH [OF eq(2)] show ?thesis by simp
  qed
qed

lemma cachesAfterLoop_same: "caches s' = caches s \<Longrightarrow> cachesAfterLoop s s'"
proof -
  assume "caches s' = caches s"
  then have "caches s' = caches (fst (resolveCells [] [] s [] NaN))" by simp
  then show ?thesis unfolding cachesAfterLoop_def by blast
qed

lemma cachesAfterLoop_pre:
  assumes "caches s1 = caches s" "cachesAfterLoop s1 s'"
  shows "cachesAfterLoop s s'"
proof -
  from assms(2) obtain files cells cl t
    where "caches s' = caches (fst (resolveCells files cells s1 cl t))"
    unfolding cachesAfterLoop_def by blast
  with resolveCells_caches [OF assms(1)] have "caches s' = caches (fst (resolveCells files cells s cl t))"
    by simp
  then show ?thesis unfolding cachesAfterLoop_def by blast
qed

lemma cachesAfterLoop_post:
  assumes "cachesAfterLoop s s1" "caches s' = caches s1"
  shows "cachesAfterLoop s s'"
  using assms unfolding cachesAfterLoop_def by auto

lemma caches_updateLocationFromCells:
  "caches (updateLocationFromCells w cells s)
     = caches (fst (resolveCells (mlsdb_files w) cells s [] (Fin 0)))"
proof -
  obtain s' cl t where r: "resolveCells (mlsdb_files w) cells s [] (Fin 0) = (s', cl, t)"
    by (cases "resolveCells (mlsdb_files w) cells s [] (Fin 0)")
  then have "caches (updateLocationFromCells w cells s) = caches s'"
    by (simp add: updateLocationFromCells_def Let_def)
  with r show ?thesis by simp
qed

lemma cachesAfterLoop_updateLocationFromCells:
  assumes "caches s1 = caches s"
  shows "cachesAfterLoop s (updateLocationFromCells w cells s1)"
proof -
  have "cachesAfterLoop s1 (updateLocationFromCells w cells s1)"
    unfolding cachesAfterLoop_def using caches_updateLocationFromCells by blast
  with assms show ?thesis by (rule cachesAfterLoop_pre)
qed

lemma cachesAfterLoop_calculatePositionAndEmitLocation:
  assumes "caches s1 = caches s"
  shows "cachesAfterLoop s (calculatePositionAndEmitLocation w s1)"
  using assms
  by (simp add: calculatePositionAndEmitLocation_def Let_def
      cachesAfterLoop_updateLocationFromCells cachesAfterLoop_same)

lemma cachesAfterLoop_startPositioningIfNeeded:
  assumes "caches s1 = caches s"
  shows "cachesAfterLoop s (startPositioningIfNeeded w s1)"
proof -
  let ?s2 = "calculatePositionAndEmitLocation w (s1\<lparr>m_idleTimer := Stopped, m_positioningStarted := True\<rparr>)"
  have "cachesAfterLoop s ?s2"
    by (rule cachesAfterLoop_calculatePositionAndEmitLocation) (simp add: assms)
  then have "cachesAfterLoop s (?s2\<lparr>m_recalculatePositionTimer := x\<rparr>)" for x
    by (rule cachesAfterLoop_post) simp
  with assms show ?thesis
    by (simp add: startPositioningIfNeeded_def Let_def cachesAfterLoop_same)
qed

lemma cachesAfterLoop_timerEvent: "cachesAfterLoop s (timerEvent w event s)"
  by (simp add: timerEvent_def Let_def cachesAfterLoop_same
      cachesAfterLoop_calculatePositionAndEmitLocation)

lemma cachesAfterLoop_AddReference:
  "AddReference w fromDBus service s = Inr s' \<Longrightarrow> cachesAfterLoop s s'"
  by (auto simp: AddReference_def Let_def split: if_splits
      intro!: cachesAfterLoop_startPositioningIfNeeded)

lemma caches_RemoveReference:
  "RemoveReference fromDBus service s = Inr s' \<Longrightarrow> caches s' = caches s"
  by (auto simp: RemoveReference_def Let_def split: if_splits)

lemma caches_SetOptions:
  "SetOptions fromDBus service options s = Inr s' \<Longrightarrow> caches s' = caches s"
  by (auto simp: SetOptions_def Let_def split: if_splits option.splits)

lemma caches_serviceUnregistered: "caches (serviceUnregistered service s) = caches s"
  by (simp add: serviceUnregistered_def Let_def)

lemma cachesAfterLoop_updatePositioningEnabled:
  "cachesAfterLoop s (updatePositioningEnabled w s)"
  by (simp add: updatePositioningEnabled_def Let_def cachesAfterLoop_same
      cachesAfterLoop_startPositioningIfNeeded split: prod.splits)

lemma cachesAfterLoop_handle: "handle w event s = Inr s' \<Longrightarrow> cachesAfterLoop s s'"
proof (cases event)
  case (CallAddReference b service)
  assume "handle w event s = Inr s'"
  with CallAddReference show ?thesis by (simp add: cachesAfterLoop_AddReference)
next
  case (CallRemoveReference b service)
  assume "handle w event s = Inr s'"
  with CallRemoveReference show ?thesis
    by (simp add: caches_RemoveReference cachesAfterLoop_same)
next
  case (CallSetOptions b service options)
  assume "handle w event s = Inr s'"
  with CallSetOptions show ?thesis
    by (simp add: caches_SetOptions cachesAfterLoop_same)
next
  case (Timer e)
  assume "handle w event s = Inr s'"
  with Timer show ?thesis using cachesAfterLoop_timerEvent by auto
next
  case (LocationFound la lo ac)
  assume "handle w event s = Inr s'"
  with LocationFound show ?thesis
    by (auto simp: onlineLocationFound_def Let_def cachesAfterLoop_same)
next
  case LocationError
  assume "handle w event s = Inr s'"
  with LocationError show ?thesis
    by (auto simp: onlineLocationError_def cachesAfterLoop_updateLocationFromCells)
next
  case WlanChanged
  assume "handle w event s = Inr s'"
  with WlanChanged show ?thesis
    by (auto simp: onlineWlanChanged_def cachesAfterLoop_same)
next
  case CellsChanged
  assume "handle w event s = Inr s'"
  with CellsChanged show ?thesis
    by (auto simp: cellularNetworkRegistrationChanged_def cachesAfterLoop_same)
next
  case SettingsChanged
  assume "handle w event s = Inr s'"
  with SettingsChanged show ?thesis using cachesAfterLoop_updatePositioningEnabled by auto
next
  case (ServiceUnregistered service)
  assume "handle w event s = Inr s'"
  with ServiceUnregistered show ?thesis
    by (auto simp: caches_serviceUnregistered cachesAfterLoop_same)
qed

lemma cached_caches: "caches s1 = caches s \<Longrightarrow> cached k s1 = cached k s"
  by (simp add: caches_def cached_def)

lemma cachesDisjoint_caches: "caches s1 = caches s \<Longrightarrow> cachesDisjoint s1 = cachesDisjoint s"
  by (simp add: caches_def cachesDisjoint_def)

lemma keepsCell_caches:
  "caches s1 = caches s \<Longrightarrow> caches s1' = caches s' \<Longrightarrow> keepsCell k s1 s1' = keepsCell k s s'"
  by (simp add: caches_def keepsCell_def cached_def)

text \<open>One resolution: what it returns and what it does to the caches.\<close>

lemma resolveCell_cached:
  "cached k s \<Longrightarrow> resolveCell files k s = (m_uniqueCellIdToLocation s k, s)"
  by (auto simp: resolveCell_def cached_def split: option.splits)

lemma resolveCell_new:
  assumes "\<not> cached k s"
  shows "resolveCell files k s =
     (case searchForCellIdLocation files k of
        None \<Rightarrow> (None, s\<lparr>m_knownCellIdsWithUnknownLocations :=
                            insert k (m_knownCellIdsWithUnknownLocations s),
                          lookups := lookups s @ [k]\<rparr>)
      | Some cc \<Rightarrow> (Some cc, s\<lparr>m_uniqueCellIdToLocation := (m_uniqueCellIdToLocation s)(k \<mapsto> cc),
                              lookups := lookups s @ [k]\<rparr>))"
  using assms by (auto simp: resolveCell_def cached_def split: option.splits)

lemma resolveCell_result:
  "resolveCell files k s = (r, s') \<Longrightarrow> cached k s' \<and> r = m_uniqueCellIdToLocation s' k"
proof (cases "cached k s")
  case True
  assume "resolveCell files k s = (r, s')"
  with True resolveCell_cached [OF True, of files] show ?thesis by auto
next
  case False
  assume "resolveCell files k s = (r, s')"
  with False resolveCell_new [OF False, of files] show ?thesis
    by (auto simp: cached_def split: option.splits)
qed

lemma resolveCell_cachesDisjoint:
  "cachesDisjoint s \<Longrightarrow> cachesDisjoint (snd (resolveCell files k s))"
proof (cases "cached k s")
  case True
  assume "cachesDisjoint s"
  with resolveCell_cached [OF True, of files] show ?thesis by simp
next
  case False
  assume "cachesDisjoint s"
  with False resolveCell_new [OF False, of files] show ?thesis
    by (auto simp: cachesDisjoint_def cached_def split: option.splits)
qed

lemma resolveCell_cacheInv:
  "cacheInv (caches s) \<Longrightarrow> cacheInv (caches (snd (resolveCell files k s)))"
proof (cases "cached k s")
  case True
  assume "cacheInv (caches s)"
  with resolveCell_cached [OF True, of files] show ?thesis by simp
next
  case False
  assume "cacheInv (caches s)"
  with False resolveCell_new [OF False, of files] show ?thesis
    by (auto simp: cacheInv_def caches_def cached_def split: option.splits)
qed

lemma resolveCell_keepsCell:
  "cached k s \<Longrightarrow> keepsCell k s (snd (resolveCell files j s))"
proof (cases "cached j s")
  case True
  assume "cached k s"
  with resolveCell_cached [OF True, of files] show ?thesis by (simp add: keepsCell_def)
next
  case False
  assume k: "cached k s"
  with False have "j \<noteq> k" by auto
  with k False resolveCell_new [OF False, of files] show ?thesis
    by (auto simp: keepsCell_def cached_def split: option.splits)
qed

lemma keepsCell_trans: "keepsCell k s s1 \<Longrightarrow> keepsCell k s1 s2 \<Longrightarrow> keepsCell k s s2"
  by (simp add: keepsCell_def)

lemma keepsCell_cached: "keepsCell k s s' \<Longrightarrow> cached k s'"
  by (simp add: keepsCell_def)

text \<open>The same for the whole loop.\<close>

lemma resolveCells_props:
  "(cachesDisjoint s \<longrightarrow> cachesDisjoint (fst (resolveCells files cells s cl t)))
   \<and> (cacheInv (caches s) \<longrightarrow> cacheInv (caches (fst (resolveCells files cells s cl t))))
   \<and> (cached k s \<longrightarrow> keepsCell k s (fst (resolveCells files cells s cl t)))"
proof (induction cells arbitrary: s cl t)
  case Nil
  show ?case by (simp add: keepsCell_def)
next
  case (Cons cell cells)
  obtain r s' where r: "resolveCell files (uniqueCellId cell) s = (r, s')"
    by (cases "resolveCell files (uniqueCellId cell) s")
  have d: "cachesDisjoint s \<Longrightarrow> cachesDisjoint s'"
    using resolveCell_cachesDisjoint [of s files "uniqueCellId cell"] r by simp
  have i: "cacheInv (caches s) \<Longrightarrow> cacheInv (caches s')"
    using resolveCell_cacheInv [of s files "uniqueCellId cell"] r by simp
  have c: "cached k s \<Longrightarrow> keepsCell k s s'"
    using resolveCell_keepsCell [of k s files "uniqueCellId cell"] r by simp
  obtain cl' t' where rest: "resolveCells files (cell # cells) s cl t = resolveCells files cells s' cl' t'"
    using r by (cases r) auto
  from Cons.IH [of s' cl' t'] d i c show ?case
    unfolding rest by (blast intro: keepsCell_trans keepsCell_cached)
qed

lemma cachesAfterLoop_props:
  assumes "cachesAfterLoop s s'"
  shows "(cachesDisjoint s \<longrightarrow> cachesDisjoint s')
     \<and> (cacheInv (caches s) \<longrightarrow> cacheInv (caches s'))
     \<and> (cached k s \<longrightarrow> keepsCell k s s')"
proof -
  from assms obtain files cells cl t
    where e: "caches s' = caches (fst (resolveCells files cells s cl t))"
    unfolding cachesAfterLoop_def by blast
  from resolveCells_props [of s files cells cl t k] e show ?thesis
    using cachesDisjoint_caches [OF e] keepsCell_caches [OF refl e, of k] by simp
qed

lemma cacheInv_new: "cacheInv (caches (YandexProvider_new w))"
proof -
  have "cacheInv (caches YandexProvider_members)"
    by (simp add: cacheInv_def caches_def YandexProvider_members_def)
  with cachesAfterLoop_props [OF cachesAfterLoop_updatePositioningEnabled, of YandexProvider_members w]
  have "cacheInv (caches (updatePositioningEnabled w YandexProvider_members))"
    by simp
  then show ?thesis
    by (simp add: YandexProvider_new_def Let_def cellularNetworkRegistrationChanged_def)
qed

lemma reachable_cacheInv: "reachable s \<Longrightarrow> cacheInv (caches s)"
proof (induction rule: reachable.induct)
  case (reachable_new w)
  show ?case by (rule cacheInv_new)
next
  case (reachable_handle s w event s')
  with cachesAfterLoop_props [OF cachesAfterLoop_handle [OF reachable_handle.hyps(2)]]
  show ?case by simp
qed

section \<open>The example world\<close>

lemma firstDigit_7: "firstDigit 7 = 7"
  by (simp add: firstDigit.simps)

lemma searchForCellIdLocation_cell11:
  "searchForCellIdLocation exampleFiles cell11 = Some \<lparr>lat = Fin 55, lon = Fin 37\<rparr>"
  by (simp add: exampleFiles_def exampleFile_def cell11_def firstDigitAreaCode_def firstDigit_7
      endsWith_CaseInsensitive_def toLower_def)

lemma searchForCellIdLocation_cell13: "searchForCellIdLocation exampleFiles cell13 = None"
  by (simp add: exampleFiles_def exampleFile_def cell13_def cell11_def firstDigitAreaCode_def firstDigit_7
      endsWith_CaseInsensitive_def toLower_def)

lemma YandexProvider_new_exampleWorld:
  "YandexProvider_new exampleWorld =
     YandexProvider_members\<lparr>m_positioningEnabled := True, m_cellDataAllowed := True,
       m_onlineDataAllowed := True, m_wlanDataAllowed := True, m_cellWatcher := True,
       m_signalUpdateCell := True, m_idleTimer := Started QuitIdleTime\<rparr>"
  by (simp add: YandexProvider_new_def updatePositioningEnabled_def getEnabled_def
      exampleWorld_def exampleSettings_def settingsValue_def YandexProvider_members_def
      updateOnlineDataAllowed_def updateCellDataAllowed_def updateWlanDataAllowed_def
      startPositioningIfNeeded_def cellularNetworkRegistrationChanged_def Let_def)

lemma handle_startedProvider:
  "handle exampleWorld (CallAddReference True ''org.app'') (YandexProvider_new exampleWorld)
     = Inr startedProvider"
  by (simp add: startedProvider_def AddReference_def Let_def)

lemma reachable_startedProvider: "reachable startedProvider"
  using reachable_handle [OF reachable_new handle_startedProvider] .

lemma seenCellIds_exampleWorld_allowed:
  "m_cellDataAllowed s \<Longrightarrow> seenCellIds exampleWorld s =
     [\<lparr>uniqueCellId = cell11, signalStrength = 20\<rparr>, \<lparr>uniqueCellId = cell13, signalStrength = 9\<rparr>]"
  by (simp add: seenCellIds_def exampleWorld_def exampleCell_def
      cellIdentity_def cellTypeOf_def InvalidValue_def Let_def cell11_def cell13_def)

lemma mlsdb_files_exampleWorld: "mlsdb_files exampleWorld = exampleFiles"
  by (simp add: exampleWorld_def)

lemma cell11_neq_cell13: "cell11 \<noteq> cell13" "cell13 \<noteq> cell11"
  by (simp_all add: cell11_def cell13_def)

lemma resolveCells_example:
  assumes "m_uniqueCellIdToLocation s = Map.empty" "m_knownCellIdsWithUnknownLocations s = {}"
  shows "resolveCells exampleFiles
       [\<lparr>uniqueCellId = cell11, signalStrength = 20\<rparr>, \<lparr>uniqueCellId = cell13, signalStrength = 9\<rparr>]
       s [] (Fin 0)
     = (s\<lparr>m_uniqueCellIdToLocation := [cell11 \<mapsto> \<lparr>lat = Fin 55, lon = Fin 37\<rparr>],
          m_knownCellIdsWithUnknownLocations := {cell13},
          lookups := lookups s @ [cell11, cell13]\<rparr>,
        [(cell11, \<lparr>lat = Fin 55, lon = Fin 37\<rparr>)], Fin 20)"
  using assms
  by (simp add: resolveCell_def searchForCellIdLocation_cell11 searchForCellIdLocation_cell13
      cell11_neq_cell13 double_of_quint32_def)

lemma caches_startedProvider:
  "caches startedProvider = ([cell11 \<mapsto> \<lparr>lat = Fin 55, lon = Fin 37\<rparr>], {cell13}, [cell11, cell13])"
proof -
  let ?s0 = "YandexProvider_new exampleWorld"
  let ?s1 = "?s0\<lparr>m_watchedServices := [(''org.app'', \<lparr>referenceCount = 1, updateInterval = 0\<rparr>)],
      m_idleTimer := Stopped\<rparr>"
  let ?s2 = "?s1\<lparr>m_idleTimer := Stopped, m_positioningStarted := True\<rparr>"
  have s0: "m_watchedServices ?s0 = []" "\<not> m_positioningStarted ?s0" "m_positioningEnabled ?s0"
    "m_cellDataAllowed ?s0" "\<not> m_onlinePositioningEnabled ?s0"
    "m_uniqueCellIdToLocation ?s0 = Map.empty" "m_knownCellIdsWithUnknownLocations ?s0 = {}"
    "lookups ?s0 = []"
    by (simp_all add: YandexProvider_new_exampleWorld YandexProvider_members_def)
  have a: "startedProvider = startPositioningIfNeeded exampleWorld ?s1"
    using s0 by (simp add: startedProvider_def AddReference_def Let_def serviceData_def ServiceData_default_def)
  have b: "caches (startPositioningIfNeeded exampleWorld ?s1)
      = caches (updateLocationFromCells exampleWorld (seenCellIds exampleWorld ?s2) ?s2)"
    using s0 by (simp add: startPositioningIfNeeded_def calculatePositionAndEmitLocation_def Let_def caches_def)
  have c: "seenCellIds exampleWorld ?s2 =
     [\<lparr>uniqueCellId = cell11, signalStrength = 20\<rparr>, \<lparr>uniqueCellId = cell13, signalStrength = 9\<rparr>]"
    using s0 by (simp add: seenCellIds_exampleWorld_allowed)
  let ?cells = "[\<lparr>uniqueCellId = cell11, signalStrength = 20\<rparr>, \<lparr>uniqueCellId = cell13, signalStrength = 9\<rparr>]"
  have r: "fst (resolveCells exampleFiles ?cells ?s2 [] (Fin 0))
      = ?s2\<lparr>m_uniqueCellIdToLocation := [cell11 \<mapsto> \<lparr>lat = Fin 55, lon = Fin 37\<rparr>],
          m_knownCellIdsWithUnknownLocations := {cell13},
          lookups := lookups ?s2 @ [cell11, cell13]\<rparr>"
  proof -
    have p1: "m_uniqueCellIdToLocation ?s2 = Map.empty" using s0 by simp
    have p2: "m_knownCellIdsWithUnknownLocations ?s2 = {}" using s0 by simp
    show ?thesis by (simp only: resolveCells_example [OF p1 p2] fst_conv)
  qed
  have "caches (updateLocationFromCells exampleWorld ?cells ?s2)
     = caches (fst (resolveCells exampleFiles ?cells ?s2 [] (Fin 0)))"
    by (simp only: caches_updateLocationFromCells mlsdb_files_exampleWorld)
  also have "\<dots> = ([cell11 \<mapsto> \<lparr>lat = Fin 55, lon = Fin 37\<rparr>], {cell13}, [cell11, cell13])"
    unfolding r using s0 by (simp add: caches_def)
  finally have d: "caches (updateLocationFromCells exampleWorld ?cells ?s2)
     = ([cell11 \<mapsto> \<lparr>lat = Fin 55, lon = Fin 37\<rparr>], {cell13}, [cell11, cell13])" .
  from a b c d show ?thesis by simp
qed

section \<open>The cells gathered for a recomputation\<close>

text \<open>
  The loop's test, on the numbers that the radio source reports: a cell gets an identity
  when \<^verbatim>\<open>cid\<close> or \<^verbatim>\<open>ci\<close> is neither \<^verbatim>\<open>InvalidValue\<close> nor 0 and the low 16 bits of \<^verbatim>\<open>mcc\<close> are not 0.
\<close>

lemma quint16_eq_0_iff: "(word_of_int k :: quint16) = 0 \<longleftrightarrow> k mod 65536 = 0"
  by (simp add: word_of_int_eq_0_iff dvd_eq_mod_eq_0)

lemma uint_quint16: "uint (word_of_int k :: quint16) = k mod 65536"
  by (simp add: uint_word_of_int)

lemma cellIdentity_None_iff:
  "cellIdentity c = None \<longleftrightarrow>
     \<not> (((cell_cid c \<noteq> InvalidValue \<and> cell_cid c \<noteq> 0)
          \<or> (cell_ci c \<noteq> InvalidValue \<and> cell_ci c \<noteq> 0))
        \<and> cell_mcc c mod 65536 \<noteq> 0)"
  by (auto simp: cellIdentity_def Let_def quint16_eq_0_iff)

lemma cellIdentity_Some_mcc:
  "cellIdentity c = Some k \<Longrightarrow> mcc k \<noteq> 0 \<and> uint (mcc k) = cell_mcc c mod 65536"
  by (auto simp: cellIdentity_def Let_def uint_quint16 split: if_splits)

text \<open>
  The loop keeps its list free of repeated identities, as long as the set of seen
  identities is the set of the identities of the list.
\<close>

lemma seenCellIds_loop_ids:
  "distinct (map uniqueCellId acc) \<Longrightarrow> uniqueCellId ` set acc = seen \<Longrightarrow>
   distinct (map uniqueCellId (seenCellIds_loop cs acc m seen))
   \<and> uniqueCellId ` set (seenCellIds_loop cs acc m seen)
       = seen \<union> {k. \<exists>c\<in>set cs. cellIdentity c = Some k}"
proof (induction cs arbitrary: acc m seen)
  case Nil
  then show ?case by simp
next
  case (Cons c cs)
  show ?case
  proof (cases "cellIdentity c")
    case None
    with Cons show ?thesis by simp
  next
    case (Some k)
    show ?thesis
    proof (cases "k \<in> seen")
      case True
      with Some Cons.IH [OF Cons.prems] Cons.prems show ?thesis
        by auto
    next
      case False
      let ?cell = "\<lparr>uniqueCellId = k, signalStrength = word_of_int (cell_signalStrength c)\<rparr>"
      let ?m = "if signalStrength ?cell > m then signalStrength ?cell else m"
      from False Cons.prems have d: "distinct (map uniqueCellId (acc @ [?cell]))"
        by auto
      from Cons.prems have s: "uniqueCellId ` set (acc @ [?cell]) = insert k seen"
        by auto
      from Cons.IH [OF d s, of ?m] Some False show ?thesis
        by (auto simp: Let_def)
    qed
  qed
qed

lemma seenCellIds_loop_origin:
  "obs \<in> set (seenCellIds_loop cs acc m seen) \<Longrightarrow>
   obs \<in> set acc \<or>
   (\<exists>c\<in>set cs. cellIdentity c = Some (uniqueCellId obs)
       \<and> signalStrength obs = word_of_int (cell_signalStrength c))"
proof (induction cs arbitrary: acc m seen)
  case Nil
  then show ?case by simp
next
  case (Cons c cs)
  show ?case
  proof (cases "cellIdentity c")
    case None
    with Cons.prems have "obs \<in> set (seenCellIds_loop cs acc m seen)" by simp
    from Cons.IH [OF this] show ?thesis by auto
  next
    case (Some k)
    show ?thesis
    proof (cases "k \<in> seen")
      case True
      with Some Cons.prems have "obs \<in> set (seenCellIds_loop cs acc m seen)" by simp
      from Cons.IH [OF this] show ?thesis by auto
    next
      case False
      let ?cell = "\<lparr>uniqueCellId = k, signalStrength = word_of_int (cell_signalStrength c)\<rparr>"
      let ?m = "if signalStrength ?cell > m then signalStrength ?cell else m"
      from False Some Cons.prems
      have "obs \<in> set (seenCellIds_loop cs (acc @ [?cell]) ?m (insert k seen))"
        by (simp add: Let_def)
      from Cons.IH [OF this] Some show ?thesis by auto
    qed
  qed
qed

lemma distinct_map_filter_once:
  "distinct (map f xs) \<Longrightarrow> k \<in> f ` set xs \<Longrightarrow> length (filter (\<lambda>x. f x = k) xs) = 1"
proof (induction xs)
  case Nil
  then show ?case by simp
next
  case (Cons x xs)
  show ?case
  proof (cases "f x = k")
    case True
    from Cons.prems(1) have "f x \<notin> f ` set xs"
      by simp
    with True have "\<forall>y\<in>set xs. f y \<noteq> k"
      by blast
    then have "filter (\<lambda>x. f x = k) xs = []"
      by (simp add: filter_empty_conv)
    with True show ?thesis by simp
  next
    case False
    with Cons show ?thesis by auto
  qed
qed

text \<open>
  C10, as the code has it. The list of \<^verbatim>\<open>seenCellIds\<close> has pairwise distinct cell identities.
  While cell data is allowed, every cell of the radio source that has a cell id (\<^verbatim>\<open>cid\<close> or
  \<^verbatim>\<open>ci\<close> other than \<^verbatim>\<open>InvalidValue\<close> and 0) and whose country code is not 0 in its low 16 bits
  has its identity in the list exactly once, however often the source reports it. Every
  observation of the list comes from such a cell and has its signal strength and the low
  16 bits of its country code; when the source reports no such cell the list is empty.
  The country code is not compared with \<^verbatim>\<open>InvalidValue\<close>. When cell data is not allowed the
  list is empty.
\<close>

theorem seenCellIds_amended:
  "distinct (map uniqueCellId (seenCellIds w s))
   \<and> (m_cellDataAllowed s \<longrightarrow>
        (\<forall>c\<in>set (watcher_cells w).
           ((cell_cid c \<noteq> InvalidValue \<and> cell_cid c \<noteq> 0)
              \<or> (cell_ci c \<noteq> InvalidValue \<and> cell_ci c \<noteq> 0))
           \<and> cell_mcc c mod 65536 \<noteq> 0
           \<longrightarrow> (\<exists>k. cellIdentity c = Some k
                  \<and> length (filter (\<lambda>obs. uniqueCellId obs = k) (seenCellIds w s)) = 1)))
   \<and> (\<forall>obs\<in>set (seenCellIds w s).
        \<exists>c\<in>set (watcher_cells w).
           ((cell_cid c \<noteq> InvalidValue \<and> cell_cid c \<noteq> 0)
              \<or> (cell_ci c \<noteq> InvalidValue \<and> cell_ci c \<noteq> 0))
           \<and> cell_mcc c mod 65536 \<noteq> 0
           \<and> cellIdentity c = Some (uniqueCellId obs)
           \<and> uint (mcc (uniqueCellId obs)) = cell_mcc c mod 65536
           \<and> signalStrength obs = word_of_int (cell_signalStrength c))
   \<and> ((\<forall>c\<in>set (watcher_cells w).
          ((cell_cid c = InvalidValue \<or> cell_cid c = 0) \<and> (cell_ci c = InvalidValue \<or> cell_ci c = 0))
          \<or> cell_mcc c mod 65536 = 0)
        \<longrightarrow> seenCellIds w s = [])
   \<and> (\<not> m_cellDataAllowed s \<longrightarrow> seenCellIds w s = [])"
proof -
  have loop: "distinct (map uniqueCellId (seenCellIds_loop cs [] 1 {}))
      \<and> uniqueCellId ` set (seenCellIds_loop cs [] 1 {}) = {k. \<exists>c\<in>set cs. cellIdentity c = Some k}" for cs
    using seenCellIds_loop_ids [of "[]" "{}" cs 1] by simp
  have d: "distinct (map uniqueCellId (seenCellIds w s))"
    using loop by (simp add: seenCellIds_def)
  have once: "\<exists>k. cellIdentity c = Some k
        \<and> length (filter (\<lambda>obs. uniqueCellId obs = k) (seenCellIds w s)) = 1"
    if "m_cellDataAllowed s" "c \<in> set (watcher_cells w)"
      "((cell_cid c \<noteq> InvalidValue \<and> cell_cid c \<noteq> 0)
              \<or> (cell_ci c \<noteq> InvalidValue \<and> cell_ci c \<noteq> 0))
           \<and> cell_mcc c mod 65536 \<noteq> 0" for c
  proof -
    from that(3) cellIdentity_None_iff [of c] obtain k where k: "cellIdentity c = Some k"
      by (cases "cellIdentity c") auto
    from that(1,2) k loop [of "watcher_cells w"] have "k \<in> uniqueCellId ` set (seenCellIds w s)"
      by (auto simp: seenCellIds_def)
    with d have "length (filter (\<lambda>obs. uniqueCellId obs = k) (seenCellIds w s)) = 1"
      by (rule distinct_map_filter_once)
    with k show ?thesis by blast
  qed
  have origin: "\<exists>c\<in>set (watcher_cells w).
           ((cell_cid c \<noteq> InvalidValue \<and> cell_cid c \<noteq> 0)
              \<or> (cell_ci c \<noteq> InvalidValue \<and> cell_ci c \<noteq> 0))
           \<and> cell_mcc c mod 65536 \<noteq> 0
           \<and> cellIdentity c = Some (uniqueCellId obs)
           \<and> uint (mcc (uniqueCellId obs)) = cell_mcc c mod 65536
           \<and> signalStrength obs = word_of_int (cell_signalStrength c)"
    if "obs \<in> set (seenCellIds w s)" for obs
  proof -
    from that have "obs \<in> set (seenCellIds_loop (watcher_cells w) [] 1 {})"
      by (auto simp: seenCellIds_def split: if_splits)
    from seenCellIds_loop_origin [OF this]
    obtain c where c: "c \<in> set (watcher_cells w)" "cellIdentity c = Some (uniqueCellId obs)"
      "signalStrength obs = word_of_int (cell_signalStrength c)"
      by auto
    from c(2) have "((cell_cid c \<noteq> InvalidValue \<and> cell_cid c \<noteq> 0)
              \<or> (cell_ci c \<noteq> InvalidValue \<and> cell_ci c \<noteq> 0))
           \<and> cell_mcc c mod 65536 \<noteq> 0"
      using cellIdentity_None_iff [of c] by auto
    with c cellIdentity_Some_mcc [OF c(2)] show ?thesis by blast
  qed
  have none: "seenCellIds w s = []"
    if a: "\<forall>c\<in>set (watcher_cells w).
          ((cell_cid c = InvalidValue \<or> cell_cid c = 0) \<and> (cell_ci c = InvalidValue \<or> cell_ci c = 0))
          \<or> cell_mcc c mod 65536 = 0"
  proof (rule ccontr)
    assume "seenCellIds w s \<noteq> []"
    then obtain obs where "obs \<in> set (seenCellIds w s)"
      by (cases "seenCellIds w s") auto
    from origin [OF this] a show False
      by blast
  qed
  have off: "\<not> m_cellDataAllowed s \<Longrightarrow> seenCellIds w s = []"
    by (simp add: seenCellIds_def)
  from d once origin none off show ?thesis by blast
qed

text \<open>
  The radio source of \<open>exampleWorld\<close> reports cell 11 twice, a cell without country code, a
  cell without cell id, and cell 13: the list has cell 11 once, with the strength of its
  first report, and cell 13. When it reports only the two cells without country code and
  without cell id, the list is empty.
\<close>

lemma seenCellIds_exampleWorld:
  "seenCellIds exampleWorld cellDataState =
     [\<lparr>uniqueCellId = cell11, signalStrength = 20\<rparr>,
      \<lparr>uniqueCellId = cell13, signalStrength = 9\<rparr>]"
  by (simp add: seenCellIds_def exampleWorld_def exampleCell_def cellDataState_def
      YandexProvider_members_def cellIdentity_def cellTypeOf_def InvalidValue_def Let_def
      cell11_def cell13_def)

theorem seenCellIds_amended_witness:
  "m_cellDataAllowed cellDataState
   \<and> exampleCell 250 11 30 \<in> set (watcher_cells exampleWorld)
   \<and> cellIdentity (exampleCell 250 11 30) = Some cell11
   \<and> length (filter (\<lambda>obs. uniqueCellId obs = cell11)
        (seenCellIds exampleWorld cellDataState)) = 1
   \<and> \<lparr>uniqueCellId = cell13, signalStrength = 9\<rparr>
        \<in> set (seenCellIds exampleWorld cellDataState)
   \<and> (\<exists>c\<in>set (watcher_cells exampleWorld).
         cell_mcc c mod 65536 \<noteq> 0 \<and> cellIdentity c = Some cell13
         \<and> (9 :: quint32) = word_of_int (cell_signalStrength c))
   \<and> seenCellIds noValidCellWorld cellDataState = []
   \<and> \<not> m_cellDataAllowed YandexProvider_members
   \<and> seenCellIds exampleWorld YandexProvider_members = []"
proof -
  have a: "m_cellDataAllowed cellDataState"
    by (simp add: cellDataState_def)
  have b: "exampleCell 250 11 30 \<in> set (watcher_cells exampleWorld)"
    by (simp add: exampleWorld_def)
  have c: "cellIdentity (exampleCell 250 11 30) = Some cell11"
    by (simp add: exampleCell_def cellIdentity_def cellTypeOf_def InvalidValue_def Let_def cell11_def)
  have v: "((cell_cid (exampleCell 250 11 30) \<noteq> InvalidValue \<and> cell_cid (exampleCell 250 11 30) \<noteq> 0)
              \<or> (cell_ci (exampleCell 250 11 30) \<noteq> InvalidValue \<and> cell_ci (exampleCell 250 11 30) \<noteq> 0))
           \<and> cell_mcc (exampleCell 250 11 30) mod 65536 \<noteq> 0"
    by (simp add: exampleCell_def InvalidValue_def)
  from seenCellIds_amended [of exampleWorld cellDataState] a b v
  obtain k where "cellIdentity (exampleCell 250 11 30) = Some k"
    "length (filter (\<lambda>obs. uniqueCellId obs = k) (seenCellIds exampleWorld cellDataState)) = 1"
    by blast
  with c have once: "length (filter (\<lambda>obs. uniqueCellId obs = cell11)
        (seenCellIds exampleWorld cellDataState)) = 1"
    by simp
  have e: "\<lparr>uniqueCellId = cell13, signalStrength = 9\<rparr>
        \<in> set (seenCellIds exampleWorld cellDataState)"
    by (simp add: seenCellIds_exampleWorld)
  from seenCellIds_amended [of exampleWorld cellDataState] e
  obtain c' where "c' \<in> set (watcher_cells exampleWorld)" "cell_mcc c' mod 65536 \<noteq> 0"
    "cellIdentity c' = Some (uniqueCellId \<lparr>uniqueCellId = cell13, signalStrength = 9\<rparr>)"
    "signalStrength \<lparr>uniqueCellId = cell13, signalStrength = (9 :: quint32)\<rparr>
       = word_of_int (cell_signalStrength c')"
    by blast
  then have o: "\<exists>c\<in>set (watcher_cells exampleWorld).
         cell_mcc c mod 65536 \<noteq> 0 \<and> cellIdentity c = Some cell13
         \<and> (9 :: quint32) = word_of_int (cell_signalStrength c)"
    by (intro bexI [of _ c']) simp_all
  have n: "\<forall>c\<in>set (watcher_cells noValidCellWorld).
          ((cell_cid c = InvalidValue \<or> cell_cid c = 0) \<and> (cell_ci c = InvalidValue \<or> cell_ci c = 0))
          \<or> cell_mcc c mod 65536 = 0"
    by (simp add: noValidCellWorld_def exampleCell_def)
  from seenCellIds_amended [of noValidCellWorld cellDataState] n
  have h: "seenCellIds noValidCellWorld cellDataState = []"
    by blast
  have f: "\<not> m_cellDataAllowed YandexProvider_members"
    by (simp add: YandexProvider_members_def)
  from seenCellIds_amended [of exampleWorld YandexProvider_members] f
  have g: "seenCellIds exampleWorld YandexProvider_members = []"
    by blast
  from a b c once e o h f g show ?thesis by blast
qed

text \<open>
  C10 fails for a cell without a country code: the radio source reports a cell with cell
  id 11 whose \<^verbatim>\<open>mcc()\<close> is \<^verbatim>\<open>InvalidValue\<close>. \<^verbatim>\<open>quint16 mcc = c->mcc()\<close> keeps the low 16 bits, 65535,
  which is not 0: the cell is not skipped, and the list has an observation with country
  code 65535.
\<close>

theorem seenCellIds_counterexample:
  "m_cellDataAllowed cellDataState
   \<and> watcher_cells invalidMccWorld = [exampleCell InvalidValue 11 20]
   \<and> cell_mcc (exampleCell InvalidValue 11 20) = InvalidValue
   \<and> seenCellIds invalidMccWorld cellDataState
       = [\<lparr>uniqueCellId = MlsdbUniqueCellId MLSDB_CELL_TYPE_GSM 11 7 65535 1,
           signalStrength = 20\<rparr>]"
  by (simp add: seenCellIds_def invalidMccWorld_def exampleWorld_def exampleCell_def
      cellDataState_def cellIdentity_def cellTypeOf_def InvalidValue_def Let_def)

section \<open>Resolving a cell\<close>

text \<open>
  C5. A resolution is lines 430 to 447 of \<^verbatim>\<open>updateLocationFromCells\<close>, \<open>resolveCell\<close>; the field
  \<open>lookups\<close> lists the calls of \<^verbatim>\<open>searchForCellIdLocation\<close>. Resolving a cell that no cache
  knows makes exactly one lookup: a found location is returned and put into the positive
  cache, a failure puts the cell into the negative cache; resolving a cell that a cache
  knows changes nothing. Resolving the cell again, whatever the data files are then,
  returns the same result and leaves the state, hence the list of lookups, as it is. The
  same holds after any event that the provider handles in between: the cell is still
  cached with the same entry, the event has not looked it up again, and resolving it
  returns that entry without a lookup. In a run of the provider no cell is looked up twice.
\<close>

theorem resolveCell_no_second_lookup:
  "(resolveCell files k s = (r, s1) \<longrightarrow>
      (if cached k s then s1 = s
       else lookups s1 = lookups s @ [k]
            \<and> (case searchForCellIdLocation files k of
                  Some cellCoords \<Rightarrow>
                    r = Some cellCoords
                    \<and> m_uniqueCellIdToLocation s1 = (m_uniqueCellIdToLocation s)(k \<mapsto> cellCoords)
                    \<and> m_knownCellIdsWithUnknownLocations s1 = m_knownCellIdsWithUnknownLocations s
                | None \<Rightarrow>
                    r = None
                    \<and> m_knownCellIdsWithUnknownLocations s1
                        = insert k (m_knownCellIdsWithUnknownLocations s)
                    \<and> m_uniqueCellIdToLocation s1 = m_uniqueCellIdToLocation s))
      \<and> resolveCell files' k s1 = (r, s1))
   \<and> (cached k s \<and> handle w event s = Inr s' \<longrightarrow>
        count_list (lookups s') k = count_list (lookups s) k
        \<and> resolveCell files' k s' = (m_uniqueCellIdToLocation s k, s'))
   \<and> (reachable s \<longrightarrow> distinct (lookups s))"
proof (intro conjI impI)
  assume a: "resolveCell files k s = (r, s1)"
  show "if cached k s then s1 = s
       else lookups s1 = lookups s @ [k]
            \<and> (case searchForCellIdLocation files k of
                  Some cellCoords \<Rightarrow>
                    r = Some cellCoords
                    \<and> m_uniqueCellIdToLocation s1 = (m_uniqueCellIdToLocation s)(k \<mapsto> cellCoords)
                    \<and> m_knownCellIdsWithUnknownLocations s1 = m_knownCellIdsWithUnknownLocations s
                | None \<Rightarrow>
                    r = None
                    \<and> m_knownCellIdsWithUnknownLocations s1
                        = insert k (m_knownCellIdsWithUnknownLocations s)
                    \<and> m_uniqueCellIdToLocation s1 = m_uniqueCellIdToLocation s)"
  proof (cases "cached k s")
    case True
    with a resolveCell_cached [OF True, of files] show ?thesis by simp
  next
    case False
    with a resolveCell_new [OF False, of files] show ?thesis
      by (auto split: option.splits)
  qed
  from resolveCell_result [OF a] have "cached k s1" "r = m_uniqueCellIdToLocation s1 k"
    by simp_all
  with resolveCell_cached [of k s1 files'] show "resolveCell files' k s1 = (r, s1)"
    by simp
next
  assume a: "cached k s \<and> handle w event s = Inr s'"
  then have "cachesAfterLoop s s'"
    by (blast intro: cachesAfterLoop_handle)
  from cachesAfterLoop_props [OF this, of k] a have keeps: "keepsCell k s s'"
    by simp
  then show "count_list (lookups s') k = count_list (lookups s) k"
    by (simp add: keepsCell_def)
  from keeps have "cached k s'" "m_uniqueCellIdToLocation s' k = m_uniqueCellIdToLocation s k"
    by (simp_all add: keepsCell_def)
  with resolveCell_cached [of k s' files']
  show "resolveCell files' k s' = (m_uniqueCellIdToLocation s k, s')"
    by simp
next
  assume "reachable s"
  from reachable_cacheInv [OF this] show "distinct (lookups s)"
    by (simp add: cacheInv_def caches_def)
qed

text \<open>
  In \<open>exampleWorld\<close> the first resolution of cell 11 finds it in the data file; the second,
  without any data file, returns the same location and no lookup is added. After the
  first subscriber has arrived, each of the two cells in sight has been looked up once.
\<close>

theorem resolveCell_no_second_lookup_witness:
  "resolveCell exampleFiles cell11 YandexProvider_members
     = (Some \<lparr>lat = Fin 55, lon = Fin 37\<rparr>,
        YandexProvider_members\<lparr>m_uniqueCellIdToLocation := [cell11 \<mapsto> \<lparr>lat = Fin 55, lon = Fin 37\<rparr>],
          lookups := [cell11]\<rparr>)
   \<and> resolveCell [] cell11
        (YandexProvider_members\<lparr>m_uniqueCellIdToLocation := [cell11 \<mapsto> \<lparr>lat = Fin 55, lon = Fin 37\<rparr>],
          lookups := [cell11]\<rparr>)
     = (Some \<lparr>lat = Fin 55, lon = Fin 37\<rparr>,
        YandexProvider_members\<lparr>m_uniqueCellIdToLocation := [cell11 \<mapsto> \<lparr>lat = Fin 55, lon = Fin 37\<rparr>],
          lookups := [cell11]\<rparr>)
   \<and> cached cell13 startedProvider
   \<and> handle exampleWorld (Timer RecalculatePositionTimer) startedProvider
        = Inr (timerEvent exampleWorld RecalculatePositionTimer startedProvider)
   \<and> count_list (lookups (timerEvent exampleWorld RecalculatePositionTimer startedProvider)) cell13 = 1
   \<and> reachable startedProvider
   \<and> lookups startedProvider = [cell11, cell13]
   \<and> distinct (lookups startedProvider)"
proof -
  let ?s1 = "YandexProvider_members\<lparr>m_uniqueCellIdToLocation := [cell11 \<mapsto> \<lparr>lat = Fin 55, lon = Fin 37\<rparr>],
          lookups := [cell11]\<rparr>"
  let ?s' = "timerEvent exampleWorld RecalculatePositionTimer startedProvider"
  have first: "resolveCell exampleFiles cell11 YandexProvider_members
      = (Some \<lparr>lat = Fin 55, lon = Fin 37\<rparr>, ?s1)"
    by (simp add: resolveCell_def searchForCellIdLocation_cell11 YandexProvider_members_def)
  from resolveCell_no_second_lookup
    [of exampleFiles cell11 YandexProvider_members "Some \<lparr>lat = Fin 55, lon = Fin 37\<rparr>" ?s1 "[]"]
    first
  have second: "resolveCell [] cell11 ?s1 = (Some \<lparr>lat = Fin 55, lon = Fin 37\<rparr>, ?s1)"
    by blast
  have c: "m_uniqueCellIdToLocation startedProvider = [cell11 \<mapsto> \<lparr>lat = Fin 55, lon = Fin 37\<rparr>]"
    "m_knownCellIdsWithUnknownLocations startedProvider = {cell13}"
    "lookups startedProvider = [cell11, cell13]"
    using caches_startedProvider by (simp_all add: caches_def)
  then have cached13: "cached cell13 startedProvider"
    by (simp add: cached_def)
  have h: "handle exampleWorld (Timer RecalculatePositionTimer) startedProvider = Inr ?s'"
    by simp
  from resolveCell_no_second_lookup [of _ cell13 startedProvider _ _ _ exampleWorld
      "Timer RecalculatePositionTimer" ?s'] cached13 h
  have "count_list (lookups ?s') cell13 = count_list (lookups startedProvider) cell13"
    by blast
  with c(3) have count: "count_list (lookups ?s') cell13 = 1"
    by (simp add: cell11_neq_cell13)
  from resolveCell_no_second_lookup [of _ _ startedProvider] reachable_startedProvider
  have d: "distinct (lookups startedProvider)"
    by blast
  from first second cached13 h count reachable_startedProvider c(3) d show ?thesis
    by blast
qed

section \<open>The two caches never share a cell\<close>

text \<open>
  C6. In every state that a run of the provider reaches, from its construction through
  any events, no cell is both in \<open>m_uniqueCellIdToLocation\<close> and in
  \<open>m_knownCellIdsWithUnknownLocations\<close>; the constructor establishes this and every event
  handler preserves it.
\<close>

theorem caches_exclusive:
  "(reachable s \<longrightarrow>
      (\<forall>k. \<not> (k \<in> dom (m_uniqueCellIdToLocation s) \<and> k \<in> m_knownCellIdsWithUnknownLocations s)))
   \<and> cachesDisjoint (YandexProvider_new w)
   \<and> (cachesDisjoint s \<and> handle w event s = Inr s' \<longrightarrow> cachesDisjoint s')"
proof (intro conjI impI)
  assume "reachable s"
  from reachable_cacheInv [OF this]
  show "\<forall>k. \<not> (k \<in> dom (m_uniqueCellIdToLocation s) \<and> k \<in> m_knownCellIdsWithUnknownLocations s)"
    by (auto simp: cacheInv_def caches_def)
next
  from cacheInv_new [of w] show "cachesDisjoint (YandexProvider_new w)"
    by (simp add: cacheInv_def caches_def cachesDisjoint_def)
next
  assume a: "cachesDisjoint s \<and> handle w event s = Inr s'"
  then have "cachesAfterLoop s s'"
    by (blast intro: cachesAfterLoop_handle)
  from cachesAfterLoop_props [OF this, of cell11] a show "cachesDisjoint s'"
    by simp
qed

text \<open>
  After the first subscriber has arrived in \<open>exampleWorld\<close>, cell 11 is in the positive cache
  only and cell 13 in the negative cache only; a later loss of the online lookup, which
  runs the triangulation again, keeps the caches disjoint.
\<close>

theorem caches_exclusive_witness:
  "reachable startedProvider
   \<and> cell11 \<in> dom (m_uniqueCellIdToLocation startedProvider)
   \<and> cell11 \<notin> m_knownCellIdsWithUnknownLocations startedProvider
   \<and> cell13 \<in> m_knownCellIdsWithUnknownLocations startedProvider
   \<and> cell13 \<notin> dom (m_uniqueCellIdToLocation startedProvider)
   \<and> cachesDisjoint startedProvider
   \<and> handle exampleWorld LocationError startedProvider
        = Inr (onlineLocationError exampleWorld startedProvider)
   \<and> cachesDisjoint (onlineLocationError exampleWorld startedProvider)"
proof -
  have c: "m_uniqueCellIdToLocation startedProvider = [cell11 \<mapsto> \<lparr>lat = Fin 55, lon = Fin 37\<rparr>]"
    "m_knownCellIdsWithUnknownLocations startedProvider = {cell13}"
    using caches_startedProvider by (simp_all add: caches_def)
  then have in11: "cell11 \<in> dom (m_uniqueCellIdToLocation startedProvider)"
    and in13: "cell13 \<in> m_knownCellIdsWithUnknownLocations startedProvider"
    by simp_all
  from caches_exclusive [of startedProvider] reachable_startedProvider
  have ex: "\<forall>k. \<not> (k \<in> dom (m_uniqueCellIdToLocation startedProvider)
      \<and> k \<in> m_knownCellIdsWithUnknownLocations startedProvider)"
    by blast
  from ex in11 have out11: "cell11 \<notin> m_knownCellIdsWithUnknownLocations startedProvider"
    by blast
  from ex in13 have out13: "cell13 \<notin> dom (m_uniqueCellIdToLocation startedProvider)"
    by blast
  from ex have d: "cachesDisjoint startedProvider"
    by (auto simp: cachesDisjoint_def)
  have h: "handle exampleWorld LocationError startedProvider
        = Inr (onlineLocationError exampleWorld startedProvider)"
    by simp
  from caches_exclusive [of startedProvider exampleWorld LocationError
      "onlineLocationError exampleWorld startedProvider"] d h
  have d': "cachesDisjoint (onlineLocationError exampleWorld startedProvider)"
    by blast
  from reachable_startedProvider in11 out11 in13 out13 d h d' show ?thesis
    by blast
qed

section \<open>Triangulation\<close>

lemma keepsCell_entry: "keepsCell k s s' \<Longrightarrow> m_uniqueCellIdToLocation s' k = m_uniqueCellIdToLocation s k"
  by (simp add: keepsCell_def)

text \<open>
  What the first loop returns: the cells that the positive cache has in the end, with
  their cached coordinates.
\<close>

lemma resolveCells_result:
  assumes "resolveCells files cells s cl0 t0 = (s', cl, tss)"
  shows "(\<forall>k. map_of cl k =
           (if k \<in> uniqueCellId ` set cells \<and> m_uniqueCellIdToLocation s' k \<noteq> None
            then m_uniqueCellIdToLocation s' k else map_of cl0 k))
     \<and> (distinct (map fst cl0) \<longrightarrow> distinct (map fst cl))"
  using assms
proof (induction cells arbitrary: s cl0 t0)
  case Nil
  then show ?case by simp
next
  case (Cons cell cells)
  let ?k = "uniqueCellId cell"
  obtain r s1 where r: "resolveCell files ?k s = (r, s1)"
    by (cases "resolveCell files ?k s")
  from resolveCell_result [OF r] have c1: "cached ?k s1" and r1: "r = m_uniqueCellIdToLocation s1 ?k"
    by simp_all
  show ?case
  proof (cases r)
    case None
    with r Cons.prems have rest: "resolveCells files cells s1 cl0 t0 = (s', cl, tss)"
      by simp
    from resolveCells_props [of s1 files cells cl0 t0 ?k] c1 rest
    have "keepsCell ?k s1 s'" by simp
    with r1 None have e: "m_uniqueCellIdToLocation s' ?k = None"
      by (simp add: keepsCell_def)
    from Cons.IH [OF rest] e show ?thesis
      by auto
  next
    case (Some cc)
    define t1 where "t1 = dadd t0 (dmul (Fin 1) (double_of_quint32 (signalStrength cell)))"
    from Some r Cons.prems
    have rest: "resolveCells files cells s1 (AList.update ?k cc cl0) t1 = (s', cl, tss)"
      by (simp add: t1_def)
    from resolveCells_props [of s1 files cells "AList.update ?k cc cl0" t1 ?k] c1 rest
    have "keepsCell ?k s1 s'" by simp
    with r1 Some have e: "m_uniqueCellIdToLocation s' ?k = Some cc"
      by (simp add: keepsCell_def)
    from Cons.IH [OF rest] e show ?thesis
      by (auto simp: update_conv' distinct_update)
  qed
qed

text \<open>
  The total of the first loop is the sum of the strengths of these cells, as long as the
  sum stays below \<open>2 ^ 53\<close>: every partial sum is an integer that binary64 has.
\<close>

lemma resolveCells_total:
  assumes "resolveCells files cells s cl0 (Fin (real t0)) = (s', cl, tss)"
    and "t0 + (\<Sum>c\<leftarrow>filter (\<lambda>c. m_uniqueCellIdToLocation s' (uniqueCellId c) \<noteq> None) cells.
                 unat (signalStrength c)) < 2 ^ 53"
  shows "tss = Fin (real (t0 +
           (\<Sum>c\<leftarrow>filter (\<lambda>c. m_uniqueCellIdToLocation s' (uniqueCellId c) \<noteq> None) cells.
                 unat (signalStrength c))))"
  using assms
proof (induction cells arbitrary: s cl0 t0)
  case Nil
  then show ?case by simp
next
  case (Cons cell cells)
  let ?k = "uniqueCellId cell"
  obtain r s1 where r: "resolveCell files ?k s = (r, s1)"
    by (cases "resolveCell files ?k s")
  from resolveCell_result [OF r] have c1: "cached ?k s1" and r1: "r = m_uniqueCellIdToLocation s1 ?k"
    by simp_all
  show ?case
  proof (cases r)
    case None
    with r Cons.prems(1) have rest: "resolveCells files cells s1 cl0 (Fin (real t0)) = (s', cl, tss)"
      by simp
    from resolveCells_props [of s1 files cells cl0 "Fin (real t0)" ?k] c1 rest
    have "keepsCell ?k s1 s'" by simp
    with r1 None have e: "m_uniqueCellIdToLocation s' ?k = None"
      by (simp add: keepsCell_def)
    from Cons.prems(2) e Cons.IH [OF rest] show ?thesis
      by simp
  next
    case (Some cc)
    let ?n = "unat (signalStrength cell)"
    have step: "resolveCells files (cell # cells) s cl0 (Fin (real t0))
        = resolveCells files cells s1 (AList.update ?k cc cl0)
            (dadd (Fin (real t0)) (Fin (real ?n)))"
      using Some r by (simp add: dmul_one_quint32)
    obtain t1 where t1: "dadd (Fin (real t0)) (Fin (real ?n)) = t1"
      by simp
    from step Cons.prems(1)
    have rest0: "resolveCells files cells s1 (AList.update ?k cc cl0) t1 = (s', cl, tss)"
      unfolding t1 by simp
    from resolveCells_props [of s1 files cells "AList.update ?k cc cl0" t1 ?k] c1 rest0
    have "keepsCell ?k s1 s'" by simp
    with r1 Some have e: "m_uniqueCellIdToLocation s' ?k = Some cc"
      by (simp add: keepsCell_def)
    from Cons.prems(2) e
    have bound: "(t0 + ?n) + (\<Sum>c\<leftarrow>filter (\<lambda>c. m_uniqueCellIdToLocation s' (uniqueCellId c) \<noteq> None) cells.
                 unat (signalStrength c)) < 2 ^ 53"
      by (simp add: add.assoc)
    then have "t0 + ?n < 2 ^ 53"
      by linarith
    from dadd_nat [OF this] t1 have "t1 = Fin (real (t0 + ?n))"
      by simp
    with rest0 have rest: "resolveCells files cells s1 (AList.update ?k cc cl0) (Fin (real (t0 + ?n)))
        = (s', cl, tss)"
      by simp
    from Cons.IH [OF rest bound] e show ?thesis
      by (simp add: add.assoc)
  qed
qed

lemma sum_list_strength:
  "(\<Sum>c\<leftarrow>cells. strength c) = real (\<Sum>c\<leftarrow>cells. unat (signalStrength c))"
  by (induction cells) (simp_all add: strength_def)

lemma resolveCells_resolvedCells:
  assumes "resolveCells files cells s [] t0 = (s', cl, tss)"
  shows "resolvedCells cl cells = filter (\<lambda>c. m_uniqueCellIdToLocation s' (uniqueCellId c) \<noteq> None) cells"
    and "distinct (map fst cl)"
    and "fst ` set cl = uniqueCellId ` set (resolvedCells cl cells)"
    and "\<forall>c\<in>set (resolvedCells cl cells).
           map_of cl (uniqueCellId c) = m_uniqueCellIdToLocation s' (uniqueCellId c)"
proof -
  from resolveCells_result [OF assms]
  have m: "\<And>k. map_of cl k =
           (if k \<in> uniqueCellId ` set cells \<and> m_uniqueCellIdToLocation s' k \<noteq> None
            then m_uniqueCellIdToLocation s' k else None)"
    and d: "distinct (map fst cl)"
    by simp_all
  have f: "(map_of cl (uniqueCellId c) \<noteq> None) = (m_uniqueCellIdToLocation s' (uniqueCellId c) \<noteq> None)"
    if "c \<in> set cells" for c
    using that by (simp add: m)
  then show r: "resolvedCells cl cells = filter (\<lambda>c. m_uniqueCellIdToLocation s' (uniqueCellId c) \<noteq> None) cells"
    unfolding resolvedCells_def by (intro filter_cong) auto
  from d show "distinct (map fst cl)" .
  have "fst ` set cl = dom (map_of cl)"
    by (simp add: dom_map_of_conv_image_fst)
  also have "\<dots> = uniqueCellId ` set (resolvedCells cl cells)"
    unfolding r by (auto simp: m dom_def split: if_splits)
  finally show "fst ` set cl = uniqueCellId ` set (resolvedCells cl cells)" .
  show "\<forall>c\<in>set (resolvedCells cl cells).
           map_of cl (uniqueCellId c) = m_uniqueCellIdToLocation s' (uniqueCellId c)"
    unfolding r by (auto simp: m)
qed

lemma resolveCells_totalSignalStrength:
  assumes "resolveCells files cells s [] (Fin 0) = (s', cl, tss)"
    and "(\<Sum>c\<leftarrow>resolvedCells cl cells. strength c) < 2 ^ 53"
  shows "tss = Fin (\<Sum>c\<leftarrow>resolvedCells cl cells. strength c)"
proof -
  let ?n = "\<Sum>c\<leftarrow>filter (\<lambda>c. m_uniqueCellIdToLocation s' (uniqueCellId c) \<noteq> None) cells.
                 unat (signalStrength c)"
  note r = resolveCells_resolvedCells(1) [OF assms(1)]
  from assms(2) have "real ?n < 2 ^ 53"
    unfolding r sum_list_strength .
  then have "?n < 2 ^ 53"
    by (metis of_nat_less_numeral_power_cancel_iff)
  then have b: "0 + ?n < 2 ^ 53"
    by simp
  from assms(1) have "resolveCells files cells s [] (Fin (real 0)) = (s', cl, tss)"
    by simp
  from resolveCells_total [OF this b] show ?thesis
    unfolding r sum_list_strength by simp
qed




text \<open>The first loop leaves every field but the caches and the list of lookups as it is.\<close>

lemma resolveCell_frame:
  "resolveCell files k s = (r, s') \<Longrightarrow>
   s' = s\<lparr>m_uniqueCellIdToLocation := m_uniqueCellIdToLocation s',
          m_knownCellIdsWithUnknownLocations := m_knownCellIdsWithUnknownLocations s',
          lookups := lookups s'\<rparr>"
  by (auto simp: resolveCell_def split: option.splits if_splits)

lemma resolveCells_frame:
  "resolveCells files cells s cl0 t0 = (s', cl, tss) \<Longrightarrow>
   s' = s\<lparr>m_uniqueCellIdToLocation := m_uniqueCellIdToLocation s',
          m_knownCellIdsWithUnknownLocations := m_knownCellIdsWithUnknownLocations s',
          lookups := lookups s'\<rparr>"
proof (induction cells arbitrary: s cl0 t0)
  case Nil
  then show ?case by simp
next
  case (Cons cell cells)
  obtain r s1 where r: "resolveCell files (uniqueCellId cell) s = (r, s1)"
    by (cases "resolveCell files (uniqueCellId cell) s")
  from resolveCell_frame [OF r]
  obtain p n l where s1: "s1 = s\<lparr>m_uniqueCellIdToLocation := p,
          m_knownCellIdsWithUnknownLocations := n, lookups := l\<rparr>"
    by blast
  from r Cons.prems obtain cl1 t1 where "resolveCells files cells s1 cl1 t1 = (s', cl, tss)"
    by (cases r) auto
  from Cons.IH [OF this]
  have "s' = s1\<lparr>m_uniqueCellIdToLocation := m_uniqueCellIdToLocation s',
          m_knownCellIdsWithUnknownLocations := m_knownCellIdsWithUnknownLocations s',
          lookups := lookups s'\<rparr>" .
  then show ?case unfolding s1 by simp
qed

lemma resolveCells_m_currentLocation:
  "resolveCells files cells s cl0 t0 = (s', cl, tss) \<Longrightarrow> m_currentLocation s' = m_currentLocation s"
proof -
  assume "resolveCells files cells s cl0 t0 = (s', cl, tss)"
  from resolveCells_frame [OF this]
  obtain p n l where "s' = s\<lparr>m_uniqueCellIdToLocation := p,
          m_knownCellIdsWithUnknownLocations := n, lookups := l\<rparr>"
    by blast
  then show ?thesis by simp
qed

lemma m_currentLocation_setLocation [simp]: "m_currentLocation (setLocation l s) = l"
  by (simp add: setLocation_def emitLocationChanged_def Let_def)

text \<open>What \<^verbatim>\<open>updateLocationFromCells\<close> makes the current location.\<close>

lemma m_currentLocation_updateLocationFromCells:
  assumes "resolveCells (mlsdb_files w) cells s [] (Fin 0) = (s', cl, tss)"
  shows "m_currentLocation (updateLocationFromCells w cells s) =
     (if length cl = 0 then m_currentLocation s
      else if keepsCurrentLocation (clock_arbitration w) (m_currentLocation s)
                (deviceLocationOf (clock_timestamp w) cells cl tss)
      then m_currentLocation s
      else deviceLocationOf (clock_timestamp w) cells cl tss)"
  using assms resolveCells_m_currentLocation [OF assms]
  by (simp add: updateLocationFromCells_def Let_def)

lemma searchForCellIdLocation_triangle:
  "searchForCellIdLocation triangleFiles cellA = Some \<lparr>lat = Fin 0, lon = Fin 0\<rparr>"
  "searchForCellIdLocation triangleFiles cellB = Some \<lparr>lat = Fin 0, lon = Fin 10\<rparr>"
  "searchForCellIdLocation triangleFiles cellC = Some \<lparr>lat = Fin 10, lon = Fin 0\<rparr>"
  by (simp_all add: triangleFiles_def cellA_def cellB_def cellC_def firstDigitAreaCode_def firstDigit_7
      endsWith_CaseInsensitive_def toLower_def)

lemma triangle_distinct:
  "cellA \<noteq> cellB" "cellA \<noteq> cellC" "cellB \<noteq> cellC" "cellB \<noteq> cellA" "cellC \<noteq> cellA" "cellC \<noteq> cellB"
  by (simp_all add: cellA_def cellB_def cellC_def)

lemma total_triangle:
  "dadd (dadd (dadd (Fin 0) (dmul (Fin 1) (double_of_quint32 n)))
                (dmul (Fin 1) (double_of_quint32 n)))
          (dmul (Fin 1) (double_of_quint32 n))
   = Fin (3 * real (unat n))"
proof -
  let ?k = "unat n"
  have "?k < 2 ^ 32"
    using unsigned_less [of n] by simp
  then have b: "0 + ?k < 2 ^ 53" "?k + ?k < 2 ^ 53" "(?k + ?k) + ?k < 2 ^ 53"
    by simp_all
  have "dadd (Fin 0) (Fin (real ?k)) = Fin (real ?k)"
    using dadd_nat [OF b(1)] by simp
  moreover note dadd_nat [OF b(2)] dadd_nat [OF b(3)]
  ultimately show ?thesis
    by (simp only: dmul_one_quint32) simp
qed

lemma resolveCells_triangle:
  assumes "m_uniqueCellIdToLocation s = Map.empty" "m_knownCellIdsWithUnknownLocations s = {}"
  shows "resolveCells triangleFiles (triangleCells n) s [] (Fin 0) =
     (s\<lparr>m_uniqueCellIdToLocation :=
           [cellA \<mapsto> \<lparr>lat = Fin 0, lon = Fin 0\<rparr>, cellB \<mapsto> \<lparr>lat = Fin 0, lon = Fin 10\<rparr>,
            cellC \<mapsto> \<lparr>lat = Fin 10, lon = Fin 0\<rparr>],
         lookups := lookups s @ [cellA, cellB, cellC]\<rparr>,
      triangleLocations, Fin (3 * real (unat n)))"
proof -
  have "resolveCells triangleFiles (triangleCells n) s [] (Fin 0) =
     (s\<lparr>m_uniqueCellIdToLocation :=
           [cellA \<mapsto> \<lparr>lat = Fin 0, lon = Fin 0\<rparr>, cellB \<mapsto> \<lparr>lat = Fin 0, lon = Fin 10\<rparr>,
            cellC \<mapsto> \<lparr>lat = Fin 10, lon = Fin 0\<rparr>],
         lookups := lookups s @ [cellA, cellB, cellC]\<rparr>,
      triangleLocations,
      dadd (dadd (dadd (Fin 0) (dmul (Fin 1) (double_of_quint32 n)))
                (dmul (Fin 1) (double_of_quint32 n)))
          (dmul (Fin 1) (double_of_quint32 n)))"
    using assms
    by (simp add: triangleCells_def triangleLocations_def resolveCell_def
        searchForCellIdLocation_triangle triangle_distinct)
  then show ?thesis
    unfolding total_triangle .
qed

lemma resolveCells_triangle_members:
  "resolveCells triangleFiles (triangleCells n) YandexProvider_members [] (Fin 0) =
     (triangleResolved, triangleLocations, Fin (3 * real (unat n)))"
proof -
  have "m_uniqueCellIdToLocation YandexProvider_members = Map.empty"
    "m_knownCellIdsWithUnknownLocations YandexProvider_members = {}"
    by (simp_all add: YandexProvider_members_def)
  from resolveCells_triangle [OF this, of n] show ?thesis
    by (simp add: triangleResolved_def YandexProvider_members_def)
qed

text \<open>
  The arithmetic of the three cells. The weight of each is the binary64 number nearest to
  1/3, which is 6004799503160661 / 2 ^ 54; its product with 10 is rounded to
  3752999689475413 / 2 ^ 50, the binary64 number \<^verbatim>\<open>0x1.aaaaaaaaaaaaap+1\<close>, which is the sum.
\<close>

lemma round64_third: "round64 (1 / 3) = Fin (6004799503160661 / 18014398509481984)"
  by (simp add: round64_def floorlog2_def compute_bitlen roundHalfEven_def Let_def)

lemma weight_triangle:
  assumes "n \<noteq> 0"
  shows "ddiv (double_of_quint32 n) (Fin (3 * real (unat n)))
     = Fin (6004799503160661 / 18014398509481984)"
proof -
  from assms have "unat n \<noteq> 0"
    by (simp add: unat_eq_0)
  then have k: "real (unat n) \<noteq> 0"
    by (simp only: of_nat_eq_0_iff not_False_eq_True)
  then have "real (unat n) / (3 * real (unat n)) = 1 / 3"
    by simp
  with k show ?thesis
    by (simp add: double_of_quint32_def round64_third)
qed

lemma dmul_weight_0: "dmul (Fin (6004799503160661 / 18014398509481984)) (Fin 0) = Fin 0"
  by simp

lemma dmul_weight_10:
  "dmul (Fin (6004799503160661 / 18014398509481984)) (Fin 10)
     = Fin (3752999689475413 / 1125899906842624)"
  by (simp add: round64_def floorlog2_def compute_bitlen roundHalfEven_def Let_def)

lemma dadd_triangle:
  "dadd (Fin 0) (Fin 0) = Fin 0"
  "dadd (Fin 0) (Fin (3752999689475413 / 1125899906842624))
     = Fin (3752999689475413 / 1125899906842624)"
  "dadd (Fin (3752999689475413 / 1125899906842624)) (Fin 0)
     = Fin (3752999689475413 / 1125899906842624)"
  by (simp_all add: round64_def floorlog2_def compute_bitlen roundHalfEven_def Let_def)

lemma triangulate_triangle:
  assumes "n \<noteq> 0"
  shows "triangulate (triangleCells n) triangleLocations (Fin (3 * real (unat n))) (Fin 0, Fin 0)
     = (Fin (3752999689475413 / 1125899906842624), Fin (3752999689475413 / 1125899906842624))"
proof -
  have m: "map_of triangleLocations cellA = Some \<lparr>lat = Fin 0, lon = Fin 0\<rparr>"
    "map_of triangleLocations cellB = Some \<lparr>lat = Fin 0, lon = Fin 10\<rparr>"
    "map_of triangleLocations cellC = Some \<lparr>lat = Fin 10, lon = Fin 0\<rparr>"
    by (simp_all add: triangleLocations_def triangle_distinct)
  show ?thesis
    unfolding triangleCells_def
    by (simp only: triangulate.simps m option.case Let_def CellPositioningData.simps
        MlsdbCoords.simps weight_triangle [OF assms] dmul_weight_0 dmul_weight_10 dadd_triangle)
qed

lemma deviceLocationOf_triangle:
  assumes "n \<noteq> 0"
  shows "deviceLocationOf now (triangleCells n) triangleLocations (Fin (3 * real (unat n)))
   = \<lparr>timestamp = now, latitude = Fin (3752999689475413 / 1125899906842624),
       longitude = Fin (3752999689475413 / 1125899906842624), altitude = NaN,
       accuracy = \<lparr>horizontal = Fin 7000, vertical = NaN\<rparr>\<rparr>"
  unfolding deviceLocationOf_def triangulate_triangle [OF assms]
  by (simp add: triangleLocations_def double_of_int_def MinimumCalculatedAccuracy_def
      Location_default_def Accuracy_default_def)

lemma deviceLocationOf_triangle_15:
  "deviceLocationOf 1000000 (triangleCells 15) triangleLocations (Fin 45)
   = \<lparr>timestamp = 1000000, latitude = Fin (3752999689475413 / 1125899906842624),
       longitude = Fin (3752999689475413 / 1125899906842624), altitude = NaN,
       accuracy = \<lparr>horizontal = Fin 7000, vertical = NaN\<rparr>\<rparr>"
  using deviceLocationOf_triangle [of 15 1000000] by simp

lemma deviceLocationOf_triangle_0:
  "deviceLocationOf 1000000 (triangleCells 0) triangleLocations (Fin 0)
   = \<lparr>timestamp = 1000000, latitude = NaN, longitude = NaN, altitude = NaN,
       accuracy = \<lparr>horizontal = Fin 7000, vertical = NaN\<rparr>\<rparr>"
  by (simp add: deviceLocationOf_def triangleCells_def triangleLocations_def triangle_distinct
      double_of_quint32_def double_of_int_def MinimumCalculatedAccuracy_def
      Location_default_def Accuracy_default_def)

lemma triangleWorld_fields:
  "mlsdb_files triangleWorld = triangleFiles" "clock_timestamp triangleWorld = 1000000"
  "clock_arbitration triangleWorld = 1000000"
  by (simp_all add: triangleWorld_def exampleWorld_def)

text \<open>The current location after the triangulation with the three cells.\<close>

lemma updateLocationFromCells_triangle:
  assumes "m_uniqueCellIdToLocation s = Map.empty" "m_knownCellIdsWithUnknownLocations s = {}"
  shows "m_currentLocation (updateLocationFromCells triangleWorld (triangleCells n) s) =
     (if keepsCurrentLocation 1000000 (m_currentLocation s)
           (deviceLocationOf 1000000 (triangleCells n) triangleLocations (Fin (3 * real (unat n))))
      then m_currentLocation s
      else deviceLocationOf 1000000 (triangleCells n) triangleLocations (Fin (3 * real (unat n))))"
proof -
  note r = resolveCells_triangle [OF assms, of n, folded triangleWorld_fields(1)]
  have "length triangleLocations \<noteq> 0"
    by (simp add: triangleLocations_def)
  then show ?thesis
    unfolding m_currentLocation_updateLocationFromCells [OF r]
    by (simp add: triangleWorld_fields)
qed


lemma deviceLocationOf_fields:
  assumes "triangulate cells cl tss (Fin 0, Fin 0) = (la, lo)" "cl \<noteq> []"
  shows "deviceLocationOf now cells cl tss =
     \<lparr>timestamp = now, latitude = la, longitude = lo, altitude = NaN,
      accuracy = \<lparr>horizontal = Fin (real_of_int (max 2500 (10000 - 1000 * int (length cl)))),
                  vertical = NaN\<rparr>\<rparr>"
  using assms
  by (simp add: deviceLocationOf_def double_of_int_def MinimumCalculatedAccuracy_def
      Location_default_def Accuracy_default_def)










section \<open>Cells without signal strength\<close>

lemma triangulate_NaN: "triangulate cells cl tss (NaN, NaN) = (NaN, NaN)"
  by (induction cells) (simp_all add: Let_def split: option.splits)

text \<open>
  When the total is 0 and the first resolved cell has strength 0, its weight is
  \<^verbatim>\<open>0.0 / 0.0\<close>, and both sums are NaN from then on.
\<close>

lemma triangulate_zero:
  assumes "resolvedCells cl cells \<noteq> []"
    and "\<forall>c\<in>set (resolvedCells cl cells). signalStrength c = 0"
  shows "triangulate cells cl (Fin 0) (Fin a, Fin b) = (NaN, NaN)"
  using assms
proof (induction cells)
  case Nil
  then show ?case by (simp add: resolvedCells_def)
next
  case (Cons cell cells)
  show ?case
  proof (cases "map_of cl (uniqueCellId cell)")
    case None
    with Cons.prems have "resolvedCells cl cells \<noteq> []"
      "\<forall>c\<in>set (resolvedCells cl cells). signalStrength c = 0"
      by (simp_all add: resolvedCells_def)
    from Cons.IH [OF this] None show ?thesis by simp
  next
    case (Some cc)
    with Cons.prems have "signalStrength cell = 0"
      by (simp add: resolvedCells_def)
    with Some show ?thesis
      by (simp add: double_of_quint32_def Let_def triangulate_NaN)
  qed
qed

text \<open>
  C4 fails on the code. When every resolved observation has signal strength 0, the total
  is 0, every weight is the quotient \<^verbatim>\<open>0.0 / 0.0\<close>, and the fix that is computed has NaN as
  latitude and as longitude, not 0: the division by zero is performed.
\<close>

theorem zero_strength_gives_NaN:
  "resolveCells files cells s [] (Fin 0) = (s', cellLocations, totalSignalStrength)
     \<and> resolvedCells cellLocations cells \<noteq> []
     \<and> (\<forall>c\<in>set (resolvedCells cellLocations cells). signalStrength c = 0)
   \<longrightarrow> totalSignalStrength = Fin 0
       \<and> latitude (deviceLocationOf now cells cellLocations totalSignalStrength) = NaN
       \<and> longitude (deviceLocationOf now cells cellLocations totalSignalStrength) = NaN
       \<and> timestamp (deviceLocationOf now cells cellLocations totalSignalStrength) = now"
proof
  assume a: "resolveCells files cells s [] (Fin 0) = (s', cellLocations, totalSignalStrength)
     \<and> resolvedCells cellLocations cells \<noteq> []
     \<and> (\<forall>c\<in>set (resolvedCells cellLocations cells). signalStrength c = 0)"
  then have r: "resolveCells files cells s [] (Fin 0) = (s', cellLocations, totalSignalStrength)"
    and ne: "resolvedCells cellLocations cells \<noteq> []"
    and z: "\<forall>c\<in>set (resolvedCells cellLocations cells). signalStrength c = 0"
    by simp_all
  note rc = resolveCells_resolvedCells [OF r]
  have "(\<forall>c\<in>set xs. signalStrength c = 0) \<Longrightarrow> (\<Sum>c\<leftarrow>xs. strength c) = 0" for xs
    by (induction xs) (simp_all add: strength_def)
  from this [OF z] have sum: "(\<Sum>c\<leftarrow>resolvedCells cellLocations cells. strength c) = 0" .
  then have "(\<Sum>c\<leftarrow>resolvedCells cellLocations cells. strength c) < 2 ^ 53" by simp
  from resolveCells_totalSignalStrength [OF r this] sum
  have tss: "totalSignalStrength = Fin 0" by simp
  from ne rc(3) have cl: "cellLocations \<noteq> []" by auto
  have tri: "triangulate cells cellLocations totalSignalStrength (Fin 0, Fin 0) = (NaN, NaN)"
    unfolding tss by (rule triangulate_zero [OF ne z])
  from deviceLocationOf_fields [OF tri cl, of now] tss
  show "totalSignalStrength = Fin 0
       \<and> latitude (deviceLocationOf now cells cellLocations totalSignalStrength) = NaN
       \<and> longitude (deviceLocationOf now cells cellLocations totalSignalStrength) = NaN
       \<and> timestamp (deviceLocationOf now cells cellLocations totalSignalStrength) = now"
    by simp
qed

text \<open>
  The three cells at (0, 0), (0, 10), (10, 0), seen with signal strength 0 by a provider
  without a fix: the new current location has a timestamp and no coordinates.
\<close>

theorem zero_strength_gives_NaN_witness:
  "resolveCells triangleFiles (triangleCells 0) YandexProvider_members [] (Fin 0)
     = (triangleResolved, triangleLocations, Fin 0)
   \<and> resolvedCells triangleLocations (triangleCells 0) = triangleCells 0
   \<and> latitude (deviceLocationOf 1000000 (triangleCells 0) triangleLocations (Fin 0)) = NaN
   \<and> longitude (deviceLocationOf 1000000 (triangleCells 0) triangleLocations (Fin 0)) = NaN
   \<and> m_currentLocation (updateLocationFromCells triangleWorld (triangleCells 0) YandexProvider_members)
       = \<lparr>timestamp = 1000000, latitude = NaN, longitude = NaN, altitude = NaN,
          accuracy = \<lparr>horizontal = Fin 7000, vertical = NaN\<rparr>\<rparr>"
proof -
  have r: "resolveCells triangleFiles (triangleCells 0) YandexProvider_members [] (Fin 0)
     = (triangleResolved, triangleLocations, Fin 0)"
    using resolveCells_triangle_members [of 0] by simp
  have res: "resolvedCells triangleLocations (triangleCells 0) = triangleCells 0"
    by (simp add: resolvedCells_def triangleLocations_def triangleCells_def triangle_distinct)
  have ne: "resolvedCells triangleLocations (triangleCells 0) \<noteq> []"
    unfolding res by (simp add: triangleCells_def)
  have z: "\<forall>c\<in>set (resolvedCells triangleLocations (triangleCells 0)). signalStrength c = 0"
    unfolding res by (simp add: triangleCells_def)
  from r ne z
  have hyp: "resolveCells triangleFiles (triangleCells 0) YandexProvider_members [] (Fin 0)
       = (triangleResolved, triangleLocations, Fin 0)
     \<and> resolvedCells triangleLocations (triangleCells 0) \<noteq> []
     \<and> (\<forall>c\<in>set (resolvedCells triangleLocations (triangleCells 0)). signalStrength c = 0)"
    by blast
  note concl = mp [OF zero_strength_gives_NaN
      [of triangleFiles "triangleCells 0" YandexProvider_members triangleResolved
        triangleLocations "Fin 0" 1000000] hyp]
  from concl have la: "latitude (deviceLocationOf 1000000 (triangleCells 0) triangleLocations (Fin 0)) = NaN"
    and lo: "longitude (deviceLocationOf 1000000 (triangleCells 0) triangleLocations (Fin 0)) = NaN"
    by blast+
  have e: "m_uniqueCellIdToLocation YandexProvider_members = Map.empty"
    "m_knownCellIdsWithUnknownLocations YandexProvider_members = {}"
    by (simp_all add: YandexProvider_members_def)
  have k: "\<not> keepsCurrentLocation t (m_currentLocation YandexProvider_members) l" for t l
    by (simp add: keepsCurrentLocation_def YandexProvider_members_def Location_default_def)
  have cur: "m_currentLocation (updateLocationFromCells triangleWorld (triangleCells 0) YandexProvider_members)
       = \<lparr>timestamp = 1000000, latitude = NaN, longitude = NaN, altitude = NaN,
          accuracy = \<lparr>horizontal = Fin 7000, vertical = NaN\<rparr>\<rparr>"
    unfolding updateLocationFromCells_triangle [OF e]
    using deviceLocationOf_triangle_0 by (simp add: k)
  from r res la lo cur show ?thesis by blast
qed

section \<open>Keeping or replacing the current fix\<close>

text \<open>
  The current location after \<^verbatim>\<open>updateLocationFromCells\<close> has resolved a cell: the old fix when
  it has a timestamp, is younger than 120000 ms and has the smaller accuracy value, the
  new fix otherwise.
\<close>

lemma updateLocationFromCells_arbitration:
  assumes "resolveCells (mlsdb_files w) cells s [] (Fin 0) = (s', cl, tss)" "cl \<noteq> []"
  shows "m_currentLocation (updateLocationFromCells w cells s) =
     (if timestamp (m_currentLocation s) \<noteq> 0
         \<and> clock_arbitration w - timestamp (m_currentLocation s) < 120000
         \<and> dless (horizontal (accuracy (m_currentLocation s)))
              (horizontal (accuracy (deviceLocationOf (clock_timestamp w) cells cl tss)))
      then m_currentLocation s
      else deviceLocationOf (clock_timestamp w) cells cl tss)"
  unfolding m_currentLocation_updateLocationFromCells [OF assms(1)]
  using assms(2) by (simp add: keepsCurrentLocation_def FallbackInterval_def)

text \<open>
  C2 fails on the code at the boundary. The provider holds a fix of accuracy 2500 with
  timestamp 880000; the clock reads 1000000, so that the fix is exactly 120000 ms old, not
  older; the new fix from the three cells has accuracy 7000, which is worse. The claim
  (and the comment above the comparison, "more than two minutes old") keeps the held fix;
  the code, which keeps it only while its age is less than 120000 ms, replaces it.
\<close>

theorem arbitration_at_FallbackInterval:
  "timestamp (m_currentLocation heldFix) \<noteq> 0
   \<and> clock_arbitration triangleWorld - timestamp (m_currentLocation heldFix) = uint FallbackInterval
   \<and> horizontal (accuracy (m_currentLocation heldFix)) = Fin 2500
   \<and> m_currentLocation (updateLocationFromCells triangleWorld (triangleCells 15) heldFix)
       = \<lparr>timestamp = 1000000, latitude = Fin (3752999689475413 / 2 ^ 50),
          longitude = Fin (3752999689475413 / 2 ^ 50), altitude = NaN,
          accuracy = \<lparr>horizontal = Fin 7000, vertical = NaN\<rparr>\<rparr>"
proof -
  have e: "m_uniqueCellIdToLocation heldFix = Map.empty"
    "m_knownCellIdsWithUnknownLocations heldFix = {}"
    by (simp_all add: heldFix_def YandexProvider_members_def)
  have k: "\<not> keepsCurrentLocation 1000000 (m_currentLocation heldFix) l" for l
    by (simp add: keepsCurrentLocation_def heldFix_def FallbackInterval_def)
  have "m_currentLocation (updateLocationFromCells triangleWorld (triangleCells 15) heldFix)
       = \<lparr>timestamp = 1000000, latitude = Fin (3752999689475413 / 2 ^ 50),
          longitude = Fin (3752999689475413 / 2 ^ 50), altitude = NaN,
          accuracy = \<lparr>horizontal = Fin 7000, vertical = NaN\<rparr>\<rparr>"
    unfolding updateLocationFromCells_triangle [OF e]
    using deviceLocationOf_triangle_15 by (simp add: k)
  then show ?thesis
    by (simp add: heldFix_def triangleWorld_fields FallbackInterval_def)
qed

section \<open>A location from the online lookup\<close>

text \<open>
  C3, as the code has it. \<^verbatim>\<open>onlineLocationFound\<close> makes the fix with the clock's value as
  timestamp, the latitude, longitude and accuracy that the lookup returned and no
  altitude, and hands it to \<^verbatim>\<open>setLocation\<close>: it is the current location afterwards, whatever
  fix the provider held; the fix held before is the last location. The comparison of age
  and accuracy is part of \<^verbatim>\<open>updateLocationFromCells\<close> only.
\<close>

theorem onlineLocationFound_always_adopted:
  "m_currentLocation (onlineLocationFound w latitude' longitude' accuracy' s)
     = \<lparr>timestamp = clock_timestamp w, latitude = latitude', longitude = longitude',
        altitude = NaN, accuracy = \<lparr>horizontal = accuracy', vertical = NaN\<rparr>\<rparr>
   \<and> onlineLocationFound w latitude' longitude' accuracy' s
     = setLocation \<lparr>timestamp = clock_timestamp w, latitude = latitude', longitude = longitude',
        altitude = NaN, accuracy = \<lparr>horizontal = accuracy', vertical = NaN\<rparr>\<rparr> s
   \<and> handle w (LocationFound latitude' longitude' accuracy') s
     = Inr (onlineLocationFound w latitude' longitude' accuracy' s)"
  by (simp add: onlineLocationFound_def Let_def Location_default_def Accuracy_default_def)

text \<open>
  C3 fails for a provider that holds a fix of accuracy 100 m which is 10 s old, when the
  online lookup returns a fix of accuracy 5000 m: the test of \<^verbatim>\<open>updateLocationFromCells\<close> would
  keep the held fix, and that function does keep it against the fix of accuracy 7000 m
  from the three cells, but \<^verbatim>\<open>onlineLocationFound\<close> replaces it.
\<close>

theorem onlineLocationFound_counterexample:
  "keepsCurrentLocation (clock_arbitration triangleWorld) (m_currentLocation freshFix)
     \<lparr>timestamp = 1000000, latitude = Fin 50, longitude = Fin 60, altitude = NaN,
      accuracy = \<lparr>horizontal = Fin 5000, vertical = NaN\<rparr>\<rparr>
   \<and> m_currentLocation (updateLocationFromCells triangleWorld (triangleCells 15) freshFix)
       = m_currentLocation freshFix
   \<and> m_currentLocation (onlineLocationFound triangleWorld (Fin 50) (Fin 60) (Fin 5000) freshFix)
       = \<lparr>timestamp = 1000000, latitude = Fin 50, longitude = Fin 60, altitude = NaN,
          accuracy = \<lparr>horizontal = Fin 5000, vertical = NaN\<rparr>\<rparr>
   \<and> m_currentLocation (onlineLocationFound triangleWorld (Fin 50) (Fin 60) (Fin 5000) freshFix)
       \<noteq> m_currentLocation freshFix"
proof -
  have e: "m_uniqueCellIdToLocation freshFix = Map.empty"
    "m_knownCellIdsWithUnknownLocations freshFix = {}"
    by (simp_all add: freshFix_def YandexProvider_members_def)
  have k: "keepsCurrentLocation (clock_arbitration triangleWorld) (m_currentLocation freshFix)
     \<lparr>timestamp = 1000000, latitude = Fin 50, longitude = Fin 60, altitude = NaN,
      accuracy = \<lparr>horizontal = Fin 5000, vertical = NaN\<rparr>\<rparr>"
    by (simp add: keepsCurrentLocation_def freshFix_def FallbackInterval_def triangleWorld_fields)
  have k': "keepsCurrentLocation 1000000 (m_currentLocation freshFix)
     \<lparr>timestamp = 1000000, latitude = Fin (3752999689475413 / 2 ^ 50),
          longitude = Fin (3752999689475413 / 2 ^ 50), altitude = NaN,
       accuracy = \<lparr>horizontal = Fin 7000, vertical = NaN\<rparr>\<rparr>"
    by (simp add: keepsCurrentLocation_def freshFix_def FallbackInterval_def)
  have off: "m_currentLocation (updateLocationFromCells triangleWorld (triangleCells 15) freshFix)
       = m_currentLocation freshFix"
    unfolding updateLocationFromCells_triangle [OF e]
    using deviceLocationOf_triangle_15 k' by simp
  have on: "m_currentLocation (onlineLocationFound triangleWorld (Fin 50) (Fin 60) (Fin 5000) freshFix)
       = \<lparr>timestamp = 1000000, latitude = Fin 50, longitude = Fin 60, altitude = NaN,
          accuracy = \<lparr>horizontal = Fin 5000, vertical = NaN\<rparr>\<rparr>"
    by (simp add: onlineLocationFound_def Let_def Location_default_def Accuracy_default_def
        triangleWorld_fields)
  have "m_currentLocation (onlineLocationFound triangleWorld (Fin 50) (Fin 60) (Fin 5000) freshFix)
       \<noteq> m_currentLocation freshFix"
    unfolding on by (simp add: freshFix_def)
  with k off on show ?thesis by blast
qed

section \<open>SetOptions\<close>

lemma map_of_update_other:
  "other \<noteq> service \<Longrightarrow> map_of (AList.update service data watched) other = map_of watched other"
  by (simp add: update_conv')

text \<open>
  \<^verbatim>\<open>start(updateInterval, this)\<close> takes an \<^verbatim>\<open>int\<close>: a \<^verbatim>\<open>quint32\<close> below \<open>2 ^ 31\<close> arrives as it is, a
  larger one arrives less \<open>2 ^ 32\<close>.
\<close>

lemma sint_quint32:
  "sint (x :: quint32) = (if uint x < 2 ^ 31 then uint x else uint x - 2 ^ 32)"
proof -
  have b: "- (2 ^ 31) \<le> sint x" "sint x < 2 ^ 31"
    using sint_ge [of x] sint_lt [of x] by simp_all
  have u: "uint x = sint x mod 2 ^ 32"
    using uint_sint [of x] by (simp add: take_bit_eq_mod)
  show ?thesis
  proof (cases "sint x < 0")
    case False
    with b have "sint x mod 2 ^ 32 = sint x"
      by (intro mod_pos_pos_trivial) simp_all
    with u b show ?thesis
      by simp
  next
    case True
    have "sint x mod 2 ^ 32 = (sint x + 2 ^ 32) mod 2 ^ 32"
      by simp
    also have "\<dots> = sint x + 2 ^ 32"
      using True b by (intro mod_pos_pos_trivial) simp_all
    finally show ?thesis
      using u True b by simp
  qed
qed

text \<open>
  C8, as the code has it. \<^verbatim>\<open>SetOptions\<close> from a service without an entry in
  \<open>m_watchedServices\<close> returns as any call does, with the state of the provider unchanged:
  there is no error for the caller. From a service with an entry and with an
  \<^verbatim>\<open>UpdateInterval\<close> among the options, it sets the interval of that entry, leaves the other
  entries as they are, and calls \<^verbatim>\<open>start\<close> of \<open>m_recalculatePositionTimer\<close> with the minimum
  interval computed from the new table, converted to \<^verbatim>\<open>int\<close>: the timer is started with the
  minimum interval itself whenever that is below \<open>2 ^ 31\<close> ms; nothing else changes.
  Without an \<^verbatim>\<open>UpdateInterval\<close> it changes nothing. Called from outside D-Bus it is fatal.
\<close>

theorem SetOptions_amended:
  "(map_of (m_watchedServices s) service = None \<longrightarrow> SetOptions True service options s = Inr s)
   \<and> (map_of (m_watchedServices s) service = Some data \<and> options ''UpdateInterval'' = Some interval
      \<longrightarrow> (\<exists>s'. SetOptions True service options s = Inr s'
            \<and> map_of (m_watchedServices s') service = Some (data\<lparr>updateInterval := interval\<rparr>)
            \<and> (\<forall>other. other \<noteq> service \<longrightarrow>
                  map_of (m_watchedServices s') other = map_of (m_watchedServices s) other)
            \<and> m_recalculatePositionTimer s'
                = Started (sint (minimumRequestedUpdateInterval (m_watchedServices s')))
            \<and> (uint (minimumRequestedUpdateInterval (m_watchedServices s')) < 2 ^ 31 \<longrightarrow>
                  m_recalculatePositionTimer s'
                    = Started (uint (minimumRequestedUpdateInterval (m_watchedServices s'))))
            \<and> s' = s\<lparr>m_watchedServices := m_watchedServices s',
                      m_recalculatePositionTimer := m_recalculatePositionTimer s'\<rparr>))
   \<and> (map_of (m_watchedServices s) service = Some data \<and> options ''UpdateInterval'' = None
      \<longrightarrow> SetOptions True service options s = Inr s)
   \<and> SetOptions False service options s = Inl Fatal"
  by (auto simp: SetOptions_def Let_def serviceData_def update_conv' sint_quint32)

text \<open>
  For the provider with the subscribers org.app (no request) and org.map (60000 ms):
  org.app asks for 20000 ms and the timer is started with 20000; a service that is not a
  subscriber asks for 5000 ms and nothing changes; org.map asks for nothing and nothing
  changes. For the provider whose only subscriber is org.app: it asks for 2147483647 ms
  and the timer is started with 2147483647.
\<close>

theorem SetOptions_amended_witness:
  "map_of (m_watchedServices oneSubscriber) ''org.app'' = Some \<lparr>referenceCount = 1, updateInterval = 0\<rparr>
   \<and> intervalOption 20000 ''UpdateInterval'' = Some 20000
   \<and> SetOptions True ''org.app'' (intervalOption 20000) oneSubscriber
       = Inr (oneSubscriber
           \<lparr>m_watchedServices :=
              [(''org.app'', \<lparr>referenceCount = 1, updateInterval = 20000\<rparr>),
               (''org.map'', \<lparr>referenceCount = 1, updateInterval = 60000\<rparr>)],
            m_recalculatePositionTimer := Started 20000\<rparr>)
   \<and> map_of (m_watchedServices oneSubscriber) ''org.other'' = None
   \<and> SetOptions True ''org.other'' (intervalOption 5000) oneSubscriber = Inr oneSubscriber
   \<and> map_of (m_watchedServices oneSubscriber) ''org.map''
       = Some \<lparr>referenceCount = 1, updateInterval = 60000\<rparr>
   \<and> SetOptions True ''org.map'' Map.empty oneSubscriber = Inr oneSubscriber
   \<and> SetOptions True ''org.app'' (intervalOption 2147483647) soleSubscriber
       = Inr (soleSubscriber
           \<lparr>m_watchedServices := [(''org.app'', \<lparr>referenceCount = 1, updateInterval = 2147483647\<rparr>)],
            m_recalculatePositionTimer := Started 2147483647\<rparr>)"
proof -
  have a: "map_of (m_watchedServices oneSubscriber) ''org.app''
      = Some \<lparr>referenceCount = 1, updateInterval = 0\<rparr>"
    by (simp add: oneSubscriber_def)
  have b: "intervalOption 20000 ''UpdateInterval'' = Some 20000"
    by (simp add: intervalOption_def)
  have c: "map_of (m_watchedServices oneSubscriber) ''org.other'' = None"
    by (simp add: oneSubscriber_def)
  from SetOptions_amended [where s = oneSubscriber and service = "''org.other''"
      and options = "intervalOption 5000"] c
  have d: "SetOptions True ''org.other'' (intervalOption 5000) oneSubscriber = Inr oneSubscriber"
    by blast
  have m: "map_of (m_watchedServices oneSubscriber) ''org.map''
      = Some \<lparr>referenceCount = 1, updateInterval = 60000\<rparr>"
    by (simp add: oneSubscriber_def)
  have n: "(Map.empty :: string \<rightharpoonup> quint32) ''UpdateInterval'' = None"
    by simp
  from SetOptions_amended [where s = oneSubscriber and service = "''org.map''"
      and options = Map.empty and data = "\<lparr>referenceCount = 1, updateInterval = 60000\<rparr>"] m n
  have e: "SetOptions True ''org.map'' Map.empty oneSubscriber = Inr oneSubscriber"
    by blast
  from SetOptions_amended [where s = oneSubscriber and service = "''org.app''"
      and options = "intervalOption 20000" and interval = 20000
      and data = "\<lparr>referenceCount = 1, updateInterval = 0\<rparr>"] a b
  obtain s' where s': "SetOptions True ''org.app'' (intervalOption 20000) oneSubscriber = Inr s'"
    and t: "uint (minimumRequestedUpdateInterval (m_watchedServices s')) < 2 ^ 31 \<longrightarrow>
              m_recalculatePositionTimer s'
                = Started (uint (minimumRequestedUpdateInterval (m_watchedServices s')))"
    and f: "s' = oneSubscriber\<lparr>m_watchedServices := m_watchedServices s',
                      m_recalculatePositionTimer := m_recalculatePositionTimer s'\<rparr>"
    by blast
  have w: "m_watchedServices s' =
      [(''org.app'', \<lparr>referenceCount = 1, updateInterval = 20000\<rparr>),
       (''org.map'', \<lparr>referenceCount = 1, updateInterval = 60000\<rparr>)]"
    using s' by (auto simp: SetOptions_def Let_def serviceData_def oneSubscriber_def intervalOption_def)
  have "minimumRequestedUpdateInterval (m_watchedServices s') = 20000"
    unfolding w
    by (simp add: minimumRequestedUpdateInterval_def UINT_MAX_def MinimumInterval_def)
  with t have t': "m_recalculatePositionTimer s' = Started 20000" by simp
  from f have "s' = oneSubscriber\<lparr>m_watchedServices :=
              [(''org.app'', \<lparr>referenceCount = 1, updateInterval = 20000\<rparr>),
               (''org.map'', \<lparr>referenceCount = 1, updateInterval = 60000\<rparr>)],
            m_recalculatePositionTimer := Started 20000\<rparr>"
    unfolding w t' .
  with s' have first: "SetOptions True ''org.app'' (intervalOption 20000) oneSubscriber
       = Inr (oneSubscriber
           \<lparr>m_watchedServices :=
              [(''org.app'', \<lparr>referenceCount = 1, updateInterval = 20000\<rparr>),
               (''org.map'', \<lparr>referenceCount = 1, updateInterval = 60000\<rparr>)],
            m_recalculatePositionTimer := Started 20000\<rparr>)"
    by simp
  have a2: "map_of (m_watchedServices soleSubscriber) ''org.app''
      = Some \<lparr>referenceCount = 1, updateInterval = 0\<rparr>"
    by (simp add: soleSubscriber_def)
  have b2: "intervalOption 2147483647 ''UpdateInterval'' = Some 2147483647"
    by (simp add: intervalOption_def)
  from SetOptions_amended [where s = soleSubscriber and service = "''org.app''"
      and options = "intervalOption 2147483647" and interval = 2147483647
      and data = "\<lparr>referenceCount = 1, updateInterval = 0\<rparr>"] a2 b2
  obtain s2 where s2: "SetOptions True ''org.app'' (intervalOption 2147483647) soleSubscriber = Inr s2"
    and t2: "uint (minimumRequestedUpdateInterval (m_watchedServices s2)) < 2 ^ 31 \<longrightarrow>
              m_recalculatePositionTimer s2
                = Started (uint (minimumRequestedUpdateInterval (m_watchedServices s2)))"
    and f2: "s2 = soleSubscriber\<lparr>m_watchedServices := m_watchedServices s2,
                      m_recalculatePositionTimer := m_recalculatePositionTimer s2\<rparr>"
    by blast
  have w2: "m_watchedServices s2 =
      [(''org.app'', \<lparr>referenceCount = 1, updateInterval = 2147483647\<rparr>)]"
    using s2 by (auto simp: SetOptions_def Let_def serviceData_def soleSubscriber_def intervalOption_def)
  have "minimumRequestedUpdateInterval (m_watchedServices s2) = 2147483647"
    unfolding w2
    by (simp add: minimumRequestedUpdateInterval_def UINT_MAX_def MinimumInterval_def)
  with t2 have t2': "m_recalculatePositionTimer s2 = Started 2147483647" by simp
  from f2 have "s2 = soleSubscriber\<lparr>m_watchedServices :=
              [(''org.app'', \<lparr>referenceCount = 1, updateInterval = 2147483647\<rparr>)],
            m_recalculatePositionTimer := Started 2147483647\<rparr>"
    unfolding w2 t2' .
  with s2 have second: "SetOptions True ''org.app'' (intervalOption 2147483647) soleSubscriber
       = Inr (soleSubscriber
           \<lparr>m_watchedServices := [(''org.app'', \<lparr>referenceCount = 1, updateInterval = 2147483647\<rparr>)],
            m_recalculatePositionTimer := Started 2147483647\<rparr>)"
    by simp
  from a b c d m e first second show ?thesis by blast
qed

text \<open>
  C8 fails in its first part: the call of a service that is not a subscriber returns, as
  a call of a subscriber does; the caller gets no error. It fails in its second part for
  an interval of \<open>2 ^ 31\<close> ms or more: the only subscriber asks for 3000000000 ms, the
  minimum interval is 3000000000 ms, and \<^verbatim>\<open>start\<close> is called with -1294967296.
\<close>

theorem SetOptions_counterexample:
  "map_of (m_watchedServices oneSubscriber) ''org.other'' = None
   \<and> SetOptions True ''org.other'' (intervalOption 5000) oneSubscriber = Inr oneSubscriber
   \<and> \<not> isl (SetOptions True ''org.other'' (intervalOption 5000) oneSubscriber)
   \<and> minimumRequestedUpdateInterval
        [(''org.app'', \<lparr>referenceCount = 1, updateInterval = 3000000000\<rparr>)] = 3000000000
   \<and> SetOptions True ''org.app'' (intervalOption 3000000000) soleSubscriber
       = Inr (soleSubscriber
           \<lparr>m_watchedServices := [(''org.app'', \<lparr>referenceCount = 1, updateInterval = 3000000000\<rparr>)],
            m_recalculatePositionTimer := Started (- 1294967296)\<rparr>)"
  by (simp add: SetOptions_def oneSubscriber_def soleSubscriber_def intervalOption_def
      serviceData_def Let_def minimumRequestedUpdateInterval_def UINT_MAX_def MinimumInterval_def)

section \<open>The status and the fix-lost timer\<close>

lemma statusInv_alt:
  "statusInv s =
     ((fst (fixState s) = StatusAvailable \<longrightarrow> snd (fixState s) = Started FixTimeout)
      \<and> (fst (fixState s) = StatusAcquiring \<longrightarrow> snd (fixState s) = Stopped))"
  by (simp add: fixState_def statusInv_def)

lemma fixState_update [simp]:
  "fixState (s\<lparr>m_positioningEnabled := b\<rparr>) = fixState s"
  "fixState (s\<lparr>m_cellDataAllowed := b\<rparr>) = fixState s"
  "fixState (s\<lparr>m_positioningStarted := b\<rparr>) = fixState s"
  "fixState (s\<lparr>m_mlsdbOnlineLocator := b\<rparr>) = fixState s"
  "fixState (s\<lparr>m_onlinePositioningEnabled := b\<rparr>) = fixState s"
  "fixState (s\<lparr>m_onlineDataAllowed := b\<rparr>) = fixState s"
  "fixState (s\<lparr>m_wlanDataAllowed := b\<rparr>) = fixState s"
  "fixState (s\<lparr>m_cellWatcher := b\<rparr>) = fixState s"
  "fixState (s\<lparr>m_signalUpdateCell := b\<rparr>) = fixState s"
  "fixState (s\<lparr>m_signalUpdateWlan := b\<rparr>) = fixState s"
  "fixState (s\<lparr>m_currentLocation := l\<rparr>) = fixState s"
  "fixState (s\<lparr>m_lastLocation := l\<rparr>) = fixState s"
  "fixState (s\<lparr>m_watchedServices := ws\<rparr>) = fixState s"
  "fixState (s\<lparr>m_previousQuery := q\<rparr>) = fixState s"
  "fixState (s\<lparr>m_uniqueCellIdToLocation := p\<rparr>) = fixState s"
  "fixState (s\<lparr>m_knownCellIdsWithUnknownLocations := n\<rparr>) = fixState s"
  "fixState (s\<lparr>m_idleTimer := t\<rparr>) = fixState s"
  "fixState (s\<lparr>m_recalculatePositionTimer := t\<rparr>) = fixState s"
  "fixState (s\<lparr>signals := sg\<rparr>) = fixState s"
  "fixState (s\<lparr>lookups := lk\<rparr>) = fixState s"
  by (simp_all add: fixState_def)

lemma fixState_emitLocationChanged [simp]: "fixState (emitLocationChanged s) = fixState s"
  by (simp add: emitLocationChanged_def)

lemma fixState_setLocation:
  "fixState (setLocation l s) =
     (if timestamp l \<noteq> 0 then (StatusAvailable, Started FixTimeout) else fixState s)"
  by (simp add: setLocation_def Let_def) (simp add: fixState_def setStatus_def)

lemma statusInv_setLocation: "statusInv s \<Longrightarrow> statusInv (setLocation l s)"
  using fixState_setLocation [of l s]
  by (auto simp: statusInv_def fixState_def split: if_splits)

lemma fixState_stopPositioningIfNeeded:
  "fixState (stopPositioningIfNeeded s) = fixState s
   \<or> fixState (stopPositioningIfNeeded s) = (StatusUnavailable, Stopped)"
  by (simp add: stopPositioningIfNeeded_def) (simp add: fixState_def setStatus_def)

lemma statusInv_stopPositioningIfNeeded: "statusInv s \<Longrightarrow> statusInv (stopPositioningIfNeeded s)"
  using fixState_stopPositioningIfNeeded [of s]
  by (auto simp: statusInv_def fixState_def)

lemma fixState_resolveCells:
  "fixState (fst (resolveCells files cells s cl t)) = fixState s"
proof -
  obtain s' cl' t' where r: "resolveCells files cells s cl t = (s', cl', t')"
    by (cases "resolveCells files cells s cl t")
  from resolveCells_frame [OF r]
  obtain p n l where "s' = s\<lparr>m_uniqueCellIdToLocation := p,
          m_knownCellIdsWithUnknownLocations := n, lookups := l\<rparr>"
    by blast
  with r show ?thesis by simp
qed

lemma statusInv_updateLocationFromCells:
  assumes "statusInv s"
  shows "statusInv (updateLocationFromCells w cells s)"
proof -
  obtain s' cl t where r: "resolveCells (mlsdb_files w) cells s [] (Fin 0) = (s', cl, t)"
    by (cases "resolveCells (mlsdb_files w) cells s [] (Fin 0)")
  from fixState_resolveCells [of "mlsdb_files w" cells s "[]" "Fin 0"] r
  have "fixState s' = fixState s" by simp
  with assms have "statusInv s'"
    by (simp add: statusInv_alt)
  with r show ?thesis
    by (simp add: updateLocationFromCells_def Let_def statusInv_setLocation)
qed

lemma statusInv_calculatePositionAndEmitLocation:
  assumes "statusInv s"
  shows "statusInv (calculatePositionAndEmitLocation w s)"
proof -
  have "statusInv (s\<lparr>m_mlsdbOnlineLocator := True\<rparr>)"
    using assms by (simp add: statusInv_alt)
  moreover have "statusInv (s1\<lparr>m_previousQuery := q\<rparr>) = statusInv s1" for s1 q
    by (simp add: statusInv_alt)
  ultimately show ?thesis
    using assms
    by (simp add: calculatePositionAndEmitLocation_def Let_def statusInv_updateLocationFromCells)
qed

lemma statusInv_startPositioningIfNeeded:
  assumes "statusInv s"
  shows "statusInv (startPositioningIfNeeded w s)"
proof -
  have "statusInv (s\<lparr>m_idleTimer := Stopped, m_positioningStarted := True\<rparr>)"
    using assms by (simp add: statusInv_alt)
  then have "statusInv (calculatePositionAndEmitLocation w
      (s\<lparr>m_idleTimer := Stopped, m_positioningStarted := True\<rparr>))"
    by (rule statusInv_calculatePositionAndEmitLocation)
  moreover have "statusInv (s1\<lparr>m_recalculatePositionTimer := x\<rparr>) = statusInv s1" for s1 x
    by (simp add: statusInv_alt)
  ultimately show ?thesis
    using assms by (simp add: startPositioningIfNeeded_def Let_def)
qed

lemma statusInv_timerEvent:
  assumes "statusInv s"
  shows "statusInv (timerEvent w event s)"
proof -
  have a: "statusInv (s\<lparr>m_idleTimer := Stopped, signals := signals s @ [Quit]\<rparr>)"
    using assms by (simp add: statusInv_alt)
  have b: "statusInv (setStatus StatusAcquiring (s\<lparr>m_fixLostTimer := Stopped\<rparr>))"
    using assms by (simp add: statusInv_def setStatus_def)
  have "statusInv (s\<lparr>m_signalUpdateCell := False, m_signalUpdateWlan := False\<rparr>)"
    using assms by (simp add: statusInv_alt)
  then have c: "statusInv (calculatePositionAndEmitLocation w
      (s\<lparr>m_signalUpdateCell := False, m_signalUpdateWlan := False\<rparr>))"
    by (rule statusInv_calculatePositionAndEmitLocation)
  from a b c assms show ?thesis
    by (simp add: timerEvent_def Let_def statusInv_setLocation)
qed

lemma statusInv_watched: "statusInv (s\<lparr>m_watchedServices := ws\<rparr>) = statusInv s"
  "statusInv (s\<lparr>m_idleTimer := t\<rparr>) = statusInv s"
  "statusInv (s\<lparr>m_recalculatePositionTimer := t\<rparr>) = statusInv s"
  "statusInv (s\<lparr>m_positioningEnabled := b\<rparr>) = statusInv s"
  "statusInv (s\<lparr>m_onlinePositioningEnabled := b\<rparr>) = statusInv s"
  "statusInv (s\<lparr>m_signalUpdateCell := b\<rparr>) = statusInv s"
  "statusInv (s\<lparr>m_signalUpdateWlan := b\<rparr>) = statusInv s"
  by (simp_all add: statusInv_alt)

lemma statusInv_AddReference:
  "statusInv s \<Longrightarrow> AddReference w fromDBus service s = Inr s' \<Longrightarrow> statusInv s'"
  by (auto simp: AddReference_def Let_def statusInv_watched split: if_splits
      intro!: statusInv_startPositioningIfNeeded)

lemma statusInv_RemoveReference:
  "statusInv s \<Longrightarrow> RemoveReference fromDBus service s = Inr s' \<Longrightarrow> statusInv s'"
  by (auto simp: RemoveReference_def Let_def statusInv_watched split: if_splits
      intro!: statusInv_stopPositioningIfNeeded)

lemma statusInv_SetOptions:
  "statusInv s \<Longrightarrow> SetOptions fromDBus service options s = Inr s' \<Longrightarrow> statusInv s'"
  by (auto simp: SetOptions_def Let_def statusInv_watched split: if_splits option.splits)

lemma statusInv_serviceUnregistered:
  "statusInv s \<Longrightarrow> statusInv (serviceUnregistered service s)"
  by (auto simp: serviceUnregistered_def Let_def statusInv_watched
      intro!: statusInv_stopPositioningIfNeeded)

lemma fixState_updateDataAllowed [simp]:
  "fixState (updateOnlineDataAllowed v s) = fixState s"
  "fixState (updateCellDataAllowed v s) = fixState s"
  "fixState (updateWlanDataAllowed v s) = fixState s"
  by (simp_all add: updateOnlineDataAllowed_def updateCellDataAllowed_def
      updateWlanDataAllowed_def Let_def)

lemma statusInv_updatePositioningEnabled:
  assumes "statusInv s"
  shows "statusInv (updatePositioningEnabled w s)"
proof -
  have s4: "statusInv (updateWlanDataAllowed wda (updateCellDataAllowed cda
        (updateOnlineDataAllowed oda (s\<lparr>m_onlinePositioningEnabled := ope\<rparr>))))" for wda cda oda ope
    using assms by (simp add: statusInv_alt)
  show ?thesis
    by (simp add: updatePositioningEnabled_def Let_def s4 statusInv_watched
        statusInv_startPositioningIfNeeded statusInv_stopPositioningIfNeeded
        statusInv_setLocation split: prod.splits)
qed

lemma statusInv_handle: "statusInv s \<Longrightarrow> handle w event s = Inr s' \<Longrightarrow> statusInv s'"
proof (cases event)
  case (CallAddReference b service)
  assume "statusInv s" "handle w event s = Inr s'"
  with CallAddReference show ?thesis using statusInv_AddReference by auto
next
  case (CallRemoveReference b service)
  assume "statusInv s" "handle w event s = Inr s'"
  with CallRemoveReference show ?thesis using statusInv_RemoveReference by auto
next
  case (CallSetOptions b service options)
  assume "statusInv s" "handle w event s = Inr s'"
  with CallSetOptions show ?thesis using statusInv_SetOptions by auto
next
  case (Timer e)
  assume "statusInv s" "handle w event s = Inr s'"
  with Timer show ?thesis using statusInv_timerEvent by auto
next
  case (LocationFound la lo ac)
  assume "statusInv s" "handle w event s = Inr s'"
  with LocationFound show ?thesis
    by (auto simp: onlineLocationFound_def Let_def statusInv_setLocation)
next
  case LocationError
  assume "statusInv s" "handle w event s = Inr s'"
  with LocationError show ?thesis
    by (auto simp: onlineLocationError_def statusInv_updateLocationFromCells)
next
  case WlanChanged
  assume "statusInv s" "handle w event s = Inr s'"
  with WlanChanged show ?thesis
    by (auto simp: onlineWlanChanged_def statusInv_watched)
next
  case CellsChanged
  assume "statusInv s" "handle w event s = Inr s'"
  with CellsChanged show ?thesis
    by (auto simp: cellularNetworkRegistrationChanged_def statusInv_watched)
next
  case SettingsChanged
  assume "statusInv s" "handle w event s = Inr s'"
  with SettingsChanged show ?thesis using statusInv_updatePositioningEnabled by auto
next
  case (ServiceUnregistered service)
  assume "statusInv s" "handle w event s = Inr s'"
  with ServiceUnregistered show ?thesis using statusInv_serviceUnregistered by auto
qed

lemma statusInv_new: "statusInv (YandexProvider_new w)"
proof -
  have "statusInv YandexProvider_members"
    by (simp add: statusInv_def YandexProvider_members_def)
  then have "statusInv (updatePositioningEnabled w YandexProvider_members)"
    by (rule statusInv_updatePositioningEnabled)
  then show ?thesis
    by (simp add: YandexProvider_new_def Let_def cellularNetworkRegistrationChanged_def
        statusInv_watched)
qed

lemma reachable_statusInv: "reachable s \<Longrightarrow> statusInv s"
proof (induction rule: reachable.induct)
  case (reachable_new w)
  show ?case by (rule statusInv_new)
next
  case (reachable_handle s w event s')
  then show ?case using statusInv_handle by blast
qed

text \<open>A triangulation that resolves a cell makes the status Available, unless the clock reads 0.\<close>

lemma fixState_updateLocationFromCells:
  assumes "resolveCells (mlsdb_files w) cells s [] (Fin 0) = (s', cl, tss)"
    and "cl \<noteq> []" and "clock_timestamp w \<noteq> 0"
  shows "fixState (updateLocationFromCells w cells s) = (StatusAvailable, Started FixTimeout)"
proof -
  obtain la lo where "triangulate cells cl tss (Fin 0, Fin 0) = (la, lo)"
    by (cases "triangulate cells cl tss (Fin 0, Fin 0)")
  from deviceLocationOf_fields [OF this assms(2), of "clock_timestamp w"] assms(3)
  have dev: "timestamp (deviceLocationOf (clock_timestamp w) cells cl tss) \<noteq> 0"
    by simp
  have cur: "timestamp (m_currentLocation s') \<noteq> 0"
    if "keepsCurrentLocation t (m_currentLocation s') l" for t l
    using that by (simp add: keepsCurrentLocation_def)
  from assms(1,2) dev cur show ?thesis
    by (auto simp: updateLocationFromCells_def Let_def fixState_setLocation)
qed

lemma m_status_startedProvider: "m_status startedProvider = StatusAvailable"
proof -
  let ?s0 = "YandexProvider_new exampleWorld"
  let ?s1 = "?s0\<lparr>m_watchedServices := [(''org.app'', \<lparr>referenceCount = 1, updateInterval = 0\<rparr>)],
      m_idleTimer := Stopped\<rparr>"
  let ?s2 = "?s1\<lparr>m_idleTimer := Stopped, m_positioningStarted := True\<rparr>"
  let ?cells = "[\<lparr>uniqueCellId = cell11, signalStrength = 20\<rparr>, \<lparr>uniqueCellId = cell13, signalStrength = 9\<rparr>]"
  have s0: "m_watchedServices ?s0 = []" "\<not> m_positioningStarted ?s0" "m_positioningEnabled ?s0"
    "m_cellDataAllowed ?s0" "\<not> m_onlinePositioningEnabled ?s0"
    "m_uniqueCellIdToLocation ?s0 = Map.empty" "m_knownCellIdsWithUnknownLocations ?s0 = {}"
    by (simp_all add: YandexProvider_new_exampleWorld YandexProvider_members_def)
  have a: "startedProvider = startPositioningIfNeeded exampleWorld ?s1"
    using s0 by (simp add: startedProvider_def AddReference_def Let_def serviceData_def ServiceData_default_def)
  have b: "fixState (startPositioningIfNeeded exampleWorld ?s1)
      = fixState (updateLocationFromCells exampleWorld (seenCellIds exampleWorld ?s2) ?s2)"
    using s0 by (simp add: startPositioningIfNeeded_def calculatePositionAndEmitLocation_def Let_def)
  have c: "seenCellIds exampleWorld ?s2 = ?cells"
    using s0 by (simp add: seenCellIds_exampleWorld_allowed)
  have p1: "m_uniqueCellIdToLocation ?s2 = Map.empty" using s0 by simp
  have p2: "m_knownCellIdsWithUnknownLocations ?s2 = {}" using s0 by simp
  note r = resolveCells_example [OF p1 p2, folded mlsdb_files_exampleWorld]
  have t: "clock_timestamp exampleWorld \<noteq> 0"
    by (simp add: exampleWorld_def)
  have "fixState (updateLocationFromCells exampleWorld ?cells ?s2)
      = (StatusAvailable, Started FixTimeout)"
    by (rule fixState_updateLocationFromCells [OF r _ t]) simp
  with a b c show ?thesis
    by (simp add: fixState_def)
qed

text \<open>
  C9, as the code has it. The time of the claim is the timer's: \<open>m_fixLostTimer\<close> is started
  with \<open>FixTimeout\<close>, 30000 ms, by every \<^verbatim>\<open>setLocation\<close> of a fix with a timestamp, which is
  also what makes the status Available. In status Available the event of the timer stops
  it, makes the status Acquiring and emits one \<^verbatim>\<open>StatusChanged\<close>; a further event of the timer
  finds it stopped and changes nothing. In every state of a run the timer is started with
  \<open>FixTimeout\<close> while the status is Available, and stopped while the status is Acquiring.
  \<^verbatim>\<open>setLocation\<close> is called with a new fix, and also with the fix that the provider holds:
  by the recalculation timer while the fix is at most \<open>ReuseInterval\<close> old and neither the
  cells nor the wireless networks have changed, and by \<^verbatim>\<open>updateLocationFromCells\<close> when it keeps
  the current fix. Either call leaves the current fix as it is, makes the status
  Available and starts the timer again: the change from Available to Acquiring happens
  once for each call of \<^verbatim>\<open>setLocation\<close>, not once for each new fix.
\<close>

theorem fixLost_until_rearmed:
  "(m_status s = StatusAvailable \<and> isActive (m_fixLostTimer s) \<longrightarrow>
      m_status (timerEvent w FixLostTimer s) = StatusAcquiring
      \<and> m_fixLostTimer (timerEvent w FixLostTimer s) = Stopped
      \<and> signals (timerEvent w FixLostTimer s) = signals s @ [StatusChanged StatusAcquiring]
      \<and> timerEvent w' FixLostTimer (timerEvent w FixLostTimer s) = timerEvent w FixLostTimer s)
   \<and> (timestamp location \<noteq> 0 \<longrightarrow>
        m_status (setLocation location s) = StatusAvailable
        \<and> m_fixLostTimer (setLocation location s) = Started FixTimeout)
   \<and> FixTimeout = 30000
   \<and> (reachable s \<longrightarrow>
        (m_status s = StatusAvailable \<longrightarrow> m_fixLostTimer s = Started FixTimeout)
        \<and> (m_status s = StatusAcquiring \<longrightarrow> m_fixLostTimer s = Stopped))
   \<and> (isActive (m_recalculatePositionTimer s) \<and> m_positioningEnabled s
        \<and> timestamp (m_currentLocation s) \<noteq> 0
        \<and> clock_timerEvent w - timestamp (m_currentLocation s) \<le> uint ReuseInterval
        \<and> \<not> m_signalUpdateCell s \<and> \<not> m_signalUpdateWlan s
      \<longrightarrow> timerEvent w RecalculatePositionTimer s = setLocation (m_currentLocation s) s
          \<and> m_currentLocation (timerEvent w RecalculatePositionTimer s) = m_currentLocation s
          \<and> m_status (timerEvent w RecalculatePositionTimer s) = StatusAvailable
          \<and> m_fixLostTimer (timerEvent w RecalculatePositionTimer s) = Started FixTimeout)
   \<and> (resolveCells (mlsdb_files w) cells s [] (Fin 0) = (s', cellLocations, totalSignalStrength)
        \<and> cellLocations \<noteq> []
        \<and> keepsCurrentLocation (clock_arbitration w) (m_currentLocation s)
             (deviceLocationOf (clock_timestamp w) cells cellLocations totalSignalStrength)
      \<longrightarrow> updateLocationFromCells w cells s = setLocation (m_currentLocation s) s'
          \<and> m_currentLocation (updateLocationFromCells w cells s) = m_currentLocation s
          \<and> m_status (updateLocationFromCells w cells s) = StatusAvailable
          \<and> m_fixLostTimer (updateLocationFromCells w cells s) = Started FixTimeout)"
proof -
  have arm: "m_status (setLocation l t) = StatusAvailable
      \<and> m_fixLostTimer (setLocation l t) = Started FixTimeout" if "timestamp l \<noteq> 0" for l t
  proof -
    from that fixState_setLocation [of l t]
    have "fixState (setLocation l t) = (StatusAvailable, Started FixTimeout)"
      by simp
    then show ?thesis
      by (simp add: fixState_def)
  qed
  have lost: "m_status (timerEvent w FixLostTimer s) = StatusAcquiring
      \<and> m_fixLostTimer (timerEvent w FixLostTimer s) = Stopped
      \<and> signals (timerEvent w FixLostTimer s) = signals s @ [StatusChanged StatusAcquiring]
      \<and> timerEvent w' FixLostTimer (timerEvent w FixLostTimer s) = timerEvent w FixLostTimer s"
    if a: "m_status s = StatusAvailable \<and> isActive (m_fixLostTimer s)"
  proof -
    from a have e: "timerEvent w FixLostTimer s
        = s\<lparr>m_fixLostTimer := Stopped, m_status := StatusAcquiring,
             signals := signals s @ [StatusChanged StatusAcquiring]\<rparr>"
      by (simp add: timerEvent_def setStatus_def)
    show ?thesis
      unfolding e by (simp add: timerEvent_def)
  qed
  have inv: "(m_status s = StatusAvailable \<longrightarrow> m_fixLostTimer s = Started FixTimeout)
        \<and> (m_status s = StatusAcquiring \<longrightarrow> m_fixLostTimer s = Stopped)" if "reachable s"
    using reachable_statusInv [OF that] by (simp add: statusInv_def)
  have reuse: "timerEvent w RecalculatePositionTimer s = setLocation (m_currentLocation s) s
          \<and> m_currentLocation (timerEvent w RecalculatePositionTimer s) = m_currentLocation s
          \<and> m_status (timerEvent w RecalculatePositionTimer s) = StatusAvailable
          \<and> m_fixLostTimer (timerEvent w RecalculatePositionTimer s) = Started FixTimeout"
    if a: "isActive (m_recalculatePositionTimer s) \<and> m_positioningEnabled s
        \<and> timestamp (m_currentLocation s) \<noteq> 0
        \<and> clock_timerEvent w - timestamp (m_currentLocation s) \<le> uint ReuseInterval
        \<and> \<not> m_signalUpdateCell s \<and> \<not> m_signalUpdateWlan s"
  proof -
    from a have e: "timerEvent w RecalculatePositionTimer s = setLocation (m_currentLocation s) s"
      by (simp add: timerEvent_def Let_def)
    from a arm [of "m_currentLocation s" s] show ?thesis
      unfolding e by simp
  qed
  have keep: "updateLocationFromCells w cells s = setLocation (m_currentLocation s) s'
          \<and> m_currentLocation (updateLocationFromCells w cells s) = m_currentLocation s
          \<and> m_status (updateLocationFromCells w cells s) = StatusAvailable
          \<and> m_fixLostTimer (updateLocationFromCells w cells s) = Started FixTimeout"
    if a: "resolveCells (mlsdb_files w) cells s [] (Fin 0) = (s', cellLocations, totalSignalStrength)
        \<and> cellLocations \<noteq> []
        \<and> keepsCurrentLocation (clock_arbitration w) (m_currentLocation s)
             (deviceLocationOf (clock_timestamp w) cells cellLocations totalSignalStrength)"
  proof -
    from a have r: "resolveCells (mlsdb_files w) cells s [] (Fin 0) = (s', cellLocations, totalSignalStrength)"
      by simp
    note c = resolveCells_m_currentLocation [OF r]
    from a c have e: "updateLocationFromCells w cells s = setLocation (m_currentLocation s) s'"
      by (simp add: updateLocationFromCells_def Let_def)
    from a have "timestamp (m_currentLocation s) \<noteq> 0"
      by (simp add: keepsCurrentLocation_def)
    from arm [OF this, of s'] show ?thesis
      unfolding e by simp
  qed
  have ft: "FixTimeout = 30000"
    by (simp add: FixTimeout_def)
  from lost arm [of location s] inv reuse keep ft show ?thesis
    by blast
qed

text \<open>
  The provider that holds a fresh fix loses it once; \<^verbatim>\<open>setLocation\<close> of a fix with timestamp
  990000 makes a new provider Available; the provider of \<open>exampleWorld\<close> is Available after
  its first subscriber has arrived, with the timer started; the recalculation timer, 10 s
  after the fix, and the triangulation with three cells, whose fix is less accurate, set
  the fresh fix again.
\<close>

theorem fixLost_until_rearmed_witness:
  "m_status freshFix = StatusAvailable \<and> isActive (m_fixLostTimer freshFix)
   \<and> m_status (timerEvent exampleWorld FixLostTimer freshFix) = StatusAcquiring
   \<and> m_fixLostTimer (timerEvent exampleWorld FixLostTimer freshFix) = Stopped
   \<and> signals (timerEvent exampleWorld FixLostTimer freshFix) = [StatusChanged StatusAcquiring]
   \<and> timerEvent exampleWorld FixLostTimer (timerEvent exampleWorld FixLostTimer freshFix)
       = timerEvent exampleWorld FixLostTimer freshFix
   \<and> timestamp (m_currentLocation freshFix) \<noteq> 0
   \<and> m_status (setLocation (m_currentLocation freshFix) YandexProvider_members) = StatusAvailable
   \<and> m_fixLostTimer (setLocation (m_currentLocation freshFix) YandexProvider_members) = Started 30000
   \<and> reachable startedProvider
   \<and> m_status startedProvider = StatusAvailable
   \<and> m_fixLostTimer startedProvider = Started 30000
   \<and> clock_timerEvent exampleWorld - timestamp (m_currentLocation reuseState) = 10000
   \<and> timerEvent exampleWorld RecalculatePositionTimer reuseState
       = setLocation (m_currentLocation reuseState) reuseState
   \<and> m_status (timerEvent exampleWorld RecalculatePositionTimer reuseState) = StatusAvailable
   \<and> m_fixLostTimer (timerEvent exampleWorld RecalculatePositionTimer reuseState) = Started 30000
   \<and> m_currentLocation (updateLocationFromCells triangleWorld (triangleCells 15) freshFix)
       = m_currentLocation freshFix
   \<and> m_status (updateLocationFromCells triangleWorld (triangleCells 15) freshFix) = StatusAvailable
   \<and> m_fixLostTimer (updateLocationFromCells triangleWorld (triangleCells 15) freshFix) = Started 30000"
proof -
  have a: "m_status freshFix = StatusAvailable \<and> isActive (m_fixLostTimer freshFix)"
    by (simp add: freshFix_def)
  have sg: "signals freshFix = []"
    by (simp add: freshFix_def YandexProvider_members_def)
  have ts: "timestamp (m_currentLocation freshFix) \<noteq> 0"
    by (simp add: freshFix_def)
  note t1 = fixLost_until_rearmed [where s = freshFix and w = exampleWorld and w' = exampleWorld]
  from t1 a have b: "m_status (timerEvent exampleWorld FixLostTimer freshFix) = StatusAcquiring"
    "m_fixLostTimer (timerEvent exampleWorld FixLostTimer freshFix) = Stopped"
    "signals (timerEvent exampleWorld FixLostTimer freshFix) = signals freshFix @ [StatusChanged StatusAcquiring]"
    "timerEvent exampleWorld FixLostTimer (timerEvent exampleWorld FixLostTimer freshFix)
       = timerEvent exampleWorld FixLostTimer freshFix"
    by blast+
  note t2 = fixLost_until_rearmed [where s = YandexProvider_members and location = "m_currentLocation freshFix"]
  from t2 ts have c: "m_status (setLocation (m_currentLocation freshFix) YandexProvider_members) = StatusAvailable"
    "m_fixLostTimer (setLocation (m_currentLocation freshFix) YandexProvider_members) = Started FixTimeout"
    by blast+
  note t3 = fixLost_until_rearmed [where s = startedProvider]
  from t3 reachable_startedProvider m_status_startedProvider
  have d: "m_fixLostTimer startedProvider = Started FixTimeout"
    by blast
  have age: "clock_timerEvent exampleWorld - timestamp (m_currentLocation reuseState) = 10000"
    by (simp add: exampleWorld_def reuseState_def freshFix_def)
  have h5: "isActive (m_recalculatePositionTimer reuseState) \<and> m_positioningEnabled reuseState
        \<and> timestamp (m_currentLocation reuseState) \<noteq> 0
        \<and> clock_timerEvent exampleWorld - timestamp (m_currentLocation reuseState) \<le> uint ReuseInterval
        \<and> \<not> m_signalUpdateCell reuseState \<and> \<not> m_signalUpdateWlan reuseState"
    unfolding age
    by (simp add: reuseState_def freshFix_def YandexProvider_members_def ReuseInterval_def)
  note t5 = fixLost_until_rearmed [where s = reuseState and w = exampleWorld]
  from t5 h5 have e: "timerEvent exampleWorld RecalculatePositionTimer reuseState
       = setLocation (m_currentLocation reuseState) reuseState"
    "m_status (timerEvent exampleWorld RecalculatePositionTimer reuseState) = StatusAvailable"
    "m_fixLostTimer (timerEvent exampleWorld RecalculatePositionTimer reuseState) = Started FixTimeout"
    by blast+
  have e6: "m_uniqueCellIdToLocation freshFix = Map.empty"
    "m_knownCellIdsWithUnknownLocations freshFix = {}"
    by (simp_all add: freshFix_def YandexProvider_members_def)
  note r = resolveCells_triangle [OF e6, of 15, folded triangleWorld_fields(1)]
  have k: "keepsCurrentLocation (clock_arbitration triangleWorld) (m_currentLocation freshFix)
      (deviceLocationOf (clock_timestamp triangleWorld) (triangleCells 15) triangleLocations
         (Fin (3 * real (unat (15 :: quint32)))))"
    unfolding triangleWorld_fields using deviceLocationOf_triangle [of 15 1000000]
    by (simp add: keepsCurrentLocation_def freshFix_def FallbackInterval_def)
  have ne: "triangleLocations \<noteq> []"
    by (simp add: triangleLocations_def)
  note t6 = fixLost_until_rearmed [where s = freshFix and w = triangleWorld
      and cells = "triangleCells 15" and cellLocations = triangleLocations
      and totalSignalStrength = "Fin (3 * real (unat (15 :: quint32)))"]
  from t6 r ne k
  have f: "m_currentLocation (updateLocationFromCells triangleWorld (triangleCells 15) freshFix)
       = m_currentLocation freshFix"
    "m_status (updateLocationFromCells triangleWorld (triangleCells 15) freshFix) = StatusAvailable"
    "m_fixLostTimer (updateLocationFromCells triangleWorld (triangleCells 15) freshFix) = Started FixTimeout"
    by blast+
  from a b c d e f ts age reachable_startedProvider m_status_startedProvider show ?thesis
    by (simp add: sg FixTimeout_def)
qed

section \<open>A fix that is lost twice\<close>

lemma YandexProvider_new_threeCellWorld:
  "YandexProvider_new threeCellWorld =
     YandexProvider_members\<lparr>m_positioningEnabled := True, m_cellDataAllowed := True,
       m_onlineDataAllowed := True, m_wlanDataAllowed := True, m_cellWatcher := True,
       m_signalUpdateCell := True, m_idleTimer := Started QuitIdleTime\<rparr>"
  by (simp add: YandexProvider_new_def updatePositioningEnabled_def getEnabled_def
      threeCellWorld_def exampleWorld_def exampleSettings_def settingsValue_def YandexProvider_members_def
      updateOnlineDataAllowed_def updateCellDataAllowed_def updateWlanDataAllowed_def
      startPositioningIfNeeded_def cellularNetworkRegistrationChanged_def Let_def)

lemma seenCellIds_threeCellWorld:
  "m_cellDataAllowed s \<Longrightarrow> seenCellIds threeCellWorld s = triangleCells 15"
  by (simp add: seenCellIds_def threeCellWorld_def exampleWorld_def lteCell_def triangleCells_def
      cellIdentity_def cellTypeOf_def InvalidValue_def Let_def cellA_def cellB_def cellC_def)

lemma seenCellIds_oneCellWorld:
  "m_cellDataAllowed s \<Longrightarrow> seenCellIds oneCellWorld s = [\<lparr>uniqueCellId = cellA, signalStrength = 15\<rparr>]"
  by (simp add: seenCellIds_def oneCellWorld_def threeCellWorld_def exampleWorld_def lteCell_def
      cellIdentity_def cellTypeOf_def InvalidValue_def Let_def cellA_def)

lemma threeCellWorld_fields:
  "mlsdb_files threeCellWorld = triangleFiles" "clock_timestamp threeCellWorld = 1000000"
  "clock_arbitration threeCellWorld = 1000000" "\<not> locator_findLocation threeCellWorld q"
  by (simp_all add: threeCellWorld_def exampleWorld_def)

lemma oneCellWorld_fields:
  "mlsdb_files oneCellWorld = triangleFiles" "clock_timestamp oneCellWorld = 1040000"
  "clock_arbitration oneCellWorld = 1040000" "clock_timerEvent oneCellWorld = 1040000"
  by (simp_all add: oneCellWorld_def threeCellWorld_def exampleWorld_def)

lemma int_of_qint64_1000: "int_of_qint64 1000 = 1000"
  by (simp add: int_of_qint64_def)

lemma subscribedProvider_eq:
  "subscribedProvider =
     YandexProvider_members\<lparr>m_positioningEnabled := True, m_cellDataAllowed := True,
       m_positioningStarted := True, m_status := StatusAvailable,
       m_onlineDataAllowed := True, m_wlanDataAllowed := True, m_cellWatcher := True,
       m_signalUpdateCell := True, m_currentLocation := triangleFix,
       m_watchedServices := [(''org.app'', \<lparr>referenceCount = 1, updateInterval = 0\<rparr>)],
       m_uniqueCellIdToLocation :=
          [cellA \<mapsto> \<lparr>lat = Fin 0, lon = Fin 0\<rparr>, cellB \<mapsto> \<lparr>lat = Fin 0, lon = Fin 10\<rparr>,
           cellC \<mapsto> \<lparr>lat = Fin 10, lon = Fin 0\<rparr>],
       m_fixLostTimer := Started 30000, m_recalculatePositionTimer := Started 10000,
       signals := [StatusChanged StatusAvailable,
                   PositionChanged {LatitudePresent, LongitudePresent} 1000
                     (Fin (3752999689475413 / 2 ^ 50)) (Fin (3752999689475413 / 2 ^ 50)) NaN
                     \<lparr>horizontal = Fin 7000, vertical = NaN\<rparr>],
       lookups := [cellA, cellB, cellC]\<rparr>"
proof -
  let ?s0 = "YandexProvider_new threeCellWorld"
  let ?s1 = "?s0\<lparr>m_watchedServices := [(''org.app'', \<lparr>referenceCount = 1, updateInterval = 0\<rparr>)],
      m_idleTimer := Stopped\<rparr>"
  let ?s2 = "?s1\<lparr>m_idleTimer := Stopped, m_positioningStarted := True\<rparr>"
  have s0: "m_watchedServices ?s0 = []" "\<not> m_positioningStarted ?s0" "m_positioningEnabled ?s0"
    "m_cellDataAllowed ?s0" "\<not> m_onlinePositioningEnabled ?s0"
    "m_uniqueCellIdToLocation ?s0 = Map.empty" "m_knownCellIdsWithUnknownLocations ?s0 = {}"
    "lookups ?s0 = []" "timestamp (m_currentLocation ?s0) = 0"
    by (simp_all add: YandexProvider_new_threeCellWorld YandexProvider_members_def Location_default_def)
  have a: "subscribedProvider = startPositioningIfNeeded threeCellWorld ?s1"
    using s0 by (simp add: subscribedProvider_def AddReference_def Let_def serviceData_def ServiceData_default_def)
  have c: "seenCellIds threeCellWorld ?s2 = triangleCells 15"
    using s0 by (simp add: seenCellIds_threeCellWorld)
  have p1: "m_uniqueCellIdToLocation ?s2 = Map.empty" using s0 by simp
  have p2: "m_knownCellIdsWithUnknownLocations ?s2 = {}" using s0 by simp
  note r = resolveCells_triangle [OF p1 p2, of 15]
  have k: "\<not> keepsCurrentLocation t (m_currentLocation ?s2) l" for t l
    using s0 by (simp add: keepsCurrentLocation_def)
  have u: "updateLocationFromCells threeCellWorld (triangleCells 15) ?s2
      = setLocation triangleFix
          (?s2\<lparr>m_uniqueCellIdToLocation :=
           [cellA \<mapsto> \<lparr>lat = Fin 0, lon = Fin 0\<rparr>, cellB \<mapsto> \<lparr>lat = Fin 0, lon = Fin 10\<rparr>,
            cellC \<mapsto> \<lparr>lat = Fin 10, lon = Fin 0\<rparr>],
         lookups := lookups ?s2 @ [cellA, cellB, cellC]\<rparr>)"
    unfolding updateLocationFromCells_def threeCellWorld_fields r
    using deviceLocationOf_triangle_15 k
    by (simp add: triangleLocations_def triangleFix_def)
  have m: "minimumRequestedUpdateInterval [(''org.app'', \<lparr>referenceCount = 1, updateInterval = 0\<rparr>)] = 10000"
    by (simp add: minimumRequestedUpdateInterval_def UINT_MAX_def MinimumInterval_def)
  have w: "m_watchedServices (setLocation l s) = m_watchedServices s" for l s
    by (simp add: setLocation_def setStatus_def emitLocationChanged_def Let_def)
  have w2: "m_watchedServices (updateLocationFromCells threeCellWorld (triangleCells 15) ?s2)
      = [(''org.app'', \<lparr>referenceCount = 1, updateInterval = 0\<rparr>)]"
    unfolding u w by simp
  have b: "startPositioningIfNeeded threeCellWorld ?s1
      = (updateLocationFromCells threeCellWorld (triangleCells 15) ?s2)
          \<lparr>m_recalculatePositionTimer := Started 10000\<rparr>"
    using s0 c w2 m
    by (simp add: startPositioningIfNeeded_def calculatePositionAndEmitLocation_def Let_def)
  show ?thesis
    unfolding a b u
    by (simp add: YandexProvider_new_threeCellWorld YandexProvider_members_def setLocation_def
        setStatus_def emitLocationChanged_def positionFields_def qIsNaN_def triangleFix_def
        cdiv_def int_of_qint64_1000 FixTimeout_def Location_default_def Let_def insert_commute)
qed


lemma trackedProvider_eq:
  "trackedProvider =
     subscribedProvider
       \<lparr>m_watchedServices := [(''org.app'', \<lparr>referenceCount = 1, updateInterval = 40000\<rparr>)],
        m_recalculatePositionTimer := Started 40000\<rparr>"
  unfolding trackedProvider_def subscribedProvider_eq
  by (simp add: SetOptions_def intervalOption_def serviceData_def Let_def
      minimumRequestedUpdateInterval_def UINT_MAX_def MinimumInterval_def)

lemma fixLostOnce_eq:
  "fixLostOnce =
     trackedProvider
       \<lparr>m_status := StatusAcquiring, m_fixLostTimer := Stopped,
        signals := signals trackedProvider @ [StatusChanged StatusAcquiring]\<rparr>"
  unfolding fixLostOnce_def trackedProvider_eq subscribedProvider_eq
  by (simp add: timerEvent_def setStatus_def)

text \<open>
  The recalculation of forty seconds later: the one cell that is left gives a fix of
  accuracy 9000, the fix from the three cells has accuracy 7000 and is 40 s old, and is
  set as the location once more.
\<close>

lemma updateLocationFromCells_oneCellWorld:
  assumes "m_uniqueCellIdToLocation s cellA = Some \<lparr>lat = Fin 0, lon = Fin 0\<rparr>"
    and "m_currentLocation s = triangleFix"
  shows "updateLocationFromCells oneCellWorld [\<lparr>uniqueCellId = cellA, signalStrength = 15\<rparr>] s
     = setLocation triangleFix s"
proof -
  have r: "resolveCells triangleFiles [\<lparr>uniqueCellId = cellA, signalStrength = 15\<rparr>] s [] (Fin 0)
      = (s, [(cellA, \<lparr>lat = Fin 0, lon = Fin 0\<rparr>)], Fin 15)"
    using assms(1) by (simp add: resolveCell_def double_of_quint32_def)
  have d: "deviceLocationOf 1040000 [\<lparr>uniqueCellId = cellA, signalStrength = 15\<rparr>]
        [(cellA, \<lparr>lat = Fin 0, lon = Fin 0\<rparr>)] (Fin 15)
      = \<lparr>timestamp = 1040000, latitude = Fin 0, longitude = Fin 0, altitude = NaN,
         accuracy = \<lparr>horizontal = Fin 9000, vertical = NaN\<rparr>\<rparr>"
    by (simp add: deviceLocationOf_def double_of_quint32_def double_of_int_def
        MinimumCalculatedAccuracy_def Location_default_def Accuracy_default_def)
  have k: "keepsCurrentLocation 1040000 triangleFix
      \<lparr>timestamp = 1040000, latitude = Fin 0, longitude = Fin 0, altitude = NaN,
         accuracy = \<lparr>horizontal = Fin 9000, vertical = NaN\<rparr>\<rparr>"
    by (simp add: keepsCurrentLocation_def triangleFix_def FallbackInterval_def)
  show ?thesis
    unfolding updateLocationFromCells_def oneCellWorld_fields r
    using d k assms(2) by simp
qed

lemma fixReemitted_eq:
  "fixReemitted =
     fixLostOnce
       \<lparr>m_status := StatusAvailable, m_signalUpdateCell := False, m_lastLocation := triangleFix,
        m_fixLostTimer := Started 30000,
        signals := signals fixLostOnce @
          [StatusChanged StatusAvailable,
           PositionChanged {LatitudePresent, LongitudePresent} 1000
             (Fin (3752999689475413 / 2 ^ 50)) (Fin (3752999689475413 / 2 ^ 50)) NaN
             \<lparr>horizontal = Fin 7000, vertical = NaN\<rparr>]\<rparr>"
proof -
  let ?s = "fixLostOnce\<lparr>m_signalUpdateCell := False, m_signalUpdateWlan := False\<rparr>"
  have f: "isActive (m_recalculatePositionTimer fixLostOnce)" "m_positioningEnabled fixLostOnce"
    "timestamp (m_currentLocation fixLostOnce) = 1000000" "m_cellDataAllowed ?s"
    "\<not> m_onlinePositioningEnabled ?s"
    "m_uniqueCellIdToLocation ?s cellA = Some \<lparr>lat = Fin 0, lon = Fin 0\<rparr>"
    "m_currentLocation ?s = triangleFix"
    unfolding fixLostOnce_eq trackedProvider_eq subscribedProvider_eq
    by (simp_all add: YandexProvider_members_def triangleFix_def triangle_distinct)
  have "fixReemitted = calculatePositionAndEmitLocation oneCellWorld ?s"
    unfolding fixReemitted_def using f(1,2,3)
    by (simp add: timerEvent_def oneCellWorld_fields ReuseInterval_def Let_def)
  also have "\<dots> = updateLocationFromCells oneCellWorld
      [\<lparr>uniqueCellId = cellA, signalStrength = 15\<rparr>] ?s"
    using f(4,5) by (simp add: calculatePositionAndEmitLocation_def seenCellIds_oneCellWorld Let_def)
  also have "\<dots> = setLocation triangleFix ?s"
    by (rule updateLocationFromCells_oneCellWorld [OF f(6,7)])
  finally show ?thesis
    unfolding fixLostOnce_eq trackedProvider_eq subscribedProvider_eq
    by (simp add: YandexProvider_members_def setLocation_def
        setStatus_def emitLocationChanged_def positionFields_def qIsNaN_def triangleFix_def
        cdiv_def int_of_qint64_1000 FixTimeout_def Let_def insert_commute)
qed

lemma fixLostTwice_eq:
  "fixLostTwice =
     fixReemitted
       \<lparr>m_status := StatusAcquiring, m_fixLostTimer := Stopped,
        signals := signals fixReemitted @ [StatusChanged StatusAcquiring]\<rparr>"
  unfolding fixLostTwice_def fixReemitted_eq fixLostOnce_eq trackedProvider_eq subscribedProvider_eq
  by (simp add: timerEvent_def setStatus_def)

lemma reachable_fixLostTwice: "reachable trackedProvider" "reachable fixLostTwice"
proof -
  have a: "handle threeCellWorld (CallAddReference True ''org.app'') (YandexProvider_new threeCellWorld)
      = Inr subscribedProvider"
    by (simp add: subscribedProvider_def AddReference_def Let_def)
  have b: "handle threeCellWorld (CallSetOptions True ''org.app'' (intervalOption 40000)) subscribedProvider
      = Inr trackedProvider"
    unfolding trackedProvider_eq unfolding subscribedProvider_eq
    by (simp add: SetOptions_def intervalOption_def serviceData_def Let_def
      minimumRequestedUpdateInterval_def UINT_MAX_def MinimumInterval_def)
  have c: "handle oneCellWorld (Timer FixLostTimer) trackedProvider = Inr fixLostOnce"
    by (simp add: fixLostOnce_def)
  have d: "handle oneCellWorld (Timer RecalculatePositionTimer) fixLostOnce = Inr fixReemitted"
    by (simp add: fixReemitted_def)
  have e: "handle oneCellWorld (Timer FixLostTimer) fixReemitted = Inr fixLostTwice"
    by (simp add: fixLostTwice_def)
  from reachable_handle [OF reachable_handle [OF reachable_new a] b]
  show t: "reachable trackedProvider" .
  from reachable_handle [OF reachable_handle [OF reachable_handle [OF t c] d] e]
  show "reachable fixLostTwice" .
qed

text \<open>
  C9 fails in a run of the provider. The first subscriber arrives and asks for an interval
  of 40 s; the provider computes a fix of accuracy 7000 from three cells and is Available.
  The fix-lost timer fires: Acquiring. Ten seconds later the recalculation timer fires;
  one cell is left, its fix of accuracy 9000 is less accurate than the fix held, which is
  40 s old, so that the fix held is set as the location again: Available, with the timer
  started. The timer fires again: Acquiring, for the second time, and the current
  location is still the first fix. No fix has been adopted in between.
\<close>

theorem fixLost_counterexample:
  "reachable trackedProvider
   \<and> m_status trackedProvider = StatusAvailable
   \<and> m_currentLocation trackedProvider = triangleFix
   \<and> handle oneCellWorld (Timer FixLostTimer) trackedProvider = Inr fixLostOnce
   \<and> m_status fixLostOnce = StatusAcquiring
   \<and> handle oneCellWorld (Timer RecalculatePositionTimer) fixLostOnce = Inr fixReemitted
   \<and> m_status fixReemitted = StatusAvailable
   \<and> m_currentLocation fixReemitted = triangleFix
   \<and> handle oneCellWorld (Timer FixLostTimer) fixReemitted = Inr fixLostTwice
   \<and> m_status fixLostTwice = StatusAcquiring
   \<and> m_currentLocation fixLostTwice = triangleFix
   \<and> signals fixLostTwice = signals trackedProvider @
        [StatusChanged StatusAcquiring,
         StatusChanged StatusAvailable,
         PositionChanged {LatitudePresent, LongitudePresent} 1000
           (Fin (3752999689475413 / 2 ^ 50)) (Fin (3752999689475413 / 2 ^ 50)) NaN
           \<lparr>horizontal = Fin 7000, vertical = NaN\<rparr>,
         StatusChanged StatusAcquiring]"
proof -
  have 1: "m_status trackedProvider = StatusAvailable" "m_currentLocation trackedProvider = triangleFix"
    unfolding trackedProvider_eq subscribedProvider_eq by simp_all
  have 2: "m_status fixLostOnce = StatusAcquiring"
    unfolding fixLostOnce_eq by simp
  have 3: "m_status fixReemitted = StatusAvailable" "m_currentLocation fixReemitted = triangleFix"
    unfolding fixReemitted_eq fixLostOnce_eq using 1 by simp_all
  have 4: "m_status fixLostTwice = StatusAcquiring" "m_currentLocation fixLostTwice = triangleFix"
    unfolding fixLostTwice_eq using 3 by simp_all
  have 5: "signals fixLostTwice = signals trackedProvider @
        [StatusChanged StatusAcquiring,
         StatusChanged StatusAvailable,
         PositionChanged {LatitudePresent, LongitudePresent} 1000
           (Fin (3752999689475413 / 2 ^ 50)) (Fin (3752999689475413 / 2 ^ 50)) NaN
           \<lparr>horizontal = Fin 7000, vertical = NaN\<rparr>,
         StatusChanged StatusAcquiring]"
    unfolding fixLostTwice_eq fixReemitted_eq fixLostOnce_eq by simp
  have h: "handle oneCellWorld (Timer FixLostTimer) trackedProvider = Inr fixLostOnce"
    "handle oneCellWorld (Timer RecalculatePositionTimer) fixLostOnce = Inr fixReemitted"
    "handle oneCellWorld (Timer FixLostTimer) fixReemitted = Inr fixLostTwice"
    by (simp_all add: fixLostOnce_def fixReemitted_def fixLostTwice_def)
  from reachable_fixLostTwice(1) 1 2 3 4 5 h show ?thesis
    by blast
qed


section \<open>The cell watcher\<close>

text \<open>
  \<open>m_cellWatcher\<close> is set exactly when \<open>m_cellDataAllowed\<close> is: only the second block of
  \<^verbatim>\<open>updatePositioningEnabled\<close> writes either of them.
\<close>

lemma cellWatcher_resolveCells:
  "m_cellDataAllowed (fst (resolveCells files cells s cl t)) = m_cellDataAllowed s
   \<and> m_cellWatcher (fst (resolveCells files cells s cl t)) = m_cellWatcher s"
proof -
  obtain s' cl' t' where r: "resolveCells files cells s cl t = (s', cl', t')"
    by (cases "resolveCells files cells s cl t")
  from resolveCells_frame [OF r]
  obtain p n l where "s' = s\<lparr>m_uniqueCellIdToLocation := p,
          m_knownCellIdsWithUnknownLocations := n, lookups := l\<rparr>"
    by blast
  with r show ?thesis by simp
qed

lemma cellWatcher_setStatus [simp]:
  "m_cellDataAllowed (setStatus st s) = m_cellDataAllowed s"
  "m_cellWatcher (setStatus st s) = m_cellWatcher s"
  by (simp_all add: setStatus_def)

lemma cellWatcher_setLocation [simp]:
  "m_cellDataAllowed (setLocation l s) = m_cellDataAllowed s"
  "m_cellWatcher (setLocation l s) = m_cellWatcher s"
  by (simp_all add: setLocation_def emitLocationChanged_def Let_def)

lemma cellWatcher_stopPositioningIfNeeded [simp]:
  "m_cellDataAllowed (stopPositioningIfNeeded s) = m_cellDataAllowed s"
  "m_cellWatcher (stopPositioningIfNeeded s) = m_cellWatcher s"
  by (simp_all add: stopPositioningIfNeeded_def)

lemma cellWatcher_updateLocationFromCells [simp]:
  "m_cellDataAllowed (updateLocationFromCells w cells s) = m_cellDataAllowed s"
  "m_cellWatcher (updateLocationFromCells w cells s) = m_cellWatcher s"
proof -
  obtain s' cl t where r: "resolveCells (mlsdb_files w) cells s [] (Fin 0) = (s', cl, t)"
    by (cases "resolveCells (mlsdb_files w) cells s [] (Fin 0)")
  from cellWatcher_resolveCells [of "mlsdb_files w" cells s "[]" "Fin 0"] r
  have e: "m_cellDataAllowed s' = m_cellDataAllowed s" "m_cellWatcher s' = m_cellWatcher s"
    by simp_all
  from r e show "m_cellDataAllowed (updateLocationFromCells w cells s) = m_cellDataAllowed s"
    by (simp add: updateLocationFromCells_def Let_def)
  from r e show "m_cellWatcher (updateLocationFromCells w cells s) = m_cellWatcher s"
    by (simp add: updateLocationFromCells_def Let_def)
qed

lemma cellWatcher_calculatePositionAndEmitLocation [simp]:
  "m_cellDataAllowed (calculatePositionAndEmitLocation w s) = m_cellDataAllowed s"
  "m_cellWatcher (calculatePositionAndEmitLocation w s) = m_cellWatcher s"
  by (simp_all add: calculatePositionAndEmitLocation_def Let_def)

lemma cellWatcher_startPositioningIfNeeded [simp]:
  "m_cellDataAllowed (startPositioningIfNeeded w s) = m_cellDataAllowed s"
  "m_cellWatcher (startPositioningIfNeeded w s) = m_cellWatcher s"
  by (simp_all add: startPositioningIfNeeded_def Let_def)

lemma cellWatcherInv_updatePositioningEnabled:
  "cellWatcherInv s \<Longrightarrow> cellWatcherInv (updatePositioningEnabled w s)"
  by (auto simp: cellWatcherInv_def updatePositioningEnabled_def Let_def
      updateOnlineDataAllowed_def updateCellDataAllowed_def updateWlanDataAllowed_def
      split: prod.splits)

lemma cellWatcher_timerEvent:
  "m_cellDataAllowed (timerEvent w e s) = m_cellDataAllowed s"
  "m_cellWatcher (timerEvent w e s) = m_cellWatcher s"
  by (simp_all add: timerEvent_def Let_def)

lemma cellWatcher_serviceUnregistered:
  "m_cellDataAllowed (serviceUnregistered service s) = m_cellDataAllowed s"
  "m_cellWatcher (serviceUnregistered service s) = m_cellWatcher s"
  by (simp_all add: serviceUnregistered_def Let_def)

lemma cellWatcher_onlineLocationFound:
  "m_cellDataAllowed (onlineLocationFound w la lo ac s) = m_cellDataAllowed s"
  "m_cellWatcher (onlineLocationFound w la lo ac s) = m_cellWatcher s"
  by (simp_all add: onlineLocationFound_def Let_def)

lemma cellWatcher_calls:
  "AddReference w b service s = Inr s' \<Longrightarrow>
     m_cellDataAllowed s' = m_cellDataAllowed s \<and> m_cellWatcher s' = m_cellWatcher s"
  "RemoveReference b service s = Inr s' \<Longrightarrow>
     m_cellDataAllowed s' = m_cellDataAllowed s \<and> m_cellWatcher s' = m_cellWatcher s"
  "SetOptions b service options s = Inr s' \<Longrightarrow>
     m_cellDataAllowed s' = m_cellDataAllowed s \<and> m_cellWatcher s' = m_cellWatcher s"
  by (auto simp: AddReference_def RemoveReference_def SetOptions_def Let_def
      split: if_splits option.splits)

lemma cellWatcherInv_handle:
  "cellWatcherInv s \<Longrightarrow> handle w event s = Inr s' \<Longrightarrow> cellWatcherInv s'"
proof (cases event)
  case (CallAddReference b service)
  assume "cellWatcherInv s" "handle w event s = Inr s'"
  with CallAddReference cellWatcher_calls(1) [of w b service s s'] show ?thesis
    by (simp add: cellWatcherInv_def)
next
  case (CallRemoveReference b service)
  assume "cellWatcherInv s" "handle w event s = Inr s'"
  with CallRemoveReference cellWatcher_calls(2) [of b service s s'] show ?thesis
    by (simp add: cellWatcherInv_def)
next
  case (CallSetOptions b service options)
  assume "cellWatcherInv s" "handle w event s = Inr s'"
  with CallSetOptions cellWatcher_calls(3) [of b service options s s'] show ?thesis
    by (simp add: cellWatcherInv_def)
next
  case (Timer e)
  assume "cellWatcherInv s" "handle w event s = Inr s'"
  with Timer show ?thesis
    by (auto simp: cellWatcherInv_def cellWatcher_timerEvent)
next
  case (LocationFound la lo ac)
  assume "cellWatcherInv s" "handle w event s = Inr s'"
  with LocationFound show ?thesis
    by (auto simp: cellWatcherInv_def cellWatcher_onlineLocationFound)
next
  case LocationError
  assume "cellWatcherInv s" "handle w event s = Inr s'"
  with LocationError show ?thesis
    by (auto simp: cellWatcherInv_def onlineLocationError_def)
next
  case WlanChanged
  assume "cellWatcherInv s" "handle w event s = Inr s'"
  with WlanChanged show ?thesis
    by (auto simp: cellWatcherInv_def onlineWlanChanged_def)
next
  case CellsChanged
  assume "cellWatcherInv s" "handle w event s = Inr s'"
  with CellsChanged show ?thesis
    by (auto simp: cellWatcherInv_def cellularNetworkRegistrationChanged_def)
next
  case SettingsChanged
  assume "cellWatcherInv s" "handle w event s = Inr s'"
  with SettingsChanged show ?thesis
    using cellWatcherInv_updatePositioningEnabled by auto
next
  case (ServiceUnregistered service)
  assume "cellWatcherInv s" "handle w event s = Inr s'"
  with ServiceUnregistered show ?thesis
    by (auto simp: cellWatcherInv_def cellWatcher_serviceUnregistered)
qed

lemma reachable_cellWatcher: "reachable s \<Longrightarrow> m_cellWatcher s = m_cellDataAllowed s"
proof (induction rule: reachable.induct)
  case (reachable_new w)
  have "cellWatcherInv YandexProvider_members"
    by (simp add: cellWatcherInv_def YandexProvider_members_def)
  then have "cellWatcherInv (updatePositioningEnabled w YandexProvider_members)"
    by (rule cellWatcherInv_updatePositioningEnabled)
  then show ?case
    by (simp add: YandexProvider_new_def Let_def cellularNetworkRegistrationChanged_def
        cellWatcherInv_def)
next
  case (reachable_handle s w event s')
  then have "cellWatcherInv s'"
    using cellWatcherInv_handle [of s w event s'] by (simp add: cellWatcherInv_def)
  then show ?case by (simp add: cellWatcherInv_def)
qed

end
